theory Spec2Isabelle
  imports Complex_Main "HOL-Library.AList"
begin

section \<open>Values, errors and numpy array primitives\<close>

text \<open>
  The program computes with numpy arrays of 64-bit floats.  A float is modelled as a real
  number or the not-a-number value: comparisons are those of IEEE 754 (every ordered
  comparison with NaN is false, \<open>NaN != v\<close> is true), arithmetic is exact real
  arithmetic that propagates NaN.  Rounding, overflow, infinities and signed zeros are
  outside the model; a division by zero, which numpy answers with a warning and an
  infinity or NaN, is NaN here.
\<close>

datatype float64 = NaN | Fin real

fun f_lt :: "float64 \<Rightarrow> float64 \<Rightarrow> bool" where
  "f_lt (Fin a) (Fin b) = (a < b)"
| "f_lt _ _ = False"

fun f_eq :: "float64 \<Rightarrow> float64 \<Rightarrow> bool" where
  "f_eq (Fin a) (Fin b) = (a = b)"
| "f_eq _ _ = False"

definition f_ne :: "float64 \<Rightarrow> float64 \<Rightarrow> bool" where
  "f_ne a b = (\<not> f_eq a b)"

fun f_add :: "float64 \<Rightarrow> float64 \<Rightarrow> float64" where
  "f_add (Fin a) (Fin b) = Fin (a + b)"
| "f_add _ _ = NaN"

fun f_sub :: "float64 \<Rightarrow> float64 \<Rightarrow> float64" where
  "f_sub (Fin a) (Fin b) = Fin (a - b)"
| "f_sub _ _ = NaN"

fun f_mul :: "float64 \<Rightarrow> float64 \<Rightarrow> float64" where
  "f_mul (Fin a) (Fin b) = Fin (a * b)"
| "f_mul _ _ = NaN"

fun f_div :: "float64 \<Rightarrow> float64 \<Rightarrow> float64" where
  "f_div (Fin a) (Fin b) = (if b = 0 then NaN else Fin (a / b))"
| "f_div _ _ = NaN"

fun f_neg :: "float64 \<Rightarrow> float64" where
  "f_neg (Fin a) = Fin (- a)"
| "f_neg NaN = NaN"

fun f_sqrt :: "float64 \<Rightarrow> float64" where
  "f_sqrt (Fin a) = (if a < 0 then NaN else Fin (sqrt a))"
| "f_sqrt NaN = NaN"

definition f_sq :: "float64 \<Rightarrow> float64" where
  "f_sq a = f_mul a a"

fun isnan :: "float64 \<Rightarrow> bool" where
  "isnan NaN = True"
| "isnan (Fin a) = False"

text \<open>
  Every exception the modelled code can raise is a value.  \<open>ShapeError\<close> stands for
  the \<open>ValueError\<close> or \<open>IndexError\<close> numpy raises when the shapes of the operands of
  an element-wise operation, a mask or an assignment do not fit; \<open>OtherError\<close> for any
  exception of a collaborator that is not a \<open>ValueError\<close>.
\<close>

datatype error = KeyError | IndexError | ValueError | LinAlgError | NameError | ShapeError
  | OtherError

text \<open>\<open>np.where(mask)[0]\<close>: the positions at which a boolean array is true.\<close>

definition np_where :: "bool list \<Rightarrow> nat list" where
  "np_where msk = filter (\<lambda>i. msk ! i) [0..<length msk]"

text \<open>\<open>a[mask]\<close> for a boolean array \<open>mask\<close> of the length of \<open>a\<close>.\<close>

definition bool_index :: "'a list \<Rightarrow> bool list \<Rightarrow> 'a list" where
  "bool_index a msk = map fst (filter snd (zip a msk))"

text \<open>
  \<open>a[idx] = vals\<close> for an array of positions: the positions are written in order.
  The callers check the shapes first.
\<close>

definition index_assign :: "'a list \<Rightarrow> nat list \<Rightarrow> 'a list \<Rightarrow> 'a list" where
  "index_assign a idx vals = fold (\<lambda>(i, v) b. b[i := v]) (zip idx vals) a"

text \<open>
  \<open>a[idx]\<close> for an array of integers: a negative index counts from the end, an index
  out of range raises \<open>IndexError\<close>.
\<close>

definition fancy_index :: "'a list \<Rightarrow> int list \<Rightarrow> error + 'a list" where
  "fancy_index a idx =
     (let n = int (length a) in
      if list_all (\<lambda>i. - n \<le> i \<and> i < n) idx
      then Inr (map (\<lambda>i. a ! nat (if i < 0 then n + i else i)) idx)
      else Inl IndexError)"

definition zeros :: "nat \<Rightarrow> float64 list" where
  "zeros n = replicate n (Fin 0)"

section \<open>Tables of detections (desimeter.py)\<close>

text \<open>
  An astropy table as \<open>measure_spots\<close> uses it: a number of rows and named columns that
  can be added on demand.  Integer columns (\<open>LOCATION\<close>, \<open>PETAL_LOC\<close>, ...) hold
  integral values of the same type.
\<close>

record table =
  nrows :: nat
  cols :: "string \<rightharpoonup> float64 list"

definition wf_table :: "table \<Rightarrow> bool" where
  "wf_table t = (\<forall>c col. cols t c = Some col \<longrightarrow> length col = nrows t)"

text \<open>\<open>if k not in spots.keys() : spots[k] = np.zeros(len(spots))\<close>\<close>

definition add_missing_column :: "string \<Rightarrow> table \<Rightarrow> table" where
  "add_missing_column k spots =
     (if k \<in> dom (cols spots) then spots
      else spots\<lparr>cols := (cols spots)(k \<mapsto> zeros (nrows spots))\<rparr>)"

text \<open>
  \<open>spots[k2][selection] = self.metro[k1][indices_of_expected_pos]\<close>: the right side is
  evaluated first, then the column of \<open>spots\<close> is written at the selected rows.
\<close>

definition assign_selected ::
  "table \<Rightarrow> string \<Rightarrow> string \<Rightarrow> bool list \<Rightarrow> int list \<Rightarrow> table \<Rightarrow> error + table" where
  "assign_selected metro k1 k2 selection indices spots =
     (case cols metro k1 of
        None \<Rightarrow> Inl KeyError
      | Some mcol \<Rightarrow>
          (case fancy_index mcol indices of
             Inl e \<Rightarrow> Inl e
           | Inr vals \<Rightarrow>
               (case cols spots k2 of
                  None \<Rightarrow> Inl KeyError
                | Some col \<Rightarrow>
                    if length selection \<noteq> length col
                       \<or> length vals \<noteq> length (np_where selection)
                    then Inl ShapeError
                    else Inr (spots\<lparr>cols := (cols spots)
                           (k2 \<mapsto> index_assign col (np_where selection) vals)\<rparr>))))"

text \<open>
  The loop over \<open>zip(["X_FP","Y_FP"],["X_FP_EXP","Y_FP_EXP"])\<close> (lines 89 to 91) and
  the loop over the identity columns, each copied only if the metrology has it
  (lines 92 to 95).
\<close>

fun copy_expected ::
  "table \<Rightarrow> bool list \<Rightarrow> int list \<Rightarrow> (string \<times> string) list \<Rightarrow> table \<Rightarrow> error + table" where
  "copy_expected metro selection indices [] spots = Inr spots"
| "copy_expected metro selection indices ((k1, k2) # ks) spots =
     (case assign_selected metro k1 k2 selection indices (add_missing_column k2 spots) of
        Inl e \<Rightarrow> Inl e
      | Inr spots' \<Rightarrow> copy_expected metro selection indices ks spots')"

fun copy_identity ::
  "table \<Rightarrow> bool list \<Rightarrow> int list \<Rightarrow> string list \<Rightarrow> table \<Rightarrow> error + table" where
  "copy_identity metro selection indices [] spots = Inr spots"
| "copy_identity metro selection indices (k # ks) spots =
     (if k \<in> dom (cols metro)
      then (case assign_selected metro k k selection indices (add_missing_column k spots) of
              Inl e \<Rightarrow> Inl e
            | Inr spots' \<Rightarrow> copy_identity metro selection indices ks spots')
      else copy_identity metro selection indices ks spots)"

definition expected_columns :: "(string \<times> string) list" where
  "expected_columns = [(''X_FP'', ''X_FP_EXP''), (''Y_FP'', ''Y_FP_EXP'')]"

definition identity_columns :: "string list" where
  "identity_columns = [''EXP_Q_0'', ''EXP_S_0'', ''PETAL_LOC'', ''DEVICE_LOC'', ''LOCATION'']"

definition max_match_distance :: float64 where
  "max_match_distance = Fin 7"

text \<open>\<open>is_matched = (distances<max_match_distance)&(indices_of_expected_pos>=0)\<close>\<close>

definition is_matched :: "float64 list \<Rightarrow> int list \<Rightarrow> bool list" where
  "is_matched distances indices =
     map (\<lambda>(d, i). f_lt d max_match_distance \<and> 0 \<le> i) (zip distances indices)"

text \<open>\<open>ii=np.where(selection)[0]; selection[ii] &= is_matched\<close>\<close>

definition gate_selection :: "bool list \<Rightarrow> bool list \<Rightarrow> bool list" where
  "gate_selection selection matched =
     (let ii = np_where selection
      in index_assign selection ii
           (map (\<lambda>(s, m). s \<and> m) (zip (map (\<lambda>i. selection ! i) ii) matched)))"

text \<open>
  What "a row receives nothing" means for a table with columns added on demand: each
  column of the new table holds at this row what the old table held there, or the zero a
  new column is initialised with.
\<close>

definition row_unchanged :: "nat \<Rightarrow> table \<Rightarrow> table \<Rightarrow> bool" where
  "row_unchanged r s s' =
     (\<forall>c col'. cols s' c = Some col' \<longrightarrow>
        col' ! r = (case cols s c of Some col \<Rightarrow> col ! r | None \<Rightarrow> Fin 0))"

definition row_kept :: "nat \<Rightarrow> table \<Rightarrow> table \<Rightarrow> bool" where
  "row_kept r s s' = (dom (cols s) \<subseteq> dom (cols s') \<and> row_unchanged r s s')"

text \<open>
  Lines 76 to 95 of \<open>measure_spots\<close>.  The point matcher \<open>match_same_system\<close> is a
  collaborator: it receives the positions of the selected detections and the metrology
  positions and returns an array of target indices and an array of distances, one entry
  for each source point.  Results of another length make numpy raise, unless an array of
  length one is broadcast, a case that a matcher with this contract never produces.
\<close>

definition match_unmatched_spots ::
  "(float64 list \<Rightarrow> float64 list \<Rightarrow> float64 list \<Rightarrow> float64 list \<Rightarrow> int list \<times> float64 list)
     \<Rightarrow> table \<Rightarrow> table \<Rightarrow> error + table" where
  "match_unmatched_spots match_same_system metro spots =
     (case (cols spots ''LOCATION'', cols spots ''X_FP'', cols spots ''Y_FP'',
            cols metro ''X_FP'', cols metro ''Y_FP'') of
        (Some loc, Some xfp, Some yfp, Some mx, Some my) \<Rightarrow>
          (let selection = map (\<lambda>v. f_eq v (Fin (- 1))) loc;
               (indices, distances) =
                  match_same_system (bool_index xfp selection) (bool_index yfp selection) mx my
           in if length indices \<noteq> length (np_where selection)
                 \<or> length distances \<noteq> length (np_where selection)
              then Inl ShapeError
              else
                (let matched = is_matched distances indices;
                     selection' = gate_selection selection matched;
                     indices' = bool_index indices matched
                 in (case copy_expected metro selection' indices' expected_columns spots of
                       Inl e \<Rightarrow> Inl e
                     | Inr spots' \<Rightarrow>
                         copy_identity metro selection' indices' identity_columns spots')))
      | _ \<Rightarrow> Inl KeyError)"

text \<open>
  Lines 97 to 101: where the metrology position of a detection is set, it replaces the
  expected position.
\<close>

definition prefer_metro :: "string \<Rightarrow> string \<Rightarrow> table \<Rightarrow> error + table" where
  "prefer_metro k_metro k_exp spots =
     (case cols spots k_metro of
        None \<Rightarrow> Inl KeyError
      | Some metro_col \<Rightarrow>
          (let selection = map (\<lambda>v. f_ne v (Fin 0)) metro_col
           in (case cols spots k_exp of
                 None \<Rightarrow> Inl KeyError
               | Some exp_col \<Rightarrow>
                   if length selection \<noteq> length exp_col then Inl ShapeError
                   else Inr (spots\<lparr>cols := (cols spots)
                          (k_exp \<mapsto> index_assign exp_col (np_where selection)
                                       (bool_index metro_col selection))\<rparr>))))"

definition prefer_metrology :: "table \<Rightarrow> error + table" where
  "prefer_metrology spots =
     (case prefer_metro ''X_FP_METRO'' ''X_FP_EXP'' spots of
        Inl e \<Rightarrow> Inl e
      | Inr spots' \<Rightarrow> prefer_metro ''Y_FP_METRO'' ''Y_FP_EXP'' spots')"

text \<open>
  \<open>measure_spots\<close> from line 76 on; \<open>spots\<close> is the table that the detection, the
  fiducial identification and the transform fit (lines 61 to 73, collaborators) produce.
\<close>

definition measure_spots ::
  "(float64 list \<Rightarrow> float64 list \<Rightarrow> float64 list \<Rightarrow> float64 list \<Rightarrow> int list \<times> float64 list)
     \<Rightarrow> table \<Rightarrow> table \<Rightarrow> error + table" where
  "measure_spots match_same_system metro spots =
     (case match_unmatched_spots match_same_system metro spots of
        Inl e \<Rightarrow> Inl e
      | Inr spots' \<Rightarrow> prefer_metrology spots')"

section \<open>Circle aggregation (measure_circles)\<close>

text \<open>
  \<open>np.mean\<close>, \<open>np.std\<close> (the population standard deviation) and \<open>np.median\<close> of a
  one-dimensional array.  Each is NaN for an empty array (numpy warns) and for an array
  that holds a NaN.
\<close>

definition finite_values :: "float64 list \<Rightarrow> real list option" where
  "finite_values xs =
     (if list_ex isnan xs then None
      else Some (map (\<lambda>v. case v of Fin r \<Rightarrow> r | NaN \<Rightarrow> 0) xs))"

definition np_mean :: "float64 list \<Rightarrow> float64" where
  "np_mean xs =
     (case finite_values xs of
        None \<Rightarrow> NaN
      | Some rs \<Rightarrow> if rs = [] then NaN else Fin (sum_list rs / real (length rs)))"

definition np_std :: "float64 list \<Rightarrow> float64" where
  "np_std xs =
     (case finite_values xs of
        None \<Rightarrow> NaN
      | Some rs \<Rightarrow>
          if rs = [] then NaN
          else (let m = sum_list rs / real (length rs)
                in Fin (sqrt (sum_list (map (\<lambda>r. (r - m)\<^sup>2) rs) / real (length rs)))))"

definition np_median :: "float64 list \<Rightarrow> float64" where
  "np_median xs =
     (case finite_values xs of
        None \<Rightarrow> NaN
      | Some rs \<Rightarrow>
          if rs = [] then NaN
          else (let s = sort rs; n = length s
                in if odd n then Fin (s ! (n div 2))
                   else Fin ((s ! (n div 2 - 1) + s ! (n div 2)) / 2)))"

text \<open>
  A \<open>for\<close> loop over a list whose body may raise: the first exception ends the loop.
\<close>

fun for_each :: "('k \<Rightarrow> 's \<Rightarrow> error + 's) \<Rightarrow> 'k list \<Rightarrow> 's \<Rightarrow> error + 's" where
  "for_each body [] s = Inr s"
| "for_each body (k # ks) s =
     (case body k s of Inl e \<Rightarrow> Inl e | Inr s' \<Rightarrow> for_each body ks s')"

text \<open>
  A Python dictionary with integer keys: the entries in insertion order.  \<open>d[k] = v\<close>
  replaces the value of a key that is present and appends a new key at the end.
\<close>

type_synonym 'v dict = "(int \<times> 'v) list"

definition dict_get :: "'v dict \<Rightarrow> int \<Rightarrow> 'v option" where
  "dict_get d k = map_of d k"

definition dict_set :: "'v dict \<Rightarrow> int \<Rightarrow> 'v \<Rightarrow> 'v dict" where
  "dict_set d k v = AList.update k v d"

definition dict_keys :: "'v dict \<Rightarrow> int list" where
  "dict_keys d = map fst d"

text \<open>
  A row of a registered detection table, with the six columns \<open>measure_circles\<close> reads.
  \<open>LOCATION\<close> and \<open>PINHOLE_ID\<close> hold integers, so that \<open>astype(int)\<close> changes nothing.
\<close>

record spot =
  LOCATION :: int
  PINHOLE_ID :: int
  X_FP :: float64
  Y_FP :: float64
  X_FP_EXP :: float64
  Y_FP_EXP :: float64

text \<open>The four dictionaries \<open>x\<close>, \<open>y\<close>, \<open>xexp\<close> and \<open>yexp\<close> of lines 109 to 112.\<close>

record circles_acc =
  acc_x :: "float64 list dict"
  acc_y :: "float64 list dict"
  acc_xexp :: "float64 dict"
  acc_yexp :: "float64 dict"

definition empty_acc :: circles_acc where
  "empty_acc = \<lparr>acc_x = [], acc_y = [], acc_xexp = [], acc_yexp = []\<rparr>"

text \<open>\<open>(np.array(t["LOCATION"])*10+np.array(t["PINHOLE_ID"])).astype(int)\<close>\<close>

definition location_and_pinhole :: "spot list \<Rightarrow> int list" where
  "location_and_pinhole t = map (\<lambda>s. LOCATION s * 10 + PINHOLE_ID s) t"

text \<open>\<open>selection=(spots["LOCATION"]>0)\<close>\<close>

definition selection_matched :: "spot list \<Rightarrow> bool list" where
  "selection_matched t = map (\<lambda>s. 0 < LOCATION s) t"

text \<open>
  \<open>float(t["X_FP_EXP"][location_and_pinhole==loc][0])\<close> and the same for \<open>Y_FP_EXP\<close>:
  the first row with this key; \<open>IndexError\<close> if there is none.
\<close>

definition first_expected :: "spot list \<Rightarrow> int \<Rightarrow> error + float64 \<times> float64" where
  "first_expected t loc =
     (case bool_index t (map (\<lambda>k. k = loc) (location_and_pinhole t)) of
        [] \<Rightarrow> Inl IndexError
      | s # _ \<Rightarrow> Inr (X_FP_EXP s, Y_FP_EXP s))"

text \<open>Lines 120 to 123, and again 134 to 137: the four entries of a device are created.\<close>

definition init_device :: "spot list \<Rightarrow> int \<Rightarrow> circles_acc \<Rightarrow> error + circles_acc" where
  "init_device t loc a =
     (case first_expected t loc of
        Inl e \<Rightarrow> Inl e
      | Inr (xe, ye) \<Rightarrow>
          Inr (a\<lparr>acc_x := dict_set (acc_x a) loc [], acc_y := dict_set (acc_y a) loc [],
                 acc_xexp := dict_set (acc_xexp a) loc xe,
                 acc_yexp := dict_set (acc_yexp a) loc ye\<rparr>))"

text \<open>
  The body of the loop of lines 127 to 139 for one key \<open>loc\<close>: a key that several
  detections of the exposure share is passed over; otherwise the position of its one
  detection is appended to the lists of the device.
\<close>

definition add_observation :: "spot list \<Rightarrow> int \<Rightarrow> circles_acc \<Rightarrow> error + circles_acc" where
  "add_observation t loc a =
     (let ii = np_where (map (\<lambda>k. k = loc) (location_and_pinhole t))
      in if 1 < length ii then Inr a
         else (case ii of
                 [] \<Rightarrow> Inl IndexError
               | i # _ \<Rightarrow>
                   (case (if loc \<in> set (dict_keys (acc_x a)) then Inr a else init_device t loc a) of
                      Inl e \<Rightarrow> Inl e
                    | Inr a' \<Rightarrow>
                        (case dict_get (acc_x a') loc of
                           None \<Rightarrow> Inl KeyError
                         | Some xs \<Rightarrow>
                             (case dict_get (acc_y a') loc of
                                None \<Rightarrow> Inl KeyError
                              | Some ys \<Rightarrow>
                                  Inr (a'\<lparr>acc_x := dict_set (acc_x a') loc (xs @ [X_FP (t ! i)]),
                                          acc_y := dict_set (acc_y a') loc (ys @ [Y_FP (t ! i)])\<rparr>))))))"

text \<open>
  One pass of the loop over the exposures (lines 114 to 139); \<open>first\<close> is the flag of
  line 113, true for the first exposure only.
\<close>

definition accumulate_exposure :: "bool \<Rightarrow> spot list \<Rightarrow> circles_acc \<Rightarrow> error + circles_acc" where
  "accumulate_exposure first t a =
     (let selected = bool_index (location_and_pinhole t) (selection_matched t)
      in (case (if first then for_each (init_device t) selected a else Inr a) of
            Inl e \<Rightarrow> Inl e
          | Inr a' \<Rightarrow> for_each (add_observation t) selected a'))"

fun accumulate :: "bool \<Rightarrow> spot list list \<Rightarrow> circles_acc \<Rightarrow> error + circles_acc" where
  "accumulate first [] a = Inr a"
| "accumulate first (t # ts) a =
     (case accumulate_exposure first t a of
        Inl e \<Rightarrow> Inl e
      | Inr a' \<Rightarrow> accumulate False ts a')"

text \<open>
  The arrays \<open>xfp_metro\<close>, \<open>yfp_metro\<close>, \<open>xfp_meas\<close>, \<open>yfp_meas\<close> and the counter
  \<open>count\<close> of lines 149 to 153.
\<close>

record circle_arrays =
  xfp_metro :: "float64 list"
  yfp_metro :: "float64 list"
  xfp_meas :: "float64 list"
  yfp_meas :: "float64 list"
  count :: nat

text \<open>
  Lines 158 to 160: the observations of a device that enter its fit are those whose \<open>x\<close>
  is not zero, \<open>ii=np.where(x[loc]!=0)[0]; x[loc]=x[loc][ii]; y[loc]=y[loc][ii]\<close>.  An
  index beyond the end of \<open>y[loc]\<close> raises \<open>IndexError\<close> (the caller checks).
\<close>

definition kept_x :: "float64 list \<Rightarrow> float64 list" where
  "kept_x xs = map (\<lambda>i. xs ! i) (np_where (map (\<lambda>v. f_ne v (Fin 0)) xs))"

definition kept_y :: "float64 list \<Rightarrow> float64 list \<Rightarrow> float64 list" where
  "kept_y xs ys = map (\<lambda>i. ys ! i) (np_where (map (\<lambda>v. f_ne v (Fin 0)) xs))"

text \<open>
  The \<open>try\<close> block of lines 171 to 177.  The warp to the curved focal surface, the circle
  fit and the warp back are collaborators; each may raise.
\<close>

definition fit_positioner ::
  "(float64 list \<Rightarrow> float64 list \<Rightarrow> error + float64 list \<times> float64 list)
     \<Rightarrow> (float64 list \<Rightarrow> float64 list \<Rightarrow> error + float64 \<times> float64 \<times> float64)
     \<Rightarrow> (float64 \<Rightarrow> float64 \<Rightarrow> error + float64 \<times> float64)
     \<Rightarrow> float64 list \<Rightarrow> float64 list \<Rightarrow> error + float64 \<times> float64 \<times> float64" where
  "fit_positioner xy2uv fit_circle uv2xy xs ys =
     (case xy2uv xs ys of
        Inl e \<Rightarrow> Inl e
      | Inr (x_cfs, y_cfs) \<Rightarrow>
          (case fit_circle x_cfs y_cfs of
             Inl e \<Rightarrow> Inl e
           | Inr (xc_cfs, yc_cfs, r) \<Rightarrow>
               (case uv2xy xc_cfs yc_cfs of
                  Inl e \<Rightarrow> Inl e
                | Inr (xc, yc) \<Rightarrow> Inr (xc, yc, r))))"

text \<open>Lines 193 to 196: the expected and the measured position of a device are stored.\<close>

definition store_device ::
  "circles_acc \<Rightarrow> nat \<Rightarrow> int \<Rightarrow> float64 \<Rightarrow> float64 \<Rightarrow> circle_arrays \<Rightarrow> error + circle_arrays" where
  "store_device a iloc loc xc yc arr =
     (case dict_get (acc_xexp a) loc of
        None \<Rightarrow> Inl KeyError
      | Some xe \<Rightarrow>
          (case dict_get (acc_yexp a) loc of
             None \<Rightarrow> Inl KeyError
           | Some ye \<Rightarrow>
               Inr (arr\<lparr>xfp_metro := (xfp_metro arr)[iloc := xe],
                        yfp_metro := (yfp_metro arr)[iloc := ye],
                        xfp_meas := (xfp_meas arr)[iloc := xc],
                        yfp_meas := (yfp_meas arr)[iloc := yc]\<rparr>)))"

text \<open>
  \<open>except ValueError\<close> catches a \<open>ValueError\<close> and its subclasses; numpy's
  \<open>LinAlgError\<close> is one.
\<close>

fun is_ValueError :: "error \<Rightarrow> bool" where
  "is_ValueError ValueError = True"
| "is_ValueError LinAlgError = True"
| "is_ValueError _ = False"

text \<open>
  The body of the loop of lines 154 to 196 for the device at position \<open>iloc\<close> of the
  dictionary.  A \<open>ValueError\<close> of the \<open>try\<close> block is caught (the device is passed
  over), any other exception propagates.  \<open>plt\<close> is not defined in the module, so the
  plotting branch raises \<open>NameError\<close>.
\<close>

definition fit_device ::
  "(float64 list \<Rightarrow> float64 list \<Rightarrow> error + float64 list \<times> float64 list)
     \<Rightarrow> (float64 list \<Rightarrow> float64 list \<Rightarrow> error + float64 \<times> float64 \<times> float64)
     \<Rightarrow> (float64 \<Rightarrow> float64 \<Rightarrow> error + float64 \<times> float64)
     \<Rightarrow> bool \<Rightarrow> nat \<Rightarrow> circles_acc \<Rightarrow> int list
     \<Rightarrow> nat \<times> int \<Rightarrow> circle_arrays \<Rightarrow> error + circle_arrays" where
  "fit_device xy2uv fit_circle uv2xy do_plot nmaxplot a pinhole p arr =
     (case p of (iloc, loc) \<Rightarrow>
      (case dict_get (acc_x a) loc of
         None \<Rightarrow> Inl KeyError
       | Some xs0 \<Rightarrow>
           if length xs0 < 6 then Inr arr
           else
             (case dict_get (acc_y a) loc of
                None \<Rightarrow> Inl KeyError
              | Some ys0 \<Rightarrow>
                  (let xs = kept_x xs0
                   in if \<not> list_all (\<lambda>i. i < length ys0)
                              (np_where (map (\<lambda>v. f_ne v (Fin 0)) xs0))
                      then Inl IndexError
                      else
                        (let ys = kept_y xs0 ys0
                         in if pinhole ! iloc = 0 \<and> f_lt (np_std xs) (Fin 1) then Inr arr
                            else
                              (let arr1 = arr\<lparr>count := count arr + 1\<rparr>;
                                   xc = np_median xs;
                                   yc = np_median ys
                               in if pinhole ! iloc = 0
                                  then
                                    (case fit_positioner xy2uv fit_circle uv2xy xs ys of
                                       Inl e \<Rightarrow> if is_ValueError e then Inr arr1 else Inl e
                                     | Inr (xc', yc', r) \<Rightarrow>
                                         if f_lt r (Fin (1 / 10)) then Inr arr1
                                         else if do_plot \<and> count arr1 < nmaxplot
                                         then Inl NameError
                                         else store_device a iloc loc xc' yc' arr1)
                                  else store_device a iloc loc xc yc arr1))))))"

text \<open>A row of the table that \<open>measure_circles\<close> returns.\<close>

record circle_row =
  out_LOCATION :: int
  out_PINHOLE_ID :: int
  out_X_FP_METRO :: float64
  out_Y_FP_METRO :: float64
  out_X_FP :: float64
  out_Y_FP :: float64

text \<open>Lines 197 to 199: \<open>dr=np.sqrt(dx**2+dy**2)\<close>.\<close>

definition radial_offsets :: "circle_arrays \<Rightarrow> float64 list" where
  "radial_offsets arr =
     (let dx = map (\<lambda>(a, b). f_sub a b) (zip (xfp_meas arr) (xfp_metro arr));
          dy = map (\<lambda>(a, b). f_sub a b) (zip (yfp_meas arr) (yfp_metro arr))
      in map (\<lambda>(u, v). f_sqrt (f_add (f_sq u) (f_sq v))) (zip dx dy))"

text \<open>Line 200: the number that is printed, \<open>np.median(dr[dr!=0])*1000.\<close>\<close>

definition median_offset_um :: "float64 list \<Rightarrow> float64" where
  "median_offset_um dr =
     f_mul (np_median (bool_index dr (map (\<lambda>d. f_ne d (Fin 0)) dr))) (Fin 1000)"

text \<open>Line 201: \<open>ii=np.where((xfp_metro!=0)&(dr<3.))[0]\<close>\<close>

definition accepted_devices :: "circle_arrays \<Rightarrow> float64 list \<Rightarrow> nat list" where
  "accepted_devices arr dr =
     np_where (map (\<lambda>(m, d). f_ne m (Fin 0) \<and> f_lt d (Fin 3)) (zip (xfp_metro arr) dr))"

text \<open>
  The loop of lines 154 to 196 over the devices of the dictionary, started with the arrays
  of zeros of lines 149 to 153.
\<close>

definition initial_arrays :: "nat \<Rightarrow> circle_arrays" where
  "initial_arrays ndots =
     \<lparr>xfp_metro = zeros ndots, yfp_metro = zeros ndots,
      xfp_meas = zeros ndots, yfp_meas = zeros ndots, count = 0\<rparr>"

definition fit_devices ::
  "(float64 list \<Rightarrow> float64 list \<Rightarrow> error + float64 list \<times> float64 list)
     \<Rightarrow> (float64 list \<Rightarrow> float64 list \<Rightarrow> error + float64 \<times> float64 \<times> float64)
     \<Rightarrow> (float64 \<Rightarrow> float64 \<Rightarrow> error + float64 \<times> float64)
     \<Rightarrow> bool \<Rightarrow> nat \<Rightarrow> circles_acc \<Rightarrow> error + circle_arrays" where
  "fit_devices xy2uv fit_circle uv2xy do_plot nmaxplot a =
     (let keys = dict_keys (acc_x a);
          pinhole = map (\<lambda>k. k mod 10) keys;
          ndots = length keys
      in for_each (fit_device xy2uv fit_circle uv2xy do_plot nmaxplot a pinhole)
           (enumerate 0 keys) (initial_arrays ndots))"

text \<open>Lines 201 to 204: the table of the accepted devices.\<close>

definition circles_table :: "circles_acc \<Rightarrow> circle_arrays \<Rightarrow> circle_row list" where
  "circles_table a arr =
     (let keys = dict_keys (acc_x a);
          location = map (\<lambda>k. k div 10) keys;
          pinhole = map (\<lambda>k. k mod 10) keys;
          ii = accepted_devices arr (radial_offsets arr)
      in map (\<lambda>i. \<lparr>out_LOCATION = location ! i,
                         out_PINHOLE_ID = pinhole ! i,
                         out_X_FP_METRO = xfp_metro arr ! i,
                         out_Y_FP_METRO = yfp_metro arr ! i,
                         out_X_FP = xfp_meas arr ! i,
                         out_Y_FP = yfp_meas arr ! i\<rparr>) ii)"

text \<open>
  \<open>measure_circles\<close>: the result is the table of line 204 together with the median
  offset that line 200 prints.
\<close>

definition measure_circles ::
  "(float64 list \<Rightarrow> float64 list \<Rightarrow> error + float64 list \<times> float64 list)
     \<Rightarrow> (float64 list \<Rightarrow> float64 list \<Rightarrow> error + float64 \<times> float64 \<times> float64)
     \<Rightarrow> (float64 \<Rightarrow> float64 \<Rightarrow> error + float64 \<times> float64)
     \<Rightarrow> spot list list \<Rightarrow> bool \<Rightarrow> nat \<Rightarrow> error + circle_row list \<times> float64" where
  "measure_circles xy2uv fit_circle uv2xy allspots do_plot nmaxplot =
     (case accumulate True allspots empty_acc of
        Inl e \<Rightarrow> Inl e
      | Inr a \<Rightarrow>
          (case fit_devices xy2uv fit_circle uv2xy do_plot nmaxplot a of
             Inl e \<Rightarrow> Inl e
           | Inr arr \<Rightarrow>
               Inr (circles_table a arr, median_offset_um (radial_offsets arr))))"

text \<open>
  Notions the statements about \<open>measure_circles\<close> use: the observations accumulated for
  a device (none for a key that is absent), the rows of an exposure with a given key, the
  offset between a measured and an expected position as line 199 computes it, and the
  test "the table has a row for the device with this key".
\<close>

definition observations_x :: "circles_acc \<Rightarrow> int \<Rightarrow> float64 list" where
  "observations_x a loc = (case dict_get (acc_x a) loc of None \<Rightarrow> [] | Some xs \<Rightarrow> xs)"

definition observations_y :: "circles_acc \<Rightarrow> int \<Rightarrow> float64 list" where
  "observations_y a loc = (case dict_get (acc_y a) loc of None \<Rightarrow> [] | Some ys \<Rightarrow> ys)"

definition detections_of :: "spot list \<Rightarrow> int \<Rightarrow> spot list" where
  "detections_of t loc = filter (\<lambda>s. LOCATION s * 10 + PINHOLE_ID s = loc) t"

definition offset_mm :: "float64 \<Rightarrow> float64 \<Rightarrow> float64 \<Rightarrow> float64 \<Rightarrow> float64" where
  "offset_mm x_metro y_metro x_meas y_meas =
     f_sqrt (f_add (f_sq (f_sub x_meas x_metro)) (f_sq (f_sub y_meas y_metro)))"

definition has_device :: "circle_row list \<Rightarrow> int \<Rightarrow> bool" where
  "has_device t2 loc =
     list_ex (\<lambda>row. out_LOCATION row = loc div 10 \<and> out_PINHOLE_ID row = loc mod 10) t2"

definition device_entry :: "circle_arrays \<Rightarrow> nat \<Rightarrow> float64 \<times> float64 \<times> float64 \<times> float64" where
  "device_entry arr i = (xfp_metro arr ! i, yfp_metro arr ! i, xfp_meas arr ! i, yfp_meas arr ! i)"

definition arrays_length :: "circle_arrays \<Rightarrow> nat \<Rightarrow> bool" where
  "arrays_length arr n =
     (length (xfp_metro arr) = n \<and> length (yfp_metro arr) = n
      \<and> length (xfp_meas arr) = n \<and> length (yfp_meas arr) = n)"

text \<open>A small registration pass used to exercise the theorems below.\<close>

definition example_metro :: table where
  "example_metro = \<lparr>nrows = 2, cols =
     [''X_FP'' \<mapsto> [Fin 1, Fin 50], ''Y_FP'' \<mapsto> [Fin 0, Fin 0],
      ''LOCATION'' \<mapsto> [Fin 1001, Fin 1002]]\<rparr>"

definition example_spots :: table where
  "example_spots = \<lparr>nrows = 3, cols =
     [''LOCATION'' \<mapsto> [Fin (- 1), Fin 2003, Fin (- 1)],
      ''X_FP'' \<mapsto> [Fin (3 / 2), Fin 20, Fin 30], ''Y_FP'' \<mapsto> [Fin 0, Fin 0, Fin 0],
      ''X_FP_METRO'' \<mapsto> [Fin 0, Fin (199 / 10), Fin 0],
      ''Y_FP_METRO'' \<mapsto> [Fin 0, Fin 0, Fin 0]]\<rparr>"

definition example_matcher ::
  "float64 list \<Rightarrow> float64 list \<Rightarrow> float64 list \<Rightarrow> float64 list \<Rightarrow> int list \<times> float64 list" where
  "example_matcher sx sy tx ty = ([0, 1], [Fin (1 / 2), Fin 20])"

text \<open>
  The four entries of a device, and the fact about the dictionaries that every pass of the
  accumulation keeps: \<open>x\<close> and \<open>y\<close> have the same keys in the same order.
\<close>

definition device_state ::
  "circles_acc \<Rightarrow> int \<Rightarrow> float64 list option \<times> float64 list option \<times> float64 option \<times> float64 option" where
  "device_state a loc =
     (dict_get (acc_x a) loc, dict_get (acc_y a) loc,
      dict_get (acc_xexp a) loc, dict_get (acc_yexp a) loc)"

definition acc_inv :: "circles_acc \<Rightarrow> bool" where
  "acc_inv a = (dict_keys (acc_x a) = dict_keys (acc_y a))"

text \<open>An exposure and an accumulator used to exercise the theorems below.\<close>

definition example_exposure :: "spot list" where
  "example_exposure =
     [\<lparr>LOCATION = 1, PINHOLE_ID = 0, X_FP = Fin 1, Y_FP = Fin 2, X_FP_EXP = Fin 1, Y_FP_EXP = Fin 2\<rparr>,
      \<lparr>LOCATION = 1, PINHOLE_ID = 0, X_FP = Fin 3, Y_FP = Fin 4, X_FP_EXP = Fin 1, Y_FP_EXP = Fin 2\<rparr>,
      \<lparr>LOCATION = 2, PINHOLE_ID = 0, X_FP = Fin 5, Y_FP = Fin 6, X_FP_EXP = Fin 5, Y_FP_EXP = Fin 6\<rparr>]"

definition example_acc :: circles_acc where
  "example_acc = \<lparr>acc_x = [(10, [Fin 1])], acc_y = [(10, [Fin 2])],
                   acc_xexp = [(10, Fin 1)], acc_yexp = [(10, Fin 2)]\<rparr>"

text \<open>
  The four numbers the loop stores for a device, the test of line 201 on them, and the
  row of the table they make.
\<close>

definition entry_accepted :: "float64 \<times> float64 \<times> float64 \<times> float64 \<Rightarrow> bool" where
  "entry_accepted e =
     (case e of (xm, ym, xc, yc) \<Rightarrow> f_ne xm (Fin 0) \<and> f_lt (offset_mm xm ym xc yc) (Fin 3))"

definition entry_row :: "int \<Rightarrow> float64 \<times> float64 \<times> float64 \<times> float64 \<Rightarrow> circle_row" where
  "entry_row loc e =
     (case e of (xm, ym, xc, yc) \<Rightarrow>
        \<lparr>out_LOCATION = loc div 10, out_PINHOLE_ID = loc mod 10,
         out_X_FP_METRO = xm, out_Y_FP_METRO = ym, out_X_FP = xc, out_Y_FP = yc\<rparr>)"

text \<open>
  The diagnostic as the specification words it, to be compared with what line 200
  computes: the median radial offset, in micrometers, over the devices that are not
  excluded, that is, the devices of the returned table.
\<close>

definition median_offset_over_table_um :: "circle_row list \<Rightarrow> float64" where
  "median_offset_over_table_um t2 =
     f_mul (np_median (map (\<lambda>row. offset_mm (out_X_FP_METRO row) (out_Y_FP_METRO row)
                                    (out_X_FP row) (out_Y_FP row)) t2)) (Fin 1000)"

text \<open>
  Six exposures used to exercise the theorems below: a fiducial pinhole (key 11) whose
  \<open>x\<close> is zero in the first three exposures, a positioner that does not move (key 20), a
  fiducial pinhole 9 mm off its expected position (key 41) and one seen in five exposures
  only (key 31); what the accumulation and the loop over the devices make of them; and
  collaborators that raise whenever they are called.
\<close>

definition example_frame :: "real \<Rightarrow> real \<Rightarrow> spot list" where
  "example_frame x y =
     [\<lparr>LOCATION = 1, PINHOLE_ID = 1, X_FP = Fin x, Y_FP = Fin y, X_FP_EXP = Fin 3, Y_FP_EXP = Fin 7\<rparr>,
      \<lparr>LOCATION = 2, PINHOLE_ID = 0, X_FP = Fin 10, Y_FP = Fin 10,
       X_FP_EXP = Fin 10, Y_FP_EXP = Fin 10\<rparr>,
      \<lparr>LOCATION = 4, PINHOLE_ID = 1, X_FP = Fin 20, Y_FP = Fin 0,
       X_FP_EXP = Fin 11, Y_FP_EXP = Fin 0\<rparr>]"

definition example_spot :: spot where
  "example_spot = \<lparr>LOCATION = 3, PINHOLE_ID = 1, X_FP = Fin 30, Y_FP = Fin 30,
                    X_FP_EXP = Fin 30, Y_FP_EXP = Fin 30\<rparr>"

definition example_allspots :: "spot list list" where
  "example_allspots =
     [example_frame 0 5 @ [example_spot], example_frame 0 5 @ [example_spot],
      example_frame 0 5 @ [example_spot], example_frame 2 7 @ [example_spot],
      example_frame 2 7 @ [example_spot], example_frame 2 7]"

definition example_acc_all :: circles_acc where
  "example_acc_all =
     \<lparr>acc_x = [(11, [Fin 0, Fin 0, Fin 0, Fin 2, Fin 2, Fin 2]),
               (20, [Fin 10, Fin 10, Fin 10, Fin 10, Fin 10, Fin 10]),
               (41, [Fin 20, Fin 20, Fin 20, Fin 20, Fin 20, Fin 20]),
               (31, [Fin 30, Fin 30, Fin 30, Fin 30, Fin 30])],
      acc_y = [(11, [Fin 5, Fin 5, Fin 5, Fin 7, Fin 7, Fin 7]),
               (20, [Fin 10, Fin 10, Fin 10, Fin 10, Fin 10, Fin 10]),
               (41, [Fin 0, Fin 0, Fin 0, Fin 0, Fin 0, Fin 0]),
               (31, [Fin 30, Fin 30, Fin 30, Fin 30, Fin 30])],
      acc_xexp = [(11, Fin 3), (20, Fin 10), (41, Fin 11), (31, Fin 30)],
      acc_yexp = [(11, Fin 7), (20, Fin 10), (41, Fin 0), (31, Fin 30)]\<rparr>"

definition example_arrays :: circle_arrays where
  "example_arrays =
     \<lparr>xfp_metro = [Fin 3, Fin 0, Fin 11, Fin 0], yfp_metro = [Fin 7, Fin 0, Fin 0, Fin 0],
      xfp_meas = [Fin 2, Fin 0, Fin 20, Fin 0], yfp_meas = [Fin 7, Fin 0, Fin 0, Fin 0],
      count = 2\<rparr>"

definition example_table_rows :: "circle_row list" where
  "example_table_rows =
     [\<lparr>out_LOCATION = 1, out_PINHOLE_ID = 1, out_X_FP_METRO = Fin 3, out_Y_FP_METRO = Fin 7,
       out_X_FP = Fin 2, out_Y_FP = Fin 7\<rparr>]"

definition no_xy2uv :: "float64 list \<Rightarrow> float64 list \<Rightarrow> error + float64 list \<times> float64 list" where
  "no_xy2uv xs ys = Inl OtherError"

definition no_fit_circle :: "float64 list \<Rightarrow> float64 list \<Rightarrow> error + float64 \<times> float64 \<times> float64" where
  "no_fit_circle xs ys = Inl OtherError"

definition no_uv2xy :: "float64 \<Rightarrow> float64 \<Rightarrow> error + float64 \<times> float64" where
  "no_uv2xy u v = Inl OtherError"

section \<open>The pointing solver (fiberassign.py)\<close>

text \<open>
  The collaborators of \<open>fiberassign.py\<close>: the projection of a sky position to the
  tangent plane (\<open>radec2tan\<close>, with the arguments \<open>ra dec tel_ra tel_dec mjd lst_deg
  hexrot_deg\<close>), the tangent plane to focal plane map (\<open>tan2fp\<close>, with \<open>xtan ytan adc1
  adc2\<close>), \<open>hadec2xy\<close> (with \<open>ha dec tel_ha tel_dec\<close>) and \<open>sincosd\<close>.  Each works
  element by element on the arrays it is given, so each is a function of one element here,
  and none of them raises.
\<close>

record sky_optics =
  radec2tan :: "float64 \<Rightarrow> float64 \<Rightarrow> float64 \<Rightarrow> float64 \<Rightarrow> float64 \<Rightarrow> float64 \<Rightarrow> float64
                  \<Rightarrow> float64 \<times> float64"
  tan2fp :: "float64 \<Rightarrow> float64 \<Rightarrow> float64 \<Rightarrow> float64 \<Rightarrow> float64 \<times> float64"
  hadec2xy :: "float64 \<Rightarrow> float64 \<Rightarrow> float64 \<Rightarrow> float64 \<Rightarrow> float64 \<times> float64"
  sincosd :: "float64 \<Rightarrow> float64 \<times> float64"

text \<open>The scalar arguments of \<open>fiberassign_radec2xy\<close>.\<close>

record tile =
  tile_ra :: float64
  tile_dec :: float64
  tile_mjd :: float64
  tile_ha :: float64
  tile_fieldrot :: float64
  adc1 :: float64
  adc2 :: float64

text \<open>\<open>np.rad2deg\<close>\<close>

definition rad2deg :: "float64 \<Rightarrow> float64" where
  "rad2deg v = f_mul v (Fin (180 / pi))"

text \<open>
  Line 11 of \<open>_measure_fieldrot_deg\<close> for one target:
  \<open>(~(np.isnan(ha*dec*xfp_mm*yfp_mm)))&(xfp_mm**2+yfp_mm**2>10**2)\<close>.
\<close>

definition fieldrot_ok :: "float64 \<times> float64 \<times> float64 \<times> float64 \<Rightarrow> bool" where
  "fieldrot_ok target =
     (case target of (ha, dec, xfp_mm, yfp_mm) \<Rightarrow>
        \<not> isnan (f_mul (f_mul (f_mul ha dec) xfp_mm) yfp_mm)
        \<and> f_lt (Fin (10\<^sup>2)) (f_add (f_sq xfp_mm) (f_sq yfp_mm)))"

text \<open>
  Line 13 for one target, with \<open>x2, y2\<close> its \<open>hadec2xy\<close> coordinates:
  \<open>(yfp_mm*x2-xfp_mm*y2)/np.sqrt((xfp_mm**2+yfp_mm**2)*(x2**2+y2**2))\<close>.
\<close>

definition rotation_estimate :: "float64 \<times> float64 \<times> float64 \<times> float64 \<Rightarrow> float64" where
  "rotation_estimate q =
     (case q of (xfp_mm, yfp_mm, x2, y2) \<Rightarrow>
        f_div (f_sub (f_mul yfp_mm x2) (f_mul xfp_mm y2))
          (f_sqrt (f_mul (f_add (f_sq xfp_mm) (f_sq yfp_mm)) (f_add (f_sq x2) (f_sq y2)))))"

text \<open>
  \<open>_measure_fieldrot_deg\<close>, for four arrays of one length.  For arrays of different lengths
  numpy broadcasts an array of one element and raises otherwise; the model returns
  \<open>ShapeError\<close> for all of them, and no statement below is about such arrays.
\<close>

definition measure_fieldrot_deg ::
  "(float64 \<Rightarrow> float64 \<Rightarrow> float64 \<Rightarrow> float64 \<Rightarrow> float64 \<times> float64)
     \<Rightarrow> float64 list \<Rightarrow> float64 list \<Rightarrow> float64 \<Rightarrow> float64 \<Rightarrow> float64 list \<Rightarrow> float64 list
     \<Rightarrow> error + float64" where
  "measure_fieldrot_deg hadec2xy_fn ha dec tel_ha tel_dec xfp_mm yfp_mm =
     (if \<not> (length dec = length ha \<and> length xfp_mm = length ha \<and> length yfp_mm = length ha)
      then Inl ShapeError
      else
        (let ok = map fieldrot_ok (zip ha (zip dec (zip xfp_mm yfp_mm)));
             xy2 = map (\<lambda>(h, d). hadec2xy_fn h d tel_ha tel_dec)
                     (zip (bool_index ha ok) (bool_index dec ok));
             x2 = map fst xy2;
             y2 = map snd xy2
         in Inr (rad2deg (np_mean (map rotation_estimate
                   (zip (bool_index xfp_mm ok) (zip (bool_index yfp_mm ok) (zip x2 y2))))))))"

text \<open>
  \<open>np.linalg.inv\<close> of a 2 by 2 matrix, given by its rows: \<open>LinAlgError\<close> for a singular
  matrix, the inverse otherwise.  For a matrix with a NaN entry the result is all NaN.
\<close>

type_synonym mat2 = "(float64 \<times> float64) \<times> (float64 \<times> float64)"

definition linalg_inv :: "mat2 \<Rightarrow> error + mat2" where
  "linalg_inv J =
     (case J of
        ((Fin a, Fin b), (Fin c, Fin d)) \<Rightarrow>
          (let det = a * d - b * c
           in if det = 0 then Inl LinAlgError
              else Inr ((Fin (d / det), Fin (- b / det)), (Fin (- c / det), Fin (a / det))))
      | _ \<Rightarrow> Inr ((NaN, NaN), (NaN, NaN)))"

text \<open>\<open>Jinv.dot([x, y])\<close>\<close>

definition mat_dot :: "mat2 \<Rightarrow> float64 \<times> float64 \<Rightarrow> float64 \<times> float64" where
  "mat_dot M v =
     (case M of ((a, b), (c, d)) \<Rightarrow>
        (case v of (x, y) \<Rightarrow> (f_add (f_mul a x) (f_mul b y), f_add (f_mul c x) (f_mul d y))))"

text \<open>
  \<open>radec2tan\<close> followed by \<open>tan2fp\<close> for one sky position, as in lines 29 and 30, 35
  and 36, 37 and 38, 56 and 57, 61 and 62; \<open>tel\<close> is the pair \<open>(tel_ra, tel_dec)\<close>.
\<close>

definition project ::
  "sky_optics \<Rightarrow> tile \<Rightarrow> float64 \<Rightarrow> float64 \<times> float64 \<Rightarrow> float64 \<Rightarrow> float64 \<Rightarrow> float64 \<times> float64" where
  "project opt t lst tel ra dec =
     (case radec2tan opt ra dec (fst tel) (snd tel) (tile_mjd t) lst (Fin 0) of
        (xtan, ytan) \<Rightarrow> tan2fp opt xtan ytan (adc1 t) (adc2 t))"

text \<open>\<open>eps = 1./3600.\<close>, one arcsecond in degrees\<close>

definition eps :: float64 where
  "eps = Fin (1 / 3600)"

text \<open>Lines 33 to 43: the Jacobian, by finite differences.\<close>

definition jacobian :: "sky_optics \<Rightarrow> tile \<Rightarrow> float64 \<Rightarrow> float64 \<times> float64 \<Rightarrow> mat2" where
  "jacobian opt t lst tel =
     (case project opt t lst tel (tile_ra t) (tile_dec t) of (xfp_0, yfp_0) \<Rightarrow>
      (case project opt t lst tel (f_add (tile_ra t) eps) (tile_dec t) of (xfp_dra, yfp_dra) \<Rightarrow>
       (case project opt t lst tel (tile_ra t) (f_add (tile_dec t) eps) of (xfp_ddec, yfp_ddec) \<Rightarrow>
          (let dxdra = f_div (f_sub xfp_dra xfp_0) eps;
               dydra = f_div (f_sub yfp_dra yfp_0) eps;
               dxddec = f_div (f_sub xfp_ddec xfp_0) eps;
               dyddec = f_div (f_sub yfp_ddec yfp_0) eps
           in ((dxdra, dxddec), (dydra, dyddec))))))"

text \<open>
  The body of the loop of lines 27 to 53 for the telescope pointing \<open>tel\<close>; \<open>iteration\<close>
  is the loop variable.
\<close>

definition pointing_step ::
  "sky_optics \<Rightarrow> tile \<Rightarrow> float64 \<Rightarrow> nat \<Rightarrow> float64 \<times> float64 \<Rightarrow> error + float64 \<times> float64" where
  "pointing_step opt t lst iteration tel =
     (case linalg_inv (jacobian opt t lst tel) of
        Inl e \<Rightarrow> Inl e
      | Inr Jinv \<Rightarrow>
          (case mat_dot Jinv (project opt t lst tel (tile_ra t) (tile_dec t)) of
             (dra, ddec) \<Rightarrow> Inr (f_add (fst tel) dra, f_add (snd tel) ddec)))"

text \<open>Lines 19 to 53: the local sidereal time, the first pointing and the loop.\<close>

definition lst_of :: "tile \<Rightarrow> float64" where
  "lst_of t = f_add (tile_ha t) (tile_ra t)"

definition first_pointing :: "tile \<Rightarrow> float64 \<times> float64" where
  "first_pointing t = (f_add (tile_ra t) (Fin 0), f_add (tile_dec t) (Fin 0))"

definition tune_pointing :: "sky_optics \<Rightarrow> tile \<Rightarrow> error + float64 \<times> float64" where
  "tune_pointing opt t = for_each (pointing_step opt t (lst_of t)) [0..<2] (first_pointing t)"

text \<open>
  \<open>fiberassign_radec2xy\<close>, for arrays \<open>ra\<close> and \<open>dec\<close> of one length; the test of the
  lengths comes after the loop, as the arrays are first used on line 61.
\<close>

definition fiberassign_radec2xy ::
  "sky_optics \<Rightarrow> float64 list \<Rightarrow> float64 list \<Rightarrow> tile \<Rightarrow> error + float64 list \<times> float64 list" where
  "fiberassign_radec2xy opt ra dec t =
     (case tune_pointing opt t of
        Inl e \<Rightarrow> Inl e
      | Inr tel \<Rightarrow>
          if length ra \<noteq> length dec then Inl ShapeError
          else
            (let tmp = map (\<lambda>(r, d). project opt t (lst_of t) tel r d) (zip ra dec);
                 tmp_xfp = map fst tmp;
                 tmp_yfp = map snd tmp
             in (case measure_fieldrot_deg (hadec2xy opt) (map f_neg ra) dec
                        (f_neg (tile_ra t)) (tile_dec t) tmp_xfp tmp_yfp of
                   Inl e \<Rightarrow> Inl e
                 | Inr tmp_fieldrot \<Rightarrow>
                     (let drot = f_sub (tile_fieldrot t) tmp_fieldrot
                      in (case sincosd opt drot of
                            (s, c) \<Rightarrow>
                              (let xfp = map (\<lambda>(x, y). f_sub (f_mul c x) (f_mul s y))
                                           (zip tmp_xfp tmp_yfp);
                                   yfp = map (\<lambda>(x, y). f_add (f_mul s x) (f_mul c y))
                                           (zip tmp_xfp tmp_yfp)
                               in (case measure_fieldrot_deg (hadec2xy opt) (map f_neg ra) dec
                                          (f_neg (tile_ra t)) (tile_dec t) xfp yfp of
                                     Inl e \<Rightarrow> Inl e
                                   | Inr realised_fieldrot \<Rightarrow> Inr (xfp, yfp))))))))"

text \<open>
  Notions for the statements: the number of passes of a loop that run to their end, a
  singular matrix, and the field rotation as the specification words it, a mean of the
  estimates weighted by the flux of the targets.
\<close>

fun passes_completed :: "('k \<Rightarrow> 's \<Rightarrow> error + 's) \<Rightarrow> 'k list \<Rightarrow> 's \<Rightarrow> nat" where
  "passes_completed body [] s = 0"
| "passes_completed body (k # ks) s =
     (case body k s of Inl e \<Rightarrow> 0 | Inr s' \<Rightarrow> Suc (passes_completed body ks s'))"

definition singular :: "mat2 \<Rightarrow> bool" where
  "singular J =
     (case J of
        ((Fin a, Fin b), (Fin c, Fin d)) \<Rightarrow> a * d - b * c = 0
      | _ \<Rightarrow> False)"

definition weighted_mean :: "float64 list \<Rightarrow> float64 list \<Rightarrow> float64" where
  "weighted_mean w v =
     (case (finite_values w, finite_values v) of
        (Some ws, Some vs) \<Rightarrow>
          if sum_list ws = 0 then NaN
          else Fin (sum_list (map (\<lambda>(a, b). a * b) (zip ws vs)) / sum_list ws)
      | _ \<Rightarrow> NaN)"

definition flux_weighted_fieldrot_deg ::
  "(float64 \<Rightarrow> float64 \<Rightarrow> float64 \<Rightarrow> float64 \<Rightarrow> float64 \<times> float64)
     \<Rightarrow> float64 list \<Rightarrow> float64 list \<Rightarrow> float64 list \<Rightarrow> float64 \<Rightarrow> float64
     \<Rightarrow> float64 list \<Rightarrow> float64 list \<Rightarrow> error + float64" where
  "flux_weighted_fieldrot_deg hadec2xy_fn flux ha dec tel_ha tel_dec xfp_mm yfp_mm =
     (if \<not> (length dec = length ha \<and> length xfp_mm = length ha \<and> length yfp_mm = length ha
            \<and> length flux = length ha)
      then Inl ShapeError
      else
        (let ok = map fieldrot_ok (zip ha (zip dec (zip xfp_mm yfp_mm)));
             xy2 = map (\<lambda>(h, d). hadec2xy_fn h d tel_ha tel_dec)
                     (zip (bool_index ha ok) (bool_index dec ok));
             x2 = map fst xy2;
             y2 = map snd xy2
         in Inr (rad2deg (weighted_mean (bool_index flux ok)
                   (map rotation_estimate
                      (zip (bool_index xfp_mm ok) (zip (bool_index yfp_mm ok) (zip x2 y2))))))))"

text \<open>
  The rotation estimate of one target, \<open>(ha, dec, xfp_mm, yfp_mm)\<close>, with the tangent-plane
  coordinates of the target computed by \<open>hadec2xy\<close>.
\<close>

definition target_estimate ::
  "(float64 \<Rightarrow> float64 \<Rightarrow> float64 \<Rightarrow> float64 \<Rightarrow> float64 \<times> float64) \<Rightarrow> float64 \<Rightarrow> float64
     \<Rightarrow> float64 \<times> float64 \<times> float64 \<times> float64 \<Rightarrow> float64" where
  "target_estimate hadec2xy_fn tel_ha tel_dec target =
     (case target of (ha, dec, xfp_mm, yfp_mm) \<Rightarrow>
        rotation_estimate (xfp_mm, yfp_mm, fst (hadec2xy_fn ha dec tel_ha tel_dec),
                           snd (hadec2xy_fn ha dec tel_ha tel_dec)))"

text \<open>
  Examples.  A flat projection sends every direction to the centre of the focal plane, a linear
  one returns the offsets from the pointing, and a stalling one is regular at the first pointing
  and flat at every other.  The tile of the examples sits at the origin.
\<close>

definition example_flat_optics :: sky_optics where
  "example_flat_optics =
     \<lparr>radec2tan = (\<lambda>ra dec tel_ra tel_dec mjd lst hexrot. (Fin 0, Fin 0)),
      tan2fp = (\<lambda>xtan ytan a1 a2. (xtan, ytan)),
      hadec2xy = (\<lambda>ha dec tel_ha tel_dec. (ha, dec)),
      sincosd = (\<lambda>deg. (Fin 0, Fin 1))\<rparr>"

definition example_linear_optics :: sky_optics where
  "example_linear_optics =
     \<lparr>radec2tan = (\<lambda>ra dec tel_ra tel_dec mjd lst hexrot. (f_sub ra tel_ra, f_sub dec tel_dec)),
      tan2fp = (\<lambda>xtan ytan a1 a2. (xtan, ytan)),
      hadec2xy = (\<lambda>ha dec tel_ha tel_dec. (ha, dec)),
      sincosd = (\<lambda>deg. (Fin 0, Fin 1))\<rparr>"

definition example_stalling_optics :: sky_optics where
  "example_stalling_optics =
     \<lparr>radec2tan = (\<lambda>ra dec tel_ra tel_dec mjd lst hexrot.
                     if tel_ra = Fin 0 then (f_add ra (Fin 1), dec) else (Fin 0, Fin 0)),
      tan2fp = (\<lambda>xtan ytan a1 a2. (xtan, ytan)),
      hadec2xy = (\<lambda>ha dec tel_ha tel_dec. (ha, dec)),
      sincosd = (\<lambda>deg. (Fin 0, Fin 1))\<rparr>"

definition example_tile :: tile where
  "example_tile = \<lparr>tile_ra = Fin 0, tile_dec = Fin 0, tile_mjd = Fin 59000, tile_ha = Fin 0,
                    tile_fieldrot = Fin 0, adc1 = Fin 0, adc2 = Fin 0\<rparr>"

definition example_hadec2xy :: "float64 \<Rightarrow> float64 \<Rightarrow> float64 \<Rightarrow> float64 \<Rightarrow> float64 \<times> float64" where
  "example_hadec2xy ha dec tel_ha tel_dec = (ha, dec)"

section \<open>Array primitives: helper lemmas\<close>

lemma length_zeros: "length (zeros n) = n"
  by (simp add: zeros_def)

lemma length_index_assign: "length (index_assign a idx vals) = length a"
proof -
  have "length (fold (\<lambda>(i, v) b. b[i := v]) ps a) = length a" for ps :: "(nat \<times> 'a) list"
    by (induction ps arbitrary: a) auto
  then show ?thesis by (simp add: index_assign_def)
qed

lemma index_assign_Nil: "index_assign a [] vals = a" "index_assign a idx [] = a"
  by (simp_all add: index_assign_def)

lemma index_assign_Cons:
  "index_assign a (i # idx) (v # vals) = index_assign (a[i := v]) idx vals"
  by (simp add: index_assign_def)

lemma index_assign_nth_other:
  "i \<notin> set idx \<Longrightarrow> index_assign a idx vals ! i = a ! i"
proof (induction idx arbitrary: a vals)
  case Nil
  then show ?case by (simp add: index_assign_Nil)
next
  case (Cons k idx)
  show ?case
  proof (cases vals)
    case Nil
    then show ?thesis by (simp add: index_assign_Nil)
  next
    case (Cons v vs)
    with Cons.prems Cons.IH [of "a[k := v]" vs] show ?thesis
      by (simp add: index_assign_Cons)
  qed
qed

lemma index_assign_nth_written:
  "distinct idx \<Longrightarrow> j < length idx \<Longrightarrow> j < length vals \<Longrightarrow> idx ! j < length a
     \<Longrightarrow> index_assign a idx vals ! (idx ! j) = vals ! j"
proof (induction idx arbitrary: a vals j)
  case Nil
  then show ?case by simp
next
  case (Cons k idx)
  from Cons.prems(3) obtain v vs where vals: "vals = v # vs"
    by (cases vals) auto
  show ?case
  proof (cases j)
    case 0
    with Cons.prems vals show ?thesis
      by (simp add: index_assign_Cons index_assign_nth_other)
  next
    case (Suc j')
    with Cons.prems vals Cons.IH [of j' vs "a[k := v]"] show ?thesis
      by (simp add: index_assign_Cons)
  qed
qed

lemma set_np_where: "set (np_where m) = {i. i < length m \<and> m ! i}"
  by (auto simp: np_where_def)

lemma distinct_np_where: "distinct (np_where m)"
  by (simp add: np_where_def)

lemma sorted_np_where: "sorted (np_where m)"
  unfolding np_where_def by (rule sorted_wrt_filter) simp

lemma np_where_snoc: "np_where (m @ [b]) = np_where m @ (if b then [length m] else [])"
  by (auto simp: np_where_def nth_append intro: filter_cong)

lemma bool_index_snoc:
  "length a = length m \<Longrightarrow> bool_index (a @ [x]) (m @ [b]) = bool_index a m @ (if b then [x] else [])"
  by (simp add: bool_index_def)

lemma bool_index_conv_nth:
  "length a = length m \<Longrightarrow> bool_index a m = map (\<lambda>i. a ! i) (np_where m)"
proof (induction a m rule: rev_induct2)
  case 1
  then show ?case by (simp add: bool_index_def np_where_def)
next
  case (2 x xs)
  then show ?case by simp
next
  case (3 y ys)
  then show ?case by simp
next
  case (4 x xs y ys)
  then have len: "length xs = length ys" by simp
  have "map (\<lambda>i. (xs @ [x]) ! i) (np_where ys) = map (\<lambda>i. xs ! i) (np_where ys)"
    using len by (auto simp: set_np_where nth_append)
  moreover have "(xs @ [x]) ! length ys = x"
    using len [symmetric] by simp
  ultimately show ?case
    using 4 len by (simp add: bool_index_snoc np_where_snoc)
qed

lemma length_bool_index: "length a = length m \<Longrightarrow> length (bool_index a m) = length (np_where m)"
  by (simp add: bool_index_conv_nth)

lemma length_gate_selection: "length (gate_selection sel m) = length sel"
  by (simp add: gate_selection_def Let_def length_index_assign)

lemma gate_selection_selected:
  assumes "j < length (np_where sel)" and "length m = length (np_where sel)"
  shows "gate_selection sel m ! (np_where sel ! j) = m ! j"
proof -
  let ?ii = "np_where sel"
  let ?vals = "map (\<lambda>(s, m). s \<and> m) (zip (map (\<lambda>i. sel ! i) ?ii) m)"
  from assms(1) have mem: "?ii ! j \<in> set ?ii" by simp
  then have sel: "sel ! (?ii ! j)" and lt: "?ii ! j < length sel"
    by (simp_all add: set_np_where)
  have "index_assign sel ?ii ?vals ! (?ii ! j) = ?vals ! j"
    using assms lt by (intro index_assign_nth_written) (simp_all add: distinct_np_where)
  also have "?vals ! j = m ! j"
    using assms sel by simp
  finally show ?thesis by (simp add: gate_selection_def Let_def)
qed

lemma gate_selection_unselected:
  "r \<notin> set (np_where sel) \<Longrightarrow> gate_selection sel m ! r = sel ! r"
  by (simp add: gate_selection_def Let_def index_assign_nth_other)

lemma set_bool_index:
  "length a = length m \<Longrightarrow> set (bool_index a m) = {a ! j | j. j < length m \<and> m ! j}"
  by (auto simp: bool_index_conv_nth set_np_where)

lemma np_where_gate_selection:
  assumes len: "length m = length (np_where sel)"
  shows "np_where (gate_selection sel m) = bool_index (np_where sel) m"
proof (rule sorted_distinct_set_unique)
  let ?ii = "np_where sel"
  show "sorted (np_where (gate_selection sel m))" by (rule sorted_np_where)
  show "distinct (np_where (gate_selection sel m))" by (rule distinct_np_where)
  have fst: "map fst (zip ?ii m) = ?ii" using len by simp
  have "sorted (map fst (filter snd (zip ?ii m)))"
    by (rule sorted_filter) (simp add: fst sorted_np_where)
  then show "sorted (bool_index ?ii m)" by (simp add: bool_index_def)
  have "distinct (map fst (filter snd (zip ?ii m)))"
    by (rule distinct_map_filter) (simp add: fst distinct_np_where)
  then show "distinct (bool_index ?ii m)" by (simp add: bool_index_def)
  show "set (np_where (gate_selection sel m)) = set (bool_index ?ii m)"
  proof (intro set_eqI iffI)
    fix r assume "r \<in> set (np_where (gate_selection sel m))"
    then have r: "r < length sel" and g: "gate_selection sel m ! r"
      by (simp_all add: set_np_where length_gate_selection)
    have "r \<in> set ?ii"
    proof (rule ccontr)
      assume n: "r \<notin> set ?ii"
      with g have "sel ! r" by (simp add: gate_selection_unselected)
      with r n show False by (simp add: set_np_where)
    qed
    then obtain j where j: "j < length ?ii" "?ii ! j = r"
      by (auto simp: in_set_conv_nth)
    with g len have "m ! j" using gate_selection_selected [of j sel m] by simp
    with j len show "r \<in> set (bool_index ?ii m)"
      by (auto simp: set_bool_index)
  next
    fix r assume "r \<in> set (bool_index ?ii m)"
    then obtain j where j: "j < length m" "m ! j" "r = ?ii ! j"
      using len by (auto simp: set_bool_index)
    with len have "gate_selection sel m ! r"
      using gate_selection_selected [of j sel m] by simp
    moreover from j len have "r \<in> set ?ii" by simp
    then have "r < length sel" by (simp add: set_np_where)
    ultimately show "r \<in> set (np_where (gate_selection sel m))"
      by (simp add: set_np_where length_gate_selection)
  qed
qed

section \<open>measure_spots: helper lemmas\<close>

lemma row_kept_refl: "row_kept r s s"
  by (auto simp: row_kept_def row_unchanged_def)

lemma row_kept_trans:
  assumes "row_kept r s s'" and "row_kept r s' s''"
  shows "row_kept r s s''"
proof -
  have "col'' ! r = (case cols s c of Some col \<Rightarrow> col ! r | None \<Rightarrow> Fin 0)"
    if c: "cols s'' c = Some col''" for c col''
  proof (cases "cols s' c")
    case None
    with assms(1) have "cols s c = None" by (auto simp: row_kept_def)
    with None c assms(2) show ?thesis by (simp add: row_kept_def row_unchanged_def)
  next
    case (Some col')
    with c assms(2) have "col'' ! r = col' ! r" by (simp add: row_kept_def row_unchanged_def)
    also from Some assms(1) have "col' ! r = (case cols s c of Some col \<Rightarrow> col ! r | None \<Rightarrow> Fin 0)"
      by (simp add: row_kept_def row_unchanged_def)
    finally show ?thesis .
  qed
  moreover from assms have "dom (cols s) \<subseteq> dom (cols s'')" by (auto simp: row_kept_def)
  ultimately show ?thesis by (simp add: row_kept_def row_unchanged_def)
qed

lemma nrows_add_missing_column: "nrows (add_missing_column k s) = nrows s"
  by (simp add: add_missing_column_def)

lemma cols_add_missing_column_other: "c \<noteq> k \<Longrightarrow> cols (add_missing_column k s) c = cols s c"
  by (simp add: add_missing_column_def)

lemma cols_add_missing_column_same:
  "cols (add_missing_column k s) k = Some (case cols s k of Some col \<Rightarrow> col | None \<Rightarrow> zeros (nrows s))"
  by (auto simp: add_missing_column_def split: option.splits)

lemma row_kept_add_missing_column: "r < nrows s \<Longrightarrow> row_kept r s (add_missing_column k s)"
  by (auto simp: row_kept_def row_unchanged_def add_missing_column_def zeros_def split: if_splits)

lemma assign_selected_Inr:
  assumes "assign_selected metro k1 k2 sel idx s = Inr s'"
  obtains mcol vals col where "cols metro k1 = Some mcol" "fancy_index mcol idx = Inr vals"
    "cols s k2 = Some col" "length sel = length col" "length vals = length (np_where sel)"
    "s' = s\<lparr>cols := (cols s)(k2 \<mapsto> index_assign col (np_where sel) vals)\<rparr>"
  using assms by (auto simp: assign_selected_def split: option.splits sum.splits if_splits)

lemma row_kept_assign_selected:
  assumes "assign_selected metro k1 k2 sel idx s = Inr s'" and "r \<notin> set (np_where sel)"
  shows "row_kept r s s'"
  using assms(1)
proof (rule assign_selected_Inr)
  fix mcol vals col
  assume "cols s k2 = Some col"
    and "s' = s\<lparr>cols := (cols s)(k2 \<mapsto> index_assign col (np_where sel) vals)\<rparr>"
  with assms(2) show ?thesis
    by (auto simp: row_kept_def row_unchanged_def index_assign_nth_other)
qed

lemma nrows_assign_selected:
  "assign_selected metro k1 k2 sel idx s = Inr s' \<Longrightarrow> nrows s' = nrows s"
  by (erule assign_selected_Inr) simp

lemma cols_assign_selected_other:
  "assign_selected metro k1 k2 sel idx s = Inr s' \<Longrightarrow> c \<noteq> k2 \<Longrightarrow> cols s' c = cols s c"
  by (erule assign_selected_Inr) simp

lemma copy_expected_append:
  "copy_expected metro sel idx (ps @ qs) s =
     (case copy_expected metro sel idx ps s of Inl e \<Rightarrow> Inl e
      | Inr s' \<Rightarrow> copy_expected metro sel idx qs s')"
  by (induction ps arbitrary: s) (auto split: sum.splits)

lemma copy_identity_as_expected:
  "copy_identity metro sel idx ks s =
     copy_expected metro sel idx (map (\<lambda>k. (k, k)) (filter (\<lambda>k. k \<in> dom (cols metro)) ks)) s"
  by (induction ks arbitrary: s) (auto split: sum.splits)

lemma nrows_copy_expected:
  "copy_expected metro sel idx ps s = Inr s' \<Longrightarrow> nrows s' = nrows s"
proof (induction ps arbitrary: s)
  case Nil
  then show ?case by simp
next
  case (Cons p ps)
  obtain k1 k2 where p: "p = (k1, k2)" by (cases p)
  from Cons.prems p obtain s1 where
    s1: "assign_selected metro k1 k2 sel idx (add_missing_column k2 s) = Inr s1"
    and rest: "copy_expected metro sel idx ps s1 = Inr s'"
    by (auto split: sum.splits)
  from Cons.IH [OF rest] nrows_assign_selected [OF s1] show ?case
    by (simp add: nrows_add_missing_column)
qed

lemma cols_copy_expected_other:
  "copy_expected metro sel idx ps s = Inr s' \<Longrightarrow> c \<notin> snd ` set ps \<Longrightarrow> cols s' c = cols s c"
proof (induction ps arbitrary: s)
  case Nil
  then show ?case by simp
next
  case (Cons p ps)
  obtain k1 k2 where p: "p = (k1, k2)" by (cases p)
  from Cons.prems p obtain s1 where
    s1: "assign_selected metro k1 k2 sel idx (add_missing_column k2 s) = Inr s1"
    and rest: "copy_expected metro sel idx ps s1 = Inr s'"
    by (auto split: sum.splits)
  from Cons.prems(2) p have ne: "c \<noteq> k2" and notin: "c \<notin> snd ` set ps" by auto
  from Cons.IH [OF rest notin] cols_assign_selected_other [OF s1 ne] ne show ?case
    by (simp add: cols_add_missing_column_other)
qed

lemma row_kept_copy_expected:
  "copy_expected metro sel idx ps s = Inr s' \<Longrightarrow> r \<notin> set (np_where sel) \<Longrightarrow> r < nrows s
     \<Longrightarrow> row_kept r s s'"
proof (induction ps arbitrary: s)
  case Nil
  then show ?case by (simp add: row_kept_refl)
next
  case (Cons p ps)
  obtain k1 k2 where p: "p = (k1, k2)" by (cases p)
  from Cons.prems p obtain s1 where
    s1: "assign_selected metro k1 k2 sel idx (add_missing_column k2 s) = Inr s1"
    and rest: "copy_expected metro sel idx ps s1 = Inr s'"
    by (auto split: sum.splits)
  have n1: "nrows s1 = nrows s"
    using nrows_assign_selected [OF s1] by (simp add: nrows_add_missing_column)
  have "row_kept r s (add_missing_column k2 s)"
    using Cons.prems(3) by (rule row_kept_add_missing_column)
  moreover have "row_kept r (add_missing_column k2 s) s1"
    using s1 Cons.prems(2) by (rule row_kept_assign_selected)
  moreover have "row_kept r s1 s'"
    using rest Cons.prems(2) Cons.prems(3) n1 by (intro Cons.IH) simp_all
  ultimately show ?case by (blast intro: row_kept_trans)
qed

lemma copy_expected_written:
  assumes "copy_expected metro sel idx ps s = Inr s'"
    and "distinct (map snd ps)" and "(k1, k2) \<in> set ps"
  shows "\<exists>mcol vals col. cols metro k1 = Some mcol \<and> fancy_index mcol idx = Inr vals
           \<and> length vals = length (np_where sel) \<and> length col = length sel
           \<and> cols s' k2 = Some (index_assign col (np_where sel) vals)"
  using assms
proof (induction ps arbitrary: s)
  case Nil
  then show ?case by simp
next
  case (Cons p ps)
  obtain q1 q2 where p: "p = (q1, q2)" by (cases p)
  from Cons.prems(1) p obtain s1 where
    s1: "assign_selected metro q1 q2 sel idx (add_missing_column q2 s) = Inr s1"
    and rest: "copy_expected metro sel idx ps s1 = Inr s'"
    by (auto split: sum.splits)
  show ?case
  proof (cases "(k1, k2) = p")
    case True
    with p have q: "q1 = k1" "q2 = k2" by simp_all
    from Cons.prems(2) p q have "k2 \<notin> snd ` set ps" by simp
    with rest have same: "cols s' k2 = cols s1 k2" by (rule cols_copy_expected_other)
    from s1 show ?thesis
    proof (rule assign_selected_Inr)
      fix mcol vals col
      assume "cols metro q1 = Some mcol" "fancy_index mcol idx = Inr vals"
        "length sel = length col" "length vals = length (np_where sel)"
        "s1 = add_missing_column q2 s
           \<lparr>cols := (cols (add_missing_column q2 s))(q2 \<mapsto> index_assign col (np_where sel) vals)\<rparr>"
      with same q show ?thesis by auto
    qed
  next
    case False
    with Cons.prems(3) have "(k1, k2) \<in> set ps" by simp
    moreover from Cons.prems(2) have "distinct (map snd ps)" by simp
    ultimately show ?thesis using rest by (intro Cons.IH)
  qed
qed

lemma fancy_index_nth:
  "fancy_index a idx = Inr vals \<Longrightarrow> j < length idx \<Longrightarrow> 0 \<le> idx ! j
     \<Longrightarrow> vals ! j = a ! nat (idx ! j)"
  by (auto simp: fancy_index_def Let_def split: if_splits)

lemma example_spots_wf: "wf_table example_spots"
  by (simp add: wf_table_def example_spots_def)

lemma index_assign_mask:
  assumes "length a = length m" and "length b = length m" and "i < length m"
  shows "index_assign a (np_where m) (bool_index b m) ! i = (if m ! i then b ! i else a ! i)"
proof (cases "m ! i")
  case True
  with assms(3) have "i \<in> set (np_where m)" by (simp add: set_np_where)
  then obtain j where j: "j < length (np_where m)" "np_where m ! j = i"
    by (auto simp: in_set_conv_nth)
  have vals: "bool_index b m = map (\<lambda>i. b ! i) (np_where m)"
    using assms(2) by (rule bool_index_conv_nth)
  have "index_assign a (np_where m) (bool_index b m) ! (np_where m ! j) = bool_index b m ! j"
    using j assms by (intro index_assign_nth_written) (simp_all add: distinct_np_where vals)
  with j True vals show ?thesis by simp
next
  case False
  then have "i \<notin> set (np_where m)" by (simp add: set_np_where)
  with False show ?thesis by (simp add: index_assign_nth_other)
qed

lemma wf_table_add_missing_column: "wf_table s \<Longrightarrow> wf_table (add_missing_column k s)"
  by (auto simp: wf_table_def add_missing_column_def zeros_def split: if_splits)

lemma wf_table_assign_selected:
  assumes "assign_selected metro k1 k2 sel idx s = Inr s'" and "wf_table s"
  shows "wf_table s'"
  using assms(1)
proof (rule assign_selected_Inr)
  fix mcol vals col
  assume "cols s k2 = Some col"
    and "s' = s\<lparr>cols := (cols s)(k2 \<mapsto> index_assign col (np_where sel) vals)\<rparr>"
  with assms(2) show ?thesis
    by (auto simp: wf_table_def length_index_assign)
qed

lemma wf_table_copy_expected:
  "copy_expected metro sel idx ps s = Inr s' \<Longrightarrow> wf_table s \<Longrightarrow> wf_table s'"
proof (induction ps arbitrary: s)
  case Nil
  then show ?case by simp
next
  case (Cons p ps)
  obtain k1 k2 where p: "p = (k1, k2)" by (cases p)
  from Cons.prems p obtain s1 where
    s1: "assign_selected metro k1 k2 sel idx (add_missing_column k2 s) = Inr s1"
    and rest: "copy_expected metro sel idx ps s1 = Inr s'"
    by (auto split: sum.splits)
  from Cons.prems(2) have "wf_table (add_missing_column k2 s)"
    by (rule wf_table_add_missing_column)
  with s1 have "wf_table s1" by (rule wf_table_assign_selected)
  with rest show ?case by (rule Cons.IH)
qed

lemma match_unmatched_spots_as_copy:
  assumes "match_unmatched_spots match_same_system metro spots = Inr spots'"
  shows "\<exists>sel idx. copy_expected metro sel idx
       (expected_columns @ map (\<lambda>k. (k, k)) (filter (\<lambda>k. k \<in> dom (cols metro)) identity_columns))
       spots = Inr spots'"
proof -
  from assms obtain sel idx s1 where
    "copy_expected metro sel idx expected_columns spots = Inr s1"
    "copy_identity metro sel idx identity_columns s1 = Inr spots'"
    by (auto simp: match_unmatched_spots_def Let_def
          split: option.splits prod.splits if_splits sum.splits)
  then have "copy_expected metro sel idx
       (expected_columns @ map (\<lambda>k. (k, k)) (filter (\<lambda>k. k \<in> dom (cols metro)) identity_columns))
       spots = Inr spots'"
    by (simp add: copy_expected_append copy_identity_as_expected)
  then show ?thesis by blast
qed

lemma wf_table_match_unmatched_spots:
  assumes "match_unmatched_spots match_same_system metro spots = Inr spots'" and "wf_table spots"
  shows "wf_table spots' \<and> nrows spots' = nrows spots"
  using match_unmatched_spots_as_copy [OF assms(1)] assms(2)
  by (auto dest: wf_table_copy_expected nrows_copy_expected)

lemma prefer_metro_Inr:
  assumes "prefer_metro km ke s = Inr s'"
  obtains mc ec where "cols s km = Some mc" "cols s ke = Some ec" "length mc = length ec"
    "s' = s\<lparr>cols := (cols s)(ke \<mapsto> index_assign ec (np_where (map (\<lambda>v. f_ne v (Fin 0)) mc))
                               (bool_index mc (map (\<lambda>v. f_ne v (Fin 0)) mc)))\<rparr>"
  using assms by (auto simp: prefer_metro_def Let_def split: option.splits if_splits)

lemma prefer_metro_cell:
  assumes "prefer_metro km ke s = Inr s'" and "cols s km = Some mc" and "cols s ke = Some ec"
    and "i < length ec"
  shows "\<exists>ec'. cols s' ke = Some ec'
           \<and> ec' ! i = (if f_ne (mc ! i) (Fin 0) then mc ! i else ec ! i)"
  using assms(1)
proof (rule prefer_metro_Inr)
  fix mc0 ec0
  assume a: "cols s km = Some mc0" "cols s ke = Some ec0" "length mc0 = length ec0"
    "s' = s\<lparr>cols := (cols s)(ke \<mapsto> index_assign ec0 (np_where (map (\<lambda>v. f_ne v (Fin 0)) mc0))
                               (bool_index mc0 (map (\<lambda>v. f_ne v (Fin 0)) mc0)))\<rparr>"
  with assms have eq: "mc0 = mc" "ec0 = ec" by simp_all
  have "index_assign ec (np_where (map (\<lambda>v. f_ne v (Fin 0)) mc))
          (bool_index mc (map (\<lambda>v. f_ne v (Fin 0)) mc)) ! i
        = (if map (\<lambda>v. f_ne v (Fin 0)) mc ! i then mc ! i else ec ! i)"
    using a(3) assms(4) eq by (intro index_assign_mask) simp_all
  with a eq assms(4) show ?thesis by simp
qed

lemma prefer_metro_other:
  "prefer_metro km ke s = Inr s' \<Longrightarrow> c \<noteq> ke \<Longrightarrow> cols s' c = cols s c"
  by (erule prefer_metro_Inr) simp

lemma example_matched:
  "match_unmatched_spots example_matcher example_metro example_spots =
     Inr \<lparr>nrows = 3, cols =
     [''LOCATION'' \<mapsto> [Fin 1001, Fin 2003, Fin (- 1)],
      ''X_FP'' \<mapsto> [Fin (3 / 2), Fin 20, Fin 30], ''Y_FP'' \<mapsto> [Fin 0, Fin 0, Fin 0],
      ''X_FP_METRO'' \<mapsto> [Fin 0, Fin (199 / 10), Fin 0],
      ''Y_FP_METRO'' \<mapsto> [Fin 0, Fin 0, Fin 0],
      ''X_FP_EXP'' \<mapsto> [Fin 1, Fin 0, Fin 0],
      ''Y_FP_EXP'' \<mapsto> [Fin 0, Fin 0, Fin 0]]\<rparr>"
  by (simp add: match_unmatched_spots_def example_matcher_def example_metro_def
      example_spots_def np_where_def bool_index_def is_matched_def gate_selection_def
      index_assign_def assign_selected_def add_missing_column_def fancy_index_def zeros_def
      expected_columns_def identity_columns_def max_match_distance_def Let_def fun_eq_iff
      eval_nat_numeral)

lemma example_measured:
  "measure_spots example_matcher example_metro example_spots =
     Inr \<lparr>nrows = 3, cols =
     [''LOCATION'' \<mapsto> [Fin 1001, Fin 2003, Fin (- 1)],
      ''X_FP'' \<mapsto> [Fin (3 / 2), Fin 20, Fin 30], ''Y_FP'' \<mapsto> [Fin 0, Fin 0, Fin 0],
      ''X_FP_METRO'' \<mapsto> [Fin 0, Fin (199 / 10), Fin 0],
      ''Y_FP_METRO'' \<mapsto> [Fin 0, Fin 0, Fin 0],
      ''X_FP_EXP'' \<mapsto> [Fin 1, Fin (199 / 10), Fin 0],
      ''Y_FP_EXP'' \<mapsto> [Fin 0, Fin 0, Fin 0]]\<rparr>"
  by (simp add: measure_spots_def example_matched prefer_metrology_def prefer_metro_def
        np_where_def bool_index_def index_assign_def f_ne_def Let_def fun_eq_iff)

section \<open>measure_circles: the accumulation of observations, helper lemmas\<close>

lemma for_each_append:
  "for_each body (ks @ ls) s =
     (case for_each body ks s of Inl e \<Rightarrow> Inl e | Inr s' \<Rightarrow> for_each body ls s')"
  by (induction ks arbitrary: s) (auto split: sum.splits)

lemma for_each_invariant:
  assumes "for_each body ks s = Inr s'" and "P s"
    and "\<And>k u u'. k \<in> set ks \<Longrightarrow> P u \<Longrightarrow> body k u = Inr u' \<Longrightarrow> P u'"
  shows "P s'"
  using assms
proof (induction ks arbitrary: s)
  case Nil
  then show ?case by simp
next
  case (Cons k ks)
  from Cons.prems(1) obtain s1 where s1: "body k s = Inr s1" and rest: "for_each body ks s1 = Inr s'"
    by (auto split: sum.splits)
  from Cons.prems(2) s1 have "P s1" by (rule Cons.prems(3) [of k, simplified])
  moreover have "P u'" if "j \<in> set ks" "P u" "body j u = Inr u'" for j u u'
    using that Cons.prems(3) [of j u u'] by simp
  ultimately show ?case using rest by (intro Cons.IH)
qed

lemma for_each_total:
  assumes "P s"
    and "\<And>k u. k \<in> set ks \<Longrightarrow> P u \<Longrightarrow> \<exists>u'. body k u = Inr u' \<and> P u'"
  shows "\<exists>s'. for_each body ks s = Inr s' \<and> P s'"
  using assms
proof (induction ks arbitrary: s)
  case Nil
  then show ?case by simp
next
  case (Cons k ks)
  from Cons.prems obtain s1 where s1: "body k s = Inr s1" "P s1"
    by (meson list.set_intros(1))
  from Cons.IH [OF s1(2)] Cons.prems(2) obtain s' where "for_each body ks s1 = Inr s'" "P s'"
    by (meson list.set_intros(2))
  with s1 show ?case by simp
qed

lemma dict_get_set: "dict_get (dict_set d k v) k' = (if k' = k then Some v else dict_get d k')"
  by (simp add: dict_get_def dict_set_def update_conv')

lemma dict_keys_set:
  "dict_keys (dict_set d k v) = (if k \<in> set (dict_keys d) then dict_keys d else dict_keys d @ [k])"
  by (simp add: dict_keys_def dict_set_def update_keys)

lemma dict_get_None_iff: "dict_get d k = None \<longleftrightarrow> k \<notin> set (dict_keys d)"
  by (simp add: dict_get_def dict_keys_def map_of_eq_None_iff)

lemma bool_index_map_filter: "bool_index t (map P t) = filter P t"
  by (induction t) (simp_all add: bool_index_def)

lemma bool_index_map_map: "bool_index (map f t) (map P t) = map f (filter P t)"
  by (induction t) (simp_all add: bool_index_def)

lemma np_where_key_rows:
  "map (\<lambda>i. t ! i) (np_where (map (\<lambda>k. k = loc) (location_and_pinhole t))) = detections_of t loc"
proof -
  have "map (\<lambda>k. k = loc) (location_and_pinhole t)
          = map (\<lambda>s. LOCATION s * 10 + PINHOLE_ID s = loc) t"
    by (simp add: location_and_pinhole_def)
  moreover have "bool_index t (map (\<lambda>s. LOCATION s * 10 + PINHOLE_ID s = loc) t)
          = map (\<lambda>i. t ! i) (np_where (map (\<lambda>s. LOCATION s * 10 + PINHOLE_ID s = loc) t))"
    by (rule bool_index_conv_nth) simp
  ultimately show ?thesis
    by (simp add: detections_of_def bool_index_map_filter)
qed

lemma length_np_where_key:
  "length (np_where (map (\<lambda>k. k = loc) (location_and_pinhole t))) = length (detections_of t loc)"
  using np_where_key_rows [of t loc, THEN arg_cong, of length] by simp

lemma key_mask: "map (\<lambda>k. k = loc) (location_and_pinhole t)
    = map (\<lambda>s. LOCATION s * 10 + PINHOLE_ID s = loc) t"
  by (simp add: location_and_pinhole_def)

lemma first_expected_rows:
  "first_expected t loc =
     (case detections_of t loc of [] \<Rightarrow> Inl IndexError | s # _ \<Rightarrow> Inr (X_FP_EXP s, Y_FP_EXP s))"
  unfolding first_expected_def key_mask bool_index_map_filter detections_of_def ..

lemma init_device_other:
  assumes "init_device t k a = Inr a'" and "loc \<noteq> k"
  shows "dict_get (acc_x a') loc = dict_get (acc_x a) loc"
    and "dict_get (acc_y a') loc = dict_get (acc_y a) loc"
    and "dict_get (acc_xexp a') loc = dict_get (acc_xexp a) loc"
    and "dict_get (acc_yexp a') loc = dict_get (acc_yexp a) loc"
  using assms by (auto simp: init_device_def dict_get_set split: sum.splits prod.splits)

lemma init_device_same:
  assumes "init_device t k a = Inr a'"
  shows "dict_get (acc_x a') k = Some []" and "dict_get (acc_y a') k = Some []"
  using assms by (auto simp: init_device_def dict_get_set split: sum.splits prod.splits)

lemma add_observation_several:
  "1 < length (detections_of t loc) \<Longrightarrow> add_observation t loc a = Inr a"
  by (simp add: add_observation_def Let_def length_np_where_key)

lemma add_observation_Inr:
  assumes "add_observation t k a = Inr a'"
  shows "(1 < length (detections_of t k) \<and> a' = a)
     \<or> (\<exists>i a1 xs ys. np_where (map (\<lambda>q. q = k) (location_and_pinhole t)) = [i]
           \<and> (if k \<in> set (dict_keys (acc_x a)) then a1 = a else init_device t k a = Inr a1)
           \<and> dict_get (acc_x a1) k = Some xs \<and> dict_get (acc_y a1) k = Some ys
           \<and> a' = a1\<lparr>acc_x := dict_set (acc_x a1) k (xs @ [X_FP (t ! i)]),
                        acc_y := dict_set (acc_y a1) k (ys @ [Y_FP (t ! i)])\<rparr>)"
proof (cases "1 < length (detections_of t k)")
  case True
  with assms show ?thesis by (simp add: add_observation_several)
next
  case False
  let ?ii = "np_where (map (\<lambda>q. q = k) (location_and_pinhole t))"
  from False have small: "\<not> 1 < length ?ii" by (simp add: length_np_where_key)
  with assms obtain i where ii: "?ii = [i]"
    by (cases ?ii) (auto simp: add_observation_def Let_def)
  let ?a1 = "if k \<in> set (dict_keys (acc_x a)) then Inr a else init_device t k a"
  from assms ii obtain a1 where a1: "?a1 = Inr a1"
    by (cases ?a1) (auto simp: add_observation_def Let_def)
  from assms ii a1 obtain xs where xs: "dict_get (acc_x a1) k = Some xs"
    by (cases "dict_get (acc_x a1) k") (auto simp: add_observation_def Let_def)
  from assms ii a1 xs obtain ys where ys: "dict_get (acc_y a1) k = Some ys"
    by (cases "dict_get (acc_y a1) k") (auto simp: add_observation_def Let_def)
  from assms ii a1 xs ys
  have "a' = a1\<lparr>acc_x := dict_set (acc_x a1) k (xs @ [X_FP (t ! i)]),
                        acc_y := dict_set (acc_y a1) k (ys @ [Y_FP (t ! i)])\<rparr>"
    by (simp add: add_observation_def Let_def)
  moreover from a1 have "if k \<in> set (dict_keys (acc_x a)) then a1 = a else init_device t k a = Inr a1"
    by (simp split: if_splits)
  ultimately show ?thesis using ii xs ys by blast
qed

lemma observations_device_state:
  "device_state a' loc = device_state a loc \<Longrightarrow>
     observations_x a' loc = observations_x a loc \<and> observations_y a' loc = observations_y a loc"
  by (simp add: device_state_def observations_x_def observations_y_def)

lemma init_device_state_other:
  "init_device t k a = Inr a' \<Longrightarrow> loc \<noteq> k \<Longrightarrow> device_state a' loc = device_state a loc"
  by (simp add: device_state_def init_device_other)

lemma add_observation_state_other:
  assumes "add_observation t k a = Inr a'" and "loc \<noteq> k"
  shows "device_state a' loc = device_state a loc"
proof -
  from add_observation_Inr [OF assms(1)] show ?thesis
  proof
    assume "1 < length (detections_of t k) \<and> a' = a"
    then show ?thesis by simp
  next
    assume "\<exists>i a1 xs ys. np_where (map (\<lambda>q. q = k) (location_and_pinhole t)) = [i]
           \<and> (if k \<in> set (dict_keys (acc_x a)) then a1 = a else init_device t k a = Inr a1)
           \<and> dict_get (acc_x a1) k = Some xs \<and> dict_get (acc_y a1) k = Some ys
           \<and> a' = a1\<lparr>acc_x := dict_set (acc_x a1) k (xs @ [X_FP (t ! i)]),
                        acc_y := dict_set (acc_y a1) k (ys @ [Y_FP (t ! i)])\<rparr>"
    then obtain i a1 xs ys where
      a1: "if k \<in> set (dict_keys (acc_x a)) then a1 = a else init_device t k a = Inr a1"
      and a': "a' = a1\<lparr>acc_x := dict_set (acc_x a1) k (xs @ [X_FP (t ! i)]),
                        acc_y := dict_set (acc_y a1) k (ys @ [Y_FP (t ! i)])\<rparr>"
      by blast
    from a1 assms(2) have "device_state a1 loc = device_state a loc"
      by (auto simp: init_device_state_other split: if_splits)
    moreover from a' assms(2) have "device_state a' loc = device_state a1 loc"
      by (simp add: device_state_def dict_get_set)
    ultimately show ?thesis by simp
  qed
qed

lemma init_device_inv: "init_device t k a = Inr a' \<Longrightarrow> acc_inv a \<Longrightarrow> acc_inv a'"
  by (auto simp: init_device_def acc_inv_def dict_keys_set split: sum.splits prod.splits)

lemma init_device_total:
  assumes "k \<in> set (location_and_pinhole t)"
  shows "\<exists>a'. init_device t k a = Inr a'"
proof -
  from assms have "detections_of t k \<noteq> []"
    by (auto simp: location_and_pinhole_def detections_of_def filter_empty_conv)
  then show ?thesis
    by (cases "detections_of t k") (simp_all add: init_device_def first_expected_rows)
qed

lemma add_observation_inv:
  assumes "add_observation t k a = Inr a'" and "acc_inv a"
  shows "acc_inv a'"
proof -
  from add_observation_Inr [OF assms(1)] show ?thesis
  proof
    assume "1 < length (detections_of t k) \<and> a' = a"
    with assms(2) show ?thesis by simp
  next
    assume "\<exists>i a1 xs ys. np_where (map (\<lambda>q. q = k) (location_and_pinhole t)) = [i]
           \<and> (if k \<in> set (dict_keys (acc_x a)) then a1 = a else init_device t k a = Inr a1)
           \<and> dict_get (acc_x a1) k = Some xs \<and> dict_get (acc_y a1) k = Some ys
           \<and> a' = a1\<lparr>acc_x := dict_set (acc_x a1) k (xs @ [X_FP (t ! i)]),
                        acc_y := dict_set (acc_y a1) k (ys @ [Y_FP (t ! i)])\<rparr>"
    then obtain i a1 xs ys where
      a1: "if k \<in> set (dict_keys (acc_x a)) then a1 = a else init_device t k a = Inr a1"
      and a': "a' = a1\<lparr>acc_x := dict_set (acc_x a1) k (xs @ [X_FP (t ! i)]),
                        acc_y := dict_set (acc_y a1) k (ys @ [Y_FP (t ! i)])\<rparr>"
      by blast
    from a1 assms(2) have "acc_inv a1"
      by (auto simp: init_device_inv split: if_splits)
    with a' show ?thesis by (simp add: acc_inv_def dict_keys_set)
  qed
qed

lemma add_observation_total:
  assumes "k \<in> set (location_and_pinhole t)" and "acc_inv a"
  shows "\<exists>a'. add_observation t k a = Inr a'"
proof (cases "1 < length (detections_of t k)")
  case True
  then show ?thesis by (simp add: add_observation_several)
next
  case False
  let ?ii = "np_where (map (\<lambda>q. q = k) (location_and_pinhole t))"
  from assms(1) have "detections_of t k \<noteq> []"
    by (auto simp: location_and_pinhole_def detections_of_def filter_empty_conv)
  with False have "length ?ii = 1"
    by (cases "detections_of t k") (simp_all add: length_np_where_key)
  then obtain i where ii: "?ii = [i]"
    by (cases ?ii) simp_all
  have "\<exists>a1. (if k \<in> set (dict_keys (acc_x a)) then Inr a else init_device t k a) = Inr a1"
    using init_device_total [OF assms(1), of a] by (cases "k \<in> set (dict_keys (acc_x a))") simp_all
  then obtain a1 where
    a1: "(if k \<in> set (dict_keys (acc_x a)) then Inr a else init_device t k a) = Inr a1" ..
  have inv1: "acc_inv a1" using a1 assms(2) by (auto simp: init_device_inv split: if_splits)
  have "k \<in> set (dict_keys (acc_x a1))"
  proof (cases "k \<in> set (dict_keys (acc_x a))")
    case True
    with a1 show ?thesis by simp
  next
    case False
    with a1 have "dict_get (acc_x a1) k = Some []" by (simp add: init_device_same)
    then show ?thesis using dict_get_None_iff [of "acc_x a1" k] by simp
  qed
  with inv1 obtain xs ys where "dict_get (acc_x a1) k = Some xs" "dict_get (acc_y a1) k = Some ys"
    using dict_get_None_iff [of "acc_x a1" k] dict_get_None_iff [of "acc_y a1" k]
    by (auto simp: acc_inv_def)
  with ii a1 False show ?thesis
    by (simp add: add_observation_def Let_def length_np_where_key)
qed

lemma add_observation_single:
  assumes "add_observation t loc a = Inr a'" and "detections_of t loc = [s]" and "acc_inv a"
  shows "observations_x a' loc = observations_x a loc @ [X_FP s]
       \<and> observations_y a' loc = observations_y a loc @ [Y_FP s]"
proof -
  let ?ii = "np_where (map (\<lambda>q. q = loc) (location_and_pinhole t))"
  from assms(2) have rows: "map (\<lambda>i. t ! i) ?ii = [s]" by (simp add: np_where_key_rows)
  from assms(2) have "\<not> 1 < length (detections_of t loc)" by simp
  with add_observation_Inr [OF assms(1)] obtain i a1 xs ys where
    ii: "?ii = [i]"
    and a1: "if loc \<in> set (dict_keys (acc_x a)) then a1 = a else init_device t loc a = Inr a1"
    and xs: "dict_get (acc_x a1) loc = Some xs" and ys: "dict_get (acc_y a1) loc = Some ys"
    and a': "a' = a1\<lparr>acc_x := dict_set (acc_x a1) loc (xs @ [X_FP (t ! i)]),
                      acc_y := dict_set (acc_y a1) loc (ys @ [Y_FP (t ! i)])\<rparr>"
    by blast
  from rows ii have ti: "t ! i = s" by simp
  have before: "observations_x a loc = xs \<and> observations_y a loc = ys"
  proof (cases "loc \<in> set (dict_keys (acc_x a))")
    case True
    with a1 xs ys show ?thesis by (simp add: observations_x_def observations_y_def)
  next
    case False
    with assms(3) have "dict_get (acc_x a) loc = None" "dict_get (acc_y a) loc = None"
      by (simp_all add: dict_get_None_iff acc_inv_def)
    moreover from False a1 xs ys have "xs = []" "ys = []"
      using init_device_same [of t loc a a1] by simp_all
    ultimately show ?thesis by (simp add: observations_x_def observations_y_def)
  qed
  from a' ti have "observations_x a' loc = xs @ [X_FP s]" "observations_y a' loc = ys @ [Y_FP s]"
    by (simp_all add: observations_x_def observations_y_def dict_get_set)
  with before show ?thesis by simp
qed

lemma selected_keys:
  "bool_index (location_and_pinhole t) (selection_matched t)
     = map (\<lambda>s. LOCATION s * 10 + PINHOLE_ID s) (filter (\<lambda>s. 0 < LOCATION s) t)"
  by (simp add: location_and_pinhole_def selection_matched_def bool_index_map_map)

lemma selected_keys_subset:
  "set (bool_index (location_and_pinhole t) (selection_matched t)) \<subseteq> set (location_and_pinhole t)"
  unfolding selected_keys by (auto simp: location_and_pinhole_def)

lemma count_selected_key:
  "count_list (bool_index (location_and_pinhole t) (selection_matched t)) loc
     = length (filter (\<lambda>s. 0 < LOCATION s) (detections_of t loc))"
proof -
  have "count_list (map f xs) loc = length (filter (\<lambda>s. f s = loc) xs)" for f :: "spot \<Rightarrow> int" and xs
    by (induction xs) simp_all
  then show ?thesis
    by (simp add: selected_keys detections_of_def conj_commute)
qed

lemma for_each_init_total:
  assumes "set ks \<subseteq> set (location_and_pinhole t)" and "acc_inv a"
  shows "\<exists>a'. for_each (init_device t) ks a = Inr a' \<and> acc_inv a'"
proof (rule for_each_total)
  show "acc_inv a" by fact
next
  fix k u assume "k \<in> set ks" "acc_inv u"
  with assms(1) init_device_total [of k t u] init_device_inv [of t k u]
  show "\<exists>u'. init_device t k u = Inr u' \<and> acc_inv u'" by blast
qed

lemma for_each_add_total:
  assumes "set ks \<subseteq> set (location_and_pinhole t)" and "acc_inv a"
  shows "\<exists>a'. for_each (add_observation t) ks a = Inr a' \<and> acc_inv a'"
proof (rule for_each_total)
  show "acc_inv a" by fact
next
  fix k u assume "k \<in> set ks" "acc_inv u"
  with assms(1) add_observation_total [of k t u] add_observation_inv [of t k u]
  show "\<exists>u'. add_observation t k u = Inr u' \<and> acc_inv u'" by blast
qed

lemma for_each_init_empty:
  assumes "for_each (init_device t) ks a = Inr a'"
    and "observations_x a loc = [] \<and> observations_y a loc = []"
  shows "observations_x a' loc = [] \<and> observations_y a' loc = []"
  using assms
proof (rule for_each_invariant)
  fix k u u'
  assume u: "observations_x u loc = [] \<and> observations_y u loc = []"
    and step: "init_device t k u = Inr u'"
  show "observations_x u' loc = [] \<and> observations_y u' loc = []"
  proof (cases "loc = k")
    case True
    with step show ?thesis
      by (simp add: observations_x_def observations_y_def init_device_same)
  next
    case False
    with step have "device_state u' loc = device_state u loc"
      by (simp add: init_device_state_other)
    from observations_device_state [OF this] u show ?thesis by simp
  qed
qed

lemma for_each_add_several:
  assumes "for_each (add_observation t) ks a = Inr a'" and "1 < length (detections_of t loc)"
  shows "device_state a' loc = device_state a loc"
proof -
  have "device_state a' loc = device_state a loc"
    using assms(1)
  proof (rule for_each_invariant [where P = "\<lambda>u. device_state u loc = device_state a loc"])
    show "device_state a loc = device_state a loc" ..
  next
    fix k u u'
    assume u: "device_state u loc = device_state a loc" and step: "add_observation t k u = Inr u'"
    show "device_state u' loc = device_state a loc"
    proof (cases "loc = k")
      case True
      with assms(2) step have "u' = u" by (simp add: add_observation_several)
      with u show ?thesis by simp
    next
      case False
      with step u show ?thesis by (simp add: add_observation_state_other)
    qed
  qed
  then show ?thesis .
qed

lemma for_each_add_single:
  assumes "for_each (add_observation t) ks a = Inr a'" and "detections_of t loc = [s]"
    and "acc_inv a"
  shows "observations_x a' loc = observations_x a loc @ replicate (count_list ks loc) (X_FP s)
       \<and> observations_y a' loc = observations_y a loc @ replicate (count_list ks loc) (Y_FP s)"
  using assms(1,3)
proof (induction ks arbitrary: a)
  case Nil
  then show ?case by simp
next
  case (Cons k ks)
  from Cons.prems(1) obtain a1 where step: "add_observation t k a = Inr a1"
    and rest: "for_each (add_observation t) ks a1 = Inr a'"
    by (auto split: sum.splits)
  from step Cons.prems(2) have inv1: "acc_inv a1" by (rule add_observation_inv)
  note ih = Cons.IH [OF rest inv1]
  show ?case
  proof (cases "k = loc")
    case True
    with step assms(2) Cons.prems(2)
    have "observations_x a1 loc = observations_x a loc @ [X_FP s]
        \<and> observations_y a1 loc = observations_y a loc @ [Y_FP s]"
      by (intro add_observation_single) simp_all
    with ih True show ?thesis by (simp add: replicate_app_Cons_same)
  next
    case False
    with step have "device_state a1 loc = device_state a loc"
      by (intro add_observation_state_other) auto
    then have "observations_x a1 loc = observations_x a loc \<and> observations_y a1 loc = observations_y a loc"
      by (rule observations_device_state)
    with ih False show ?thesis by simp
  qed
qed

section \<open>measure_circles: the loop over the devices and the table, helper lemmas\<close>

lemma fit_device_cases:
  assumes "fit_device xy2uv fit_circle uv2xy do_plot nmaxplot a pinhole (i, loc) arr = Inr arr'"
  shows "arr' = arr \<or> arr' = arr\<lparr>count := count arr + 1\<rparr>
     \<or> (\<exists>xc yc. store_device a i loc xc yc (arr\<lparr>count := count arr + 1\<rparr>) = Inr arr')"
proof -
  obtain xs0 where xs0: "dict_get (acc_x a) loc = Some xs0"
    using assms by (cases "dict_get (acc_x a) loc") (simp_all add: fit_device_def)
  show ?thesis
  proof (cases "length xs0 < 6")
    case True
    with assms xs0 show ?thesis by (simp add: fit_device_def)
  next
    case False
    obtain ys0 where ys0: "dict_get (acc_y a) loc = Some ys0"
      using assms xs0 False by (cases "dict_get (acc_y a) loc") (simp_all add: fit_device_def)
    let ?ii = "np_where (map (\<lambda>v. f_ne v (Fin 0)) xs0)"
    let ?xs = "kept_x xs0"
    let ?ys = "kept_y xs0 ys0"
    from assms xs0 ys0 False have ok: "list_all (\<lambda>i. i < length ys0) ?ii"
      by (auto simp: fit_device_def Let_def split: if_splits)
    show ?thesis
    proof (cases "pinhole ! i = 0 \<and> f_lt (np_std ?xs) (Fin 1)")
      case True
      with assms xs0 ys0 False ok show ?thesis by (simp add: fit_device_def Let_def)
    next
      case nonstatic: False
      show ?thesis
      proof (cases "pinhole ! i = 0")
        case False
        with assms xs0 ys0 \<open>\<not> length xs0 < 6\<close> ok nonstatic show ?thesis
          by (auto simp: fit_device_def Let_def)
      next
        case True
        with assms xs0 ys0 \<open>\<not> length xs0 < 6\<close> ok nonstatic show ?thesis
          by (cases "fit_positioner xy2uv fit_circle uv2xy ?xs ?ys")
             (auto simp: fit_device_def Let_def split: if_splits prod.splits)
      qed
    qed
  qed
qed

lemma store_device_Inr:
  assumes "store_device a i loc xc yc arr = Inr arr'"
  obtains xe ye where "dict_get (acc_xexp a) loc = Some xe" "dict_get (acc_yexp a) loc = Some ye"
    "arr' = arr\<lparr>xfp_metro := (xfp_metro arr)[i := xe], yfp_metro := (yfp_metro arr)[i := ye],
                xfp_meas := (xfp_meas arr)[i := xc], yfp_meas := (yfp_meas arr)[i := yc]\<rparr>"
  using assms by (auto simp: store_device_def split: option.splits)

lemma store_device_frame:
  assumes "store_device a i loc xc yc arr = Inr arr'"
  shows "arrays_length arr' n = arrays_length arr n"
    and "j \<noteq> i \<Longrightarrow> device_entry arr' j = device_entry arr j"
  using assms by (auto elim!: store_device_Inr simp: arrays_length_def device_entry_def)

lemma fit_device_frame:
  assumes "fit_device xy2uv fit_circle uv2xy do_plot nmaxplot a pinhole (i, loc) arr = Inr arr'"
  shows "arrays_length arr' n = arrays_length arr n"
    and "j \<noteq> i \<Longrightarrow> device_entry arr' j = device_entry arr j"
proof -
  let ?arr1 = "arr\<lparr>count := count arr + 1\<rparr>"
  have 1: "arrays_length ?arr1 n = arrays_length arr n" "device_entry ?arr1 j = device_entry arr j"
    by (simp_all add: arrays_length_def device_entry_def)
  from fit_device_cases [OF assms]
  consider "arr' = arr" | "arr' = ?arr1"
    | xc yc where "store_device a i loc xc yc ?arr1 = Inr arr'" by blast
  then have "arrays_length arr' n = arrays_length arr n
      \<and> (j \<noteq> i \<longrightarrow> device_entry arr' j = device_entry arr j)"
  proof cases
    case 1
    then show ?thesis by simp
  next
    case 2
    with 1 show ?thesis by simp
  next
    case 3
    from store_device_frame [OF 3] 1 show ?thesis by simp
  qed
  then show "arrays_length arr' n = arrays_length arr n"
    and "j \<noteq> i \<Longrightarrow> device_entry arr' j = device_entry arr j" by simp_all
qed

lemma for_each_fit_device:
  assumes "for_each (fit_device xy2uv fit_circle uv2xy do_plot nmaxplot a pinhole) ps arr0 = Inr arr"
    and "distinct (map fst ps)" and "(i, loc) \<in> set ps"
  shows "\<exists>arr1 arr2.
      fit_device xy2uv fit_circle uv2xy do_plot nmaxplot a pinhole (i, loc) arr1 = Inr arr2
      \<and> device_entry arr1 i = device_entry arr0 i \<and> device_entry arr i = device_entry arr2 i
      \<and> arrays_length arr1 n = arrays_length arr0 n"
  using assms
proof (induction ps arbitrary: arr0)
  case Nil
  then show ?case by simp
next
  case (Cons p ps)
  let ?f = "fit_device xy2uv fit_circle uv2xy do_plot nmaxplot a pinhole"
  obtain j k where p: "p = (j, k)" by (cases p)
  from Cons.prems(1) p obtain arr' where step: "?f (j, k) arr0 = Inr arr'"
    and rest: "for_each ?f ps arr' = Inr arr"
    by (auto split: sum.splits)
  show ?case
  proof (cases "(i, loc) = p")
    case True
    with p have ij: "j = i" "k = loc" by simp_all
    from Cons.prems(2) p ij have notin: "i \<notin> fst ` set ps" by simp
    have "device_entry arr i = device_entry arr' i"
      using rest notin
    proof (induction ps arbitrary: arr')
      case Nil
      then show ?case by simp
    next
      case (Cons q qs)
      obtain j' k' where q: "q = (j', k')" by (cases q)
      from Cons.prems(1) q obtain arr'' where s: "?f (j', k') arr' = Inr arr''"
        and r: "for_each ?f qs arr'' = Inr arr"
        by (auto split: sum.splits)
      from Cons.prems(2) q have "i \<noteq> j'" "i \<notin> fst ` set qs" by auto
      with Cons.IH [OF r] fit_device_frame(2) [OF s, of i] show ?case by simp
    qed
    with step ij show ?thesis by blast
  next
    case False
    with Cons.prems(3) have mem: "(i, loc) \<in> set ps" by simp
    from Cons.prems(2) have d: "distinct (map fst ps)" by simp
    from Cons.prems(2) p mem have "i \<noteq> j" by (auto simp: image_iff)
    from Cons.IH [OF rest d mem] obtain arr1 arr2 where
      "?f (i, loc) arr1 = Inr arr2" "device_entry arr1 i = device_entry arr' i"
      "device_entry arr i = device_entry arr2 i" "arrays_length arr1 n = arrays_length arr' n"
      by blast
    with fit_device_frame(1) [OF step, of n] fit_device_frame(2) [OF step, of i] \<open>i \<noteq> j\<close>
    show ?thesis by auto
  qed
qed

lemma arrays_length_initial: "arrays_length (initial_arrays n) n"
  by (simp add: arrays_length_def initial_arrays_def zeros_def)

lemma device_entry_initial:
  "i < n \<Longrightarrow> device_entry (initial_arrays n) i = (Fin 0, Fin 0, Fin 0, Fin 0)"
  by (simp add: device_entry_def initial_arrays_def zeros_def)

lemma fit_devices_length:
  assumes "fit_devices xy2uv fit_circle uv2xy do_plot nmaxplot a = Inr arr"
  shows "arrays_length arr (length (dict_keys (acc_x a)))"
proof -
  let ?keys = "dict_keys (acc_x a)"
  let ?f = "fit_device xy2uv fit_circle uv2xy do_plot nmaxplot a (map (\<lambda>k. k mod 10) ?keys)"
  from assms have loop: "for_each ?f (enumerate 0 ?keys) (initial_arrays (length ?keys)) = Inr arr"
    by (simp add: fit_devices_def Let_def)
  show ?thesis
    using loop arrays_length_initial
  proof (rule for_each_invariant)
    fix p u u'
    assume "arrays_length u (length ?keys)" and "?f p u = Inr u'"
    then show "arrays_length u' (length ?keys)"
      using fit_device_frame(1) [of xy2uv fit_circle uv2xy do_plot nmaxplot a _ "fst p" "snd p" u u']
      by simp
  qed
qed

lemma fit_devices_entry:
  assumes "fit_devices xy2uv fit_circle uv2xy do_plot nmaxplot a = Inr arr"
    and "i < length (dict_keys (acc_x a))"
  shows "\<exists>arr1 arr2.
      fit_device xy2uv fit_circle uv2xy do_plot nmaxplot a
        (map (\<lambda>k. k mod 10) (dict_keys (acc_x a))) (i, dict_keys (acc_x a) ! i) arr1 = Inr arr2
      \<and> device_entry arr1 i = (Fin 0, Fin 0, Fin 0, Fin 0)
      \<and> device_entry arr i = device_entry arr2 i
      \<and> arrays_length arr1 (length (dict_keys (acc_x a)))"
proof -
  let ?keys = "dict_keys (acc_x a)"
  let ?f = "fit_device xy2uv fit_circle uv2xy do_plot nmaxplot a (map (\<lambda>k. k mod 10) ?keys)"
  from assms have loop: "for_each ?f (enumerate 0 ?keys) (initial_arrays (length ?keys)) = Inr arr"
    by (simp add: fit_devices_def Let_def)
  have d: "distinct (map fst (enumerate 0 ?keys))" by simp
  have mem: "(i, ?keys ! i) \<in> set (enumerate 0 ?keys)"
    using assms(2) by (simp add: in_set_enumerate_eq)
  from for_each_fit_device [OF loop d mem, of "length ?keys"] assms(2) show ?thesis
    by (simp add: device_entry_initial arrays_length_initial)
qed

lemma fit_device_few:
  "dict_get (acc_x a) loc = Some xs0 \<Longrightarrow> length xs0 < 6 \<Longrightarrow>
     fit_device xy2uv fit_circle uv2xy do_plot nmaxplot a pinhole (i, loc) arr = Inr arr"
  by (simp add: fit_device_def)

lemma fit_device_static:
  assumes "fit_device xy2uv fit_circle uv2xy do_plot nmaxplot a pinhole (i, loc) arr = Inr arr'"
    and "dict_get (acc_x a) loc = Some xs0" and "pinhole ! i = 0"
    and "f_lt (np_std (kept_x xs0)) (Fin 1)"
  shows "arr' = arr"
proof (cases "length xs0 < 6")
  case True
  with assms show ?thesis by (simp add: fit_device_def)
next
  case False
  obtain ys0 where ys0: "dict_get (acc_y a) loc = Some ys0"
    using assms(1,2) False by (cases "dict_get (acc_y a) loc") (simp_all add: fit_device_def)
  with assms False show ?thesis
    by (auto simp: fit_device_def Let_def split: if_splits)
qed

lemma fit_device_fiducial:
  assumes "fit_device xy2uv fit_circle uv2xy do_plot nmaxplot a pinhole (i, loc) arr = Inr arr'"
    and "dict_get (acc_x a) loc = Some xs0" and "dict_get (acc_y a) loc = Some ys0"
    and "\<not> length xs0 < 6" and "pinhole ! i \<noteq> 0"
    and "arrays_length arr n" and "i < n"
  shows "\<exists>xe ye. dict_get (acc_xexp a) loc = Some xe \<and> dict_get (acc_yexp a) loc = Some ye
      \<and> device_entry arr' i = (xe, ye, np_median (kept_x xs0), np_median (kept_y xs0 ys0))"
proof -
  let ?arr1 = "arr\<lparr>count := count arr + 1\<rparr>"
  from assms(1-5) have "store_device a i loc (np_median (kept_x xs0)) (np_median (kept_y xs0 ys0)) ?arr1
      = Inr arr'"
    by (auto simp: fit_device_def Let_def split: if_splits)
  then show ?thesis
  proof (rule store_device_Inr)
    fix xe ye
    assume "dict_get (acc_xexp a) loc = Some xe" "dict_get (acc_yexp a) loc = Some ye"
      "arr' = ?arr1\<lparr>xfp_metro := (xfp_metro ?arr1)[i := xe], yfp_metro := (yfp_metro ?arr1)[i := ye],
                xfp_meas := (xfp_meas ?arr1)[i := np_median (kept_x xs0)],
                yfp_meas := (yfp_meas ?arr1)[i := np_median (kept_y xs0 ys0)]\<rparr>"
    with assms(6,7) show ?thesis
      by (simp add: device_entry_def arrays_length_def)
  qed
qed

lemma length_radial_offsets:
  "arrays_length arr n \<Longrightarrow> length (radial_offsets arr) = n"
  by (simp add: radial_offsets_def arrays_length_def Let_def)

lemma radial_offsets_nth:
  "arrays_length arr n \<Longrightarrow> i < n \<Longrightarrow>
     radial_offsets arr ! i
       = offset_mm (xfp_metro arr ! i) (yfp_metro arr ! i) (xfp_meas arr ! i) (yfp_meas arr ! i)"
  by (simp add: radial_offsets_def arrays_length_def Let_def offset_mm_def)

lemma accepted_devices_eq:
  assumes "arrays_length arr n"
  shows "accepted_devices arr (radial_offsets arr)
     = filter (\<lambda>i. entry_accepted (device_entry arr i)) [0..<n]"
proof -
  have len: "length (zip (xfp_metro arr) (radial_offsets arr)) = n"
    using assms length_radial_offsets [OF assms] by (simp add: arrays_length_def)
  have "map (\<lambda>(m, d). f_ne m (Fin 0) \<and> f_lt d (Fin 3)) (zip (xfp_metro arr) (radial_offsets arr)) ! i
      = entry_accepted (device_entry arr i)" if "i < n" for i
    using that len assms radial_offsets_nth [OF assms that] length_radial_offsets [OF assms]
    by (simp add: entry_accepted_def device_entry_def arrays_length_def)
  then show ?thesis
    using len by (auto simp: accepted_devices_def np_where_def intro!: filter_cong)
qed

lemma circles_table_eq:
  assumes "arrays_length arr (length (dict_keys (acc_x a)))"
  shows "circles_table a arr
     = map (\<lambda>i. entry_row (dict_keys (acc_x a) ! i) (device_entry arr i))
         (filter (\<lambda>i. entry_accepted (device_entry arr i)) [0..<length (dict_keys (acc_x a))])"
  by (simp add: circles_table_def Let_def accepted_devices_eq [OF assms] entry_row_def
        device_entry_def)

lemma key_div_mod_inj:
  fixes k :: int
  shows "k div 10 = k' div 10 \<Longrightarrow> k mod 10 = k' mod 10 \<Longrightarrow> k = k'"
  by presburger

lemma has_device_iff:
  assumes len: "arrays_length arr (length (dict_keys (acc_x a)))"
    and d: "distinct (dict_keys (acc_x a))" and i: "i < length (dict_keys (acc_x a))"
  shows "has_device (circles_table a arr) (dict_keys (acc_x a) ! i)
     \<longleftrightarrow> entry_accepted (device_entry arr i)"
proof -
  let ?keys = "dict_keys (acc_x a)"
  have key: "out_LOCATION (entry_row k e) = k div 10" "out_PINHOLE_ID (entry_row k e) = k mod 10"
    for k e by (simp_all add: entry_row_def split: prod.splits)
  have "has_device (circles_table a arr) (?keys ! i)
     \<longleftrightarrow> (\<exists>j < length ?keys. entry_accepted (device_entry arr j)
           \<and> ?keys ! j div 10 = ?keys ! i div 10 \<and> ?keys ! j mod 10 = ?keys ! i mod 10)"
    by (auto simp: has_device_def circles_table_eq [OF len] list_ex_iff key)
  also have "\<dots> \<longleftrightarrow> entry_accepted (device_entry arr i)"
  proof
    assume "\<exists>j < length ?keys. entry_accepted (device_entry arr j)
           \<and> ?keys ! j div 10 = ?keys ! i div 10 \<and> ?keys ! j mod 10 = ?keys ! i mod 10"
    then obtain j where j: "j < length ?keys" "entry_accepted (device_entry arr j)"
      "?keys ! j = ?keys ! i" using key_div_mod_inj by blast
    with d i have "j = i" by (simp add: nth_eq_iff_index_eq)
    with j show "entry_accepted (device_entry arr i)" by simp
  next
    assume "entry_accepted (device_entry arr i)"
    with i show "\<exists>j < length ?keys. entry_accepted (device_entry arr j)
           \<and> ?keys ! j div 10 = ?keys ! i div 10 \<and> ?keys ! j mod 10 = ?keys ! i mod 10"
      by blast
  qed
  finally show ?thesis .
qed

lemma circles_table_row:
  assumes len: "arrays_length arr (length (dict_keys (acc_x a)))"
    and d: "distinct (dict_keys (acc_x a))" and i: "i < length (dict_keys (acc_x a))"
    and row: "row \<in> set (circles_table a arr)"
    and key: "out_LOCATION row = dict_keys (acc_x a) ! i div 10"
      "out_PINHOLE_ID row = dict_keys (acc_x a) ! i mod 10"
  shows "row = entry_row (dict_keys (acc_x a) ! i) (device_entry arr i)"
proof -
  let ?keys = "dict_keys (acc_x a)"
  from row obtain j where j: "j < length ?keys" "row = entry_row (?keys ! j) (device_entry arr j)"
    by (auto simp: circles_table_eq [OF len])
  with key have "?keys ! j div 10 = ?keys ! i div 10" "?keys ! j mod 10 = ?keys ! i mod 10"
    by (simp_all add: entry_row_def split: prod.splits)
  then have "?keys ! j = ?keys ! i" by (rule key_div_mod_inj)
  with d i j have "j = i" by (simp add: nth_eq_iff_index_eq)
  with j show ?thesis by simp
qed

lemma init_device_keys:
  "init_device t k a = Inr a' \<Longrightarrow> distinct (dict_keys (acc_x a)) \<Longrightarrow> distinct (dict_keys (acc_x a'))"
  by (auto simp: init_device_def dict_keys_set split: sum.splits prod.splits)

lemma add_observation_keys:
  assumes "add_observation t k a = Inr a'" and "distinct (dict_keys (acc_x a))"
  shows "distinct (dict_keys (acc_x a'))"
proof -
  from add_observation_Inr [OF assms(1)] show ?thesis
  proof
    assume "1 < length (detections_of t k) \<and> a' = a"
    with assms(2) show ?thesis by simp
  next
    assume "\<exists>i a1 xs ys. np_where (map (\<lambda>q. q = k) (location_and_pinhole t)) = [i]
           \<and> (if k \<in> set (dict_keys (acc_x a)) then a1 = a else init_device t k a = Inr a1)
           \<and> dict_get (acc_x a1) k = Some xs \<and> dict_get (acc_y a1) k = Some ys
           \<and> a' = a1\<lparr>acc_x := dict_set (acc_x a1) k (xs @ [X_FP (t ! i)]),
                        acc_y := dict_set (acc_y a1) k (ys @ [Y_FP (t ! i)])\<rparr>"
    then obtain i a1 xs ys where
      a1: "if k \<in> set (dict_keys (acc_x a)) then a1 = a else init_device t k a = Inr a1"
      and a': "a' = a1\<lparr>acc_x := dict_set (acc_x a1) k (xs @ [X_FP (t ! i)]),
                        acc_y := dict_set (acc_y a1) k (ys @ [Y_FP (t ! i)])\<rparr>"
      by blast
    from a1 assms(2) have "distinct (dict_keys (acc_x a1))"
      by (auto simp: init_device_keys split: if_splits)
    with a' show ?thesis by (simp add: dict_keys_set)
  qed
qed

lemma accumulate_exposure_keys:
  assumes "accumulate_exposure first t a = Inr a'" and "distinct (dict_keys (acc_x a))"
  shows "distinct (dict_keys (acc_x a'))"
proof -
  let ?sel = "bool_index (location_and_pinhole t) (selection_matched t)"
  from assms(1) obtain a0 where
    a0: "(if first then for_each (init_device t) ?sel a else Inr a) = Inr a0"
    and a': "for_each (add_observation t) ?sel a0 = Inr a'"
    by (auto simp: accumulate_exposure_def Let_def split: sum.splits)
  have "distinct (dict_keys (acc_x a0))"
  proof (cases first)
    case True
    with a0 have "for_each (init_device t) ?sel a = Inr a0" by simp
    then show ?thesis using assms(2)
      by (rule for_each_invariant) (rule init_device_keys)
  next
    case False
    with a0 assms(2) show ?thesis by simp
  qed
  with a' show ?thesis
    by (rule for_each_invariant) (rule add_observation_keys)
qed

lemma accumulate_keys:
  "accumulate first ts a = Inr a' \<Longrightarrow> distinct (dict_keys (acc_x a)) \<Longrightarrow> distinct (dict_keys (acc_x a'))"
proof (induction ts arbitrary: first a)
  case Nil
  then show ?case by simp
next
  case (Cons t ts)
  from Cons.prems(1) obtain a1 where s: "accumulate_exposure first t a = Inr a1"
    and r: "accumulate False ts a1 = Inr a'"
    by (auto split: sum.splits)
  from accumulate_exposure_keys [OF s Cons.prems(2)] r show ?case by (rule Cons.IH [rotated])
qed

lemma accumulate_distinct:
  "accumulate True allspots empty_acc = Inr a \<Longrightarrow> distinct (dict_keys (acc_x a))"
  by (erule accumulate_keys) (simp add: empty_acc_def dict_keys_def)

lemma dict_key_index:
  assumes "dict_get d k = Some v"
  obtains i where "i < length (dict_keys d)" "dict_keys d ! i = k"
proof -
  from assms have "k \<in> set (dict_keys d)"
    using dict_get_None_iff [of d k] by auto
  then show ?thesis using that by (auto simp: in_set_conv_nth)
qed

lemma measure_circles_Inr:
  assumes "measure_circles xy2uv fit_circle uv2xy allspots do_plot nmaxplot = Inr (t2, med)"
    and "accumulate True allspots empty_acc = Inr a"
  obtains arr where "fit_devices xy2uv fit_circle uv2xy do_plot nmaxplot a = Inr arr"
    "t2 = circles_table a arr" "med = median_offset_um (radial_offsets arr)"
  using assms by (auto simp: measure_circles_def split: sum.splits)

text \<open>The state of a device after the loop, case by case.\<close>

lemma device_outcome:
  assumes acc: "accumulate True allspots empty_acc = Inr a"
    and res: "measure_circles xy2uv fit_circle uv2xy allspots do_plot nmaxplot = Inr (t2, med)"
    and xs: "dict_get (acc_x a) loc = Some xs" and ys: "dict_get (acc_y a) loc = Some ys"
  shows "(length xs < 6 \<longrightarrow> \<not> has_device t2 loc)
     \<and> (loc mod 10 = 0 \<and> f_lt (np_std (kept_x xs)) (Fin 1) \<longrightarrow> \<not> has_device t2 loc)
     \<and> (loc mod 10 \<noteq> 0 \<and> 6 \<le> length xs \<longrightarrow>
          (\<exists>xe ye. dict_get (acc_xexp a) loc = Some xe \<and> dict_get (acc_yexp a) loc = Some ye
             \<and> (has_device t2 loc
                  \<longleftrightarrow> entry_accepted (xe, ye, np_median (kept_x xs), np_median (kept_y xs ys)))
             \<and> (\<forall>row \<in> set t2.
                   out_LOCATION row = loc div 10 \<and> out_PINHOLE_ID row = loc mod 10 \<longrightarrow>
                   row = entry_row loc (xe, ye, np_median (kept_x xs), np_median (kept_y xs ys)))))"
proof -
  let ?keys = "dict_keys (acc_x a)"
  let ?pin = "map (\<lambda>k. k mod 10) ?keys"
  from res acc obtain arr where fit: "fit_devices xy2uv fit_circle uv2xy do_plot nmaxplot a = Inr arr"
    and t2: "t2 = circles_table a arr"
    by (rule measure_circles_Inr)
  from xs obtain i where i: "i < length ?keys" "?keys ! i = loc" by (rule dict_key_index)
  have d: "distinct ?keys" using acc by (rule accumulate_distinct)
  have len: "arrays_length arr (length ?keys)" using fit by (rule fit_devices_length)
  from fit_devices_entry [OF fit i(1)] i(2) obtain arr1 arr2 where
    step: "fit_device xy2uv fit_circle uv2xy do_plot nmaxplot a ?pin (i, loc) arr1 = Inr arr2"
    and e1: "device_entry arr1 i = (Fin 0, Fin 0, Fin 0, Fin 0)"
    and e2: "device_entry arr i = device_entry arr2 i"
    and l1: "arrays_length arr1 (length ?keys)"
    by auto
  have pin: "?pin ! i = loc mod 10" using i by simp
  have has: "has_device t2 loc \<longleftrightarrow> entry_accepted (device_entry arr i)"
    using has_device_iff [OF len d i(1)] i(2) t2 by simp
  have zero: "\<not> entry_accepted (Fin 0, Fin 0, Fin 0, Fin 0)"
    by (simp add: entry_accepted_def f_ne_def)
  have few: "\<not> has_device t2 loc" if "length xs < 6"
  proof -
    from fit_device_few [OF xs that, of xy2uv fit_circle uv2xy do_plot nmaxplot ?pin i arr1] step
    have "arr2 = arr1" by simp
    with e1 e2 has zero show ?thesis by simp
  qed
  have static: "\<not> has_device t2 loc" if "loc mod 10 = 0" "f_lt (np_std (kept_x xs)) (Fin 1)"
  proof -
    from that(1) pin have "?pin ! i = 0" by simp
    from fit_device_static [OF step xs this that(2)] have "arr2 = arr1" .
    with e1 e2 has zero show ?thesis by simp
  qed
  have fiducial: "\<exists>xe ye. dict_get (acc_xexp a) loc = Some xe \<and> dict_get (acc_yexp a) loc = Some ye
             \<and> (has_device t2 loc
                  \<longleftrightarrow> entry_accepted (xe, ye, np_median (kept_x xs), np_median (kept_y xs ys)))
             \<and> (\<forall>row \<in> set t2.
                   out_LOCATION row = loc div 10 \<and> out_PINHOLE_ID row = loc mod 10 \<longrightarrow>
                   row = entry_row loc (xe, ye, np_median (kept_x xs), np_median (kept_y xs ys)))"
    if "loc mod 10 \<noteq> 0" "6 \<le> length xs"
  proof -
    from that pin have p: "?pin ! i \<noteq> 0" and n: "\<not> length xs < 6" by simp_all
    from fit_device_fiducial [OF step xs ys n p l1 i(1)] obtain xe ye where
      xe: "dict_get (acc_xexp a) loc = Some xe" and ye: "dict_get (acc_yexp a) loc = Some ye"
      and e: "device_entry arr2 i = (xe, ye, np_median (kept_x xs), np_median (kept_y xs ys))"
      by blast
    have "row = entry_row loc (xe, ye, np_median (kept_x xs), np_median (kept_y xs ys))"
      if "row \<in> set t2" "out_LOCATION row = loc div 10" "out_PINHOLE_ID row = loc mod 10" for row
      using circles_table_row [OF len d i(1), of row] that t2 i(2) e e2 by simp
    with xe ye has e e2 show ?thesis by auto
  qed
  show ?thesis
  proof (intro conjI impI)
    assume "length xs < 6"
    then show "\<not> has_device t2 loc" by (rule few)
  next
    assume "loc mod 10 = 0 \<and> f_lt (np_std (kept_x xs)) (Fin 1)"
    then show "\<not> has_device t2 loc" using static by simp
  next
    assume "loc mod 10 \<noteq> 0 \<and> 6 \<le> length xs"
    then show "\<exists>xe ye. dict_get (acc_xexp a) loc = Some xe \<and> dict_get (acc_yexp a) loc = Some ye
             \<and> (has_device t2 loc
                  \<longleftrightarrow> entry_accepted (xe, ye, np_median (kept_x xs), np_median (kept_y xs ys)))
             \<and> (\<forall>row \<in> set t2.
                   out_LOCATION row = loc div 10 \<and> out_PINHOLE_ID row = loc mod 10 \<longrightarrow>
                   row = entry_row loc (xe, ye, np_median (kept_x xs), np_median (kept_y xs ys)))"
      using fiducial by simp
  qed
qed

lemma example_accumulate: "accumulate True example_allspots empty_acc = Inr example_acc_all"
  by (simp add: example_allspots_def example_frame_def example_spot_def example_acc_all_def
        empty_acc_def accumulate_exposure_def init_device_def first_expected_def
        add_observation_def location_and_pinhole_def selection_matched_def bool_index_def
        np_where_def dict_get_def dict_set_def dict_keys_def Let_def)

lemma example_medians:
  "np_median [Fin 2, Fin 2, Fin 2] = Fin 2" "np_median [Fin 7, Fin 7, Fin 7] = Fin 7"
  "np_median [Fin 20, Fin 20, Fin 20, Fin 20, Fin 20, Fin 20] = Fin 20"
  "np_median [Fin 0, Fin 0, Fin 0, Fin 0, Fin 0, Fin 0] = Fin 0"
  "np_median [Fin 1, Fin 9] = Fin 5"
  "np_median [Fin 0, Fin 0, Fin 0, Fin 2, Fin 2, Fin 2] = Fin 1"
  "np_median [Fin 5, Fin 5, Fin 5, Fin 7, Fin 7, Fin 7] = Fin 6"
  by code_simp+

lemma example_kept:
  "kept_x [Fin 0, Fin 0, Fin 0, Fin 2, Fin 2, Fin 2] = [Fin 2, Fin 2, Fin 2]"
  "kept_y [Fin 0, Fin 0, Fin 0, Fin 2, Fin 2, Fin 2] [Fin 5, Fin 5, Fin 5, Fin 7, Fin 7, Fin 7]
     = [Fin 7, Fin 7, Fin 7]"
  "kept_x [Fin 10, Fin 10, Fin 10, Fin 10, Fin 10, Fin 10]
     = [Fin 10, Fin 10, Fin 10, Fin 10, Fin 10, Fin 10]"
  "kept_x [Fin 20, Fin 20, Fin 20, Fin 20, Fin 20, Fin 20]
     = [Fin 20, Fin 20, Fin 20, Fin 20, Fin 20, Fin 20]"
  "kept_y [Fin 20, Fin 20, Fin 20, Fin 20, Fin 20, Fin 20] [Fin 0, Fin 0, Fin 0, Fin 0, Fin 0, Fin 0]
     = [Fin 0, Fin 0, Fin 0, Fin 0, Fin 0, Fin 0]"
  by code_simp+

lemma example_std: "np_std [Fin 10, Fin 10, Fin 10, Fin 10, Fin 10, Fin 10] = Fin 0"
  by (simp add: np_std_def finite_values_def)

lemma example_fit_devices:
  "fit_devices no_xy2uv no_fit_circle no_uv2xy False 10 example_acc_all = Inr example_arrays"
  by (simp add: fit_devices_def example_acc_all_def fit_device_def store_device_def
        initial_arrays_def zeros_def example_medians example_kept example_std example_arrays_def
        np_where_def dict_get_def dict_keys_def f_ne_def Let_def)

lemma example_radial_offsets: "radial_offsets example_arrays = [Fin 1, Fin 0, Fin 9, Fin 0]"
  by (simp add: radial_offsets_def example_arrays_def f_sq_def)

lemma example_table:
  "circles_table example_acc_all example_arrays =
     [\<lparr>out_LOCATION = 1, out_PINHOLE_ID = 1, out_X_FP_METRO = Fin 3, out_Y_FP_METRO = Fin 7,
       out_X_FP = Fin 2, out_Y_FP = Fin 7\<rparr>]"
  unfolding circles_table_def Let_def example_radial_offsets
  by (simp add: accepted_devices_def np_where_def f_ne_def dict_keys_def example_acc_all_def
        example_arrays_def)

lemma example_median_offset: "median_offset_um (radial_offsets example_arrays) = Fin 5000"
  by (simp add: median_offset_um_def example_radial_offsets bool_index_def f_ne_def
        example_medians)

lemma example_measure_circles:
  "measure_circles no_xy2uv no_fit_circle no_uv2xy example_allspots False 10 =
     Inr ([\<lparr>out_LOCATION = 1, out_PINHOLE_ID = 1, out_X_FP_METRO = Fin 3, out_Y_FP_METRO = Fin 7,
            out_X_FP = Fin 2, out_Y_FP = Fin 7\<rparr>], Fin 5000)"
  by (simp add: measure_circles_def example_accumulate example_fit_devices example_table
        example_median_offset)

lemma example_measure_circles_rows:
  "measure_circles no_xy2uv no_fit_circle no_uv2xy example_allspots False 10
     = Inr (example_table_rows, Fin 5000)"
  by (simp add: example_measure_circles example_table_rows_def)

lemma example_lookups:
  "dict_get (acc_x example_acc_all) 11 = Some [Fin 0, Fin 0, Fin 0, Fin 2, Fin 2, Fin 2]"
  "dict_get (acc_y example_acc_all) 11 = Some [Fin 5, Fin 5, Fin 5, Fin 7, Fin 7, Fin 7]"
  "dict_get (acc_x example_acc_all) 20 = Some [Fin 10, Fin 10, Fin 10, Fin 10, Fin 10, Fin 10]"
  "dict_get (acc_y example_acc_all) 20 = Some [Fin 10, Fin 10, Fin 10, Fin 10, Fin 10, Fin 10]"
  "dict_get (acc_x example_acc_all) 31 = Some [Fin 30, Fin 30, Fin 30, Fin 30, Fin 30]"
  "dict_get (acc_y example_acc_all) 31 = Some [Fin 30, Fin 30, Fin 30, Fin 30, Fin 30]"
  "dict_get (acc_xexp example_acc_all) 11 = Some (Fin 3)"
  "dict_get (acc_yexp example_acc_all) 11 = Some (Fin 7)"
  by (simp_all add: example_acc_all_def dict_get_def)

lemma radial_offsets_eq:
  assumes "arrays_length arr n"
  shows "radial_offsets arr
     = map (\<lambda>i. offset_mm (xfp_metro arr ! i) (yfp_metro arr ! i)
                    (xfp_meas arr ! i) (yfp_meas arr ! i)) [0..<n]"
  using assms
  by (intro nth_equalityI) (simp_all add: length_radial_offsets radial_offsets_nth)

section \<open>The pointing solver: helper lemmas\<close>

lemma passes_completed_le: "passes_completed body ks s \<le> length ks"
  by (induction ks arbitrary: s) (auto split: sum.splits)

lemma passes_completed_all:
  "(\<exists>s'. for_each body ks s = Inr s') \<longleftrightarrow> passes_completed body ks s = length ks"
proof (induction ks arbitrary: s)
  case Nil
  then show ?case by simp
next
  case (Cons k ks)
  show ?case
  proof (cases "body k s")
    case (Inl e)
    then show ?thesis by simp
  next
    case (Inr s1)
    with Cons.IH [of s1] show ?thesis by simp
  qed
qed

lemma tune_pointing_unfold:
  "tune_pointing opt t =
     (case pointing_step opt t (lst_of t) 0 (first_pointing t) of
        Inl e \<Rightarrow> Inl e
      | Inr tel1 \<Rightarrow> pointing_step opt t (lst_of t) 1 tel1)"
proof -
  have "[0..<2] = [0, 1::nat]" by (simp add: upt_rec)
  then show ?thesis by (simp add: tune_pointing_def split: sum.splits)
qed

lemma linalg_inv_singular: "singular J \<Longrightarrow> linalg_inv J = Inl LinAlgError"
  by (auto simp: singular_def linalg_inv_def split: prod.splits float64.splits)

lemma pointing_step_singular:
  "singular (jacobian opt t lst tel) \<Longrightarrow> pointing_step opt t lst k tel = Inl LinAlgError"
  by (simp add: pointing_step_def linalg_inv_singular)

lemma linalg_inv_Inl: "linalg_inv J = Inl e \<longleftrightarrow> e = LinAlgError \<and> singular J"
  by (auto simp: singular_def linalg_inv_def Let_def split: prod.splits float64.splits)

lemma pointing_step_Inl:
  "pointing_step opt t lst k tel = Inl e
     \<longleftrightarrow> e = LinAlgError \<and> singular (jacobian opt t lst tel)"
proof (cases "linalg_inv (jacobian opt t lst tel)")
  case (Inl e')
  then show ?thesis
    using linalg_inv_Inl [of "jacobian opt t lst tel" e']
    by (auto simp: pointing_step_def)
next
  case (Inr Jinv)
  then show ?thesis
    using linalg_inv_Inl [of "jacobian opt t lst tel" LinAlgError]
    by (auto simp: pointing_step_def split: prod.splits)
qed

lemma measure_fieldrot_deg_Inl:
  "measure_fieldrot_deg h ha dec tel_ha tel_dec xfp_mm yfp_mm = Inl e \<Longrightarrow> e = ShapeError"
  by (simp add: measure_fieldrot_deg_def Let_def split: if_splits)

lemma fiberassign_radec2xy_Inl:
  "fiberassign_radec2xy opt ra dec t = Inl e
     \<Longrightarrow> tune_pointing opt t = Inl e \<or> e = ShapeError"
  by (auto simp: fiberassign_radec2xy_def Let_def
        split: sum.splits if_splits prod.splits dest: measure_fieldrot_deg_Inl)

lemma example_flat_jacobian:
  "jacobian example_flat_optics example_tile (lst_of example_tile) (first_pointing example_tile)
     = ((Fin 0, Fin 0), (Fin 0, Fin 0))"
  by (simp add: jacobian_def project_def example_flat_optics_def eps_def)

lemma example_stalling_first:
  "pointing_step example_stalling_optics example_tile (lst_of example_tile) 0
       (first_pointing example_tile) = Inr (Fin 1, Fin 0)"
  by (simp add: pointing_step_def jacobian_def project_def example_stalling_optics_def eps_def
        example_tile_def first_pointing_def linalg_inv_def mat_dot_def)

lemma example_stalling_jacobian:
  "jacobian example_stalling_optics example_tile (lst_of example_tile) (Fin 1, Fin 0)
     = ((Fin 0, Fin 0), (Fin 0, Fin 0))"
  by (simp add: jacobian_def project_def example_stalling_optics_def eps_def)

lemma example_linear_first:
  "pointing_step example_linear_optics example_tile (lst_of example_tile) k (Fin 0, Fin 0)
     = Inr (Fin 0, Fin 0)"
  by (simp add: pointing_step_def jacobian_def project_def example_linear_optics_def eps_def
        example_tile_def linalg_inv_def mat_dot_def)

lemma example_linear_tune: "tune_pointing example_linear_optics example_tile = Inr (Fin 0, Fin 0)"
proof -
  have "first_pointing example_tile = (Fin 0, Fin 0)"
    by (simp add: first_pointing_def example_tile_def)
  then show ?thesis by (simp add: tune_pointing_unfold example_linear_first)
qed

lemma example_linear_fiberassign:
  "fiberassign_radec2xy example_linear_optics [Fin 20] [Fin 0] example_tile
     = Inr ([Fin 20], [Fin 0])"
  unfolding fiberassign_radec2xy_def example_linear_tune
  by (simp add: project_def lst_of_def
        measure_fieldrot_deg_def fieldrot_ok_def bool_index_def rotation_estimate_def f_sq_def
        np_mean_def finite_values_def rad2deg_def example_linear_optics_def example_tile_def
        Let_def)

lemma zip4_columns:
  assumes "length dec = length ha" "length xfp = length ha" "length yfp = length ha"
  shows "ha = map fst (zip ha (zip dec (zip xfp yfp)))"
    and "dec = map (\<lambda>r. fst (snd r)) (zip ha (zip dec (zip xfp yfp)))"
    and "xfp = map (\<lambda>r. fst (snd (snd r))) (zip ha (zip dec (zip xfp yfp)))"
    and "yfp = map (\<lambda>r. snd (snd (snd r))) (zip ha (zip dec (zip xfp yfp)))"
proof -
  have l: "length ha = length dec" "length dec = length xfp" "length xfp = length yfp"
    using assms by simp_all
  have "ha = map fst (zip ha (zip dec (zip xfp yfp)))
      \<and> dec = map (\<lambda>r. fst (snd r)) (zip ha (zip dec (zip xfp yfp)))
      \<and> xfp = map (\<lambda>r. fst (snd (snd r))) (zip ha (zip dec (zip xfp yfp)))
      \<and> yfp = map (\<lambda>r. snd (snd (snd r))) (zip ha (zip dec (zip xfp yfp)))"
    using l by (induction ha dec xfp yfp rule: list_induct4) simp_all
  then show "ha = map fst (zip ha (zip dec (zip xfp yfp)))"
    and "dec = map (\<lambda>r. fst (snd r)) (zip ha (zip dec (zip xfp yfp)))"
    and "xfp = map (\<lambda>r. fst (snd (snd r))) (zip ha (zip dec (zip xfp yfp)))"
    and "yfp = map (\<lambda>r. snd (snd (snd r))) (zip ha (zip dec (zip xfp yfp)))"
    by simp_all
qed

lemma estimates_of_rows:
  "map rotation_estimate
     (zip (map f3 F) (zip (map f4 F)
        (zip (map fst (map (\<lambda>(h, d). hfn h d a b) (zip (map f1 F) (map f2 F))))
             (map snd (map (\<lambda>(h, d). hfn h d a b) (zip (map f1 F) (map f2 F)))))))
   = map (\<lambda>r. rotation_estimate (f3 r, f4 r, fst (hfn (f1 r) (f2 r) a b),
                                   snd (hfn (f1 r) (f2 r) a b))) F"
  by (induction F) simp_all

lemma measure_fieldrot_rows:
  assumes "length dec = length ha" "length xfp = length ha" "length yfp = length ha"
  shows "measure_fieldrot_deg h ha dec tel_ha tel_dec xfp yfp
      = Inr (rad2deg (np_mean (map (target_estimate h tel_ha tel_dec)
               (filter fieldrot_ok (zip ha (zip dec (zip xfp yfp)))))))"
proof -
  let ?rows = "zip ha (zip dec (zip xfp yfp))"
  let ?F = "filter fieldrot_ok ?rows"
  note c = zip4_columns [OF assms]
  have b: "bool_index ha (map fieldrot_ok ?rows) = map fst ?F"
    "bool_index dec (map fieldrot_ok ?rows) = map (\<lambda>r. fst (snd r)) ?F"
    "bool_index xfp (map fieldrot_ok ?rows) = map (\<lambda>r. fst (snd (snd r))) ?F"
    "bool_index yfp (map fieldrot_ok ?rows) = map (\<lambda>r. snd (snd (snd r))) ?F"
    using bool_index_map_map [of fst ?rows fieldrot_ok]
      bool_index_map_map [of "\<lambda>r. fst (snd r)" ?rows fieldrot_ok]
      bool_index_map_map [of "\<lambda>r. fst (snd (snd r))" ?rows fieldrot_ok]
      bool_index_map_map [of "\<lambda>r. snd (snd (snd r))" ?rows fieldrot_ok]
      c [symmetric]
    by simp_all
  have t: "(\<lambda>r. rotation_estimate (fst (snd (snd r)), snd (snd (snd r)),
                fst (h (fst r) (fst (snd r)) tel_ha tel_dec),
                snd (h (fst r) (fst (snd r)) tel_ha tel_dec)))
      = target_estimate h tel_ha tel_dec"
    by (rule ext) (simp add: target_estimate_def split: prod.splits)
  show ?thesis
    unfolding measure_fieldrot_deg_def Let_def b estimates_of_rows t
    using assms by simp
qed

lemma example_fieldrot:
  "measure_fieldrot_deg example_hadec2xy [Fin 0, Fin 1] [Fin 1, Fin 0] (Fin 0) (Fin 0)
     [Fin 20, Fin 0] [Fin 0, Fin 20] = Inr (Fin 0)"
  by (simp add: measure_fieldrot_deg_def fieldrot_ok_def bool_index_def example_hadec2xy_def
        rotation_estimate_def f_sq_def np_mean_def finite_values_def rad2deg_def Let_def)

section \<open>measure_spots: the distance gate\<close>

text \<open>
  Claim C1.  Let \<open>selection\<close> mark the detections whose \<open>LOCATION\<close> is -1 after the
  transform refit, and let the point matcher return \<open>indices\<close> and \<open>distances\<close> for them.
  The \<open>j\<close>-th selected detection, at row \<open>r\<close>, stays selected (its match is accepted)
  exactly if its distance is below 7 and its target index is at least 0.  If it is accepted,
  every expected-position and identity column the metrology has is copied to row \<open>r\<close> from
  the matched metrology row.  If it is not, no column of the table changes at row \<open>r\<close> (a
  column added by this pass holds its initial zero there), and \<open>LOCATION\<close> is still -1.
\<close>

theorem measure_spots_distance_gate:
  assumes wf: "wf_table spots"
    and loc: "cols spots ''LOCATION'' = Some loc"
    and xfp: "cols spots ''X_FP'' = Some xfp" and yfp: "cols spots ''Y_FP'' = Some yfp"
    and mx: "cols metro ''X_FP'' = Some mx" and my: "cols metro ''Y_FP'' = Some my"
    and sel: "selection = map (\<lambda>v. f_eq v (Fin (- 1))) loc"
    and m: "match_same_system (bool_index xfp selection) (bool_index yfp selection) mx my
              = (indices, distances)"
    and res: "match_unmatched_spots match_same_system metro spots = Inr spots'"
    and j: "j < length (np_where selection)"
    and r: "r = np_where selection ! j"
    and acc: "accepted = (f_lt (distances ! j) (Fin 7) \<and> 0 \<le> indices ! j)"
  shows "gate_selection selection (is_matched distances indices) ! r = accepted
     \<and> (accepted \<longrightarrow>
          (\<forall>k1 k2 mcol.
              ((k1, k2) \<in> set expected_columns \<or> k1 = k2 \<and> k1 \<in> set identity_columns)
              \<and> cols metro k1 = Some mcol
              \<longrightarrow> (\<exists>col'. cols spots' k2 = Some col' \<and> col' ! r = mcol ! nat (indices ! j))))
     \<and> (\<not> accepted \<longrightarrow>
          row_unchanged r spots spots'
          \<and> (\<exists>loc'. cols spots' ''LOCATION'' = Some loc' \<and> f_eq (loc' ! r) (Fin (- 1))))"
proof -
  let ?ii = "np_where selection"
  let ?matched = "is_matched distances indices"
  let ?sel' = "gate_selection selection ?matched"
  let ?idx' = "bool_index indices ?matched"
  let ?ps = "expected_columns
               @ map (\<lambda>k. (k, k)) (filter (\<lambda>k. k \<in> dom (cols metro)) identity_columns)"
  from res loc xfp yfp mx my sel m
  have len: "length indices = length ?ii" "length distances = length ?ii"
    by (auto simp: match_unmatched_spots_def Let_def split: if_splits)
  from res loc xfp yfp mx my sel m len
  have all: "copy_expected metro ?sel' ?idx' ?ps spots = Inr spots'"
    by (auto simp: match_unmatched_spots_def Let_def copy_expected_append
          copy_identity_as_expected split: sum.splits)
  have lm: "length ?matched = length ?ii"
    using len by (simp add: is_matched_def)
  have mj: "?matched ! j = accepted"
    using j len acc by (simp add: is_matched_def max_match_distance_def)
  have gate: "?sel' ! r = accepted"
    using gate_selection_selected [OF j lm] mj r by simp
  have w': "np_where ?sel' = bool_index ?ii ?matched"
    using lm by (rule np_where_gate_selection)
  from j r have "r \<in> set ?ii" by simp
  then have rlen: "r < length selection" and rsel: "selection ! r"
    by (simp_all add: set_np_where)
  from rlen sel loc wf have rrows: "r < nrows spots"
    by (auto simp: wf_table_def)
  have accepted_case:
    "\<exists>col'. cols spots' k2 = Some col' \<and> col' ! r = mcol ! nat (indices ! j)"
    if a: accepted and k: "(k1, k2) \<in> set ?ps" and mc: "cols metro k1 = Some mcol"
    for k1 k2 mcol
  proof -
    from a mj j lm have "j \<in> set (np_where ?matched)"
      by (simp add: set_np_where)
    then obtain j' where j': "j' < length (np_where ?matched)" "np_where ?matched ! j' = j"
      by (auto simp: in_set_conv_nth)
    have w'': "np_where ?sel' = map (\<lambda>i. ?ii ! i) (np_where ?matched)"
      using w' lm by (simp add: bool_index_conv_nth)
    have idx'': "?idx' = map (\<lambda>i. indices ! i) (np_where ?matched)"
      using lm len by (simp add: bool_index_conv_nth)
    have rj': "np_where ?sel' ! j' = r" using w'' j' r by simp
    have ij': "?idx' ! j' = indices ! j" using idx'' j' by simp
    have dist: "distinct (map snd ?ps)"
      by (auto simp: expected_columns_def identity_columns_def)
    from copy_expected_written [OF all dist k] mc obtain vals col where
      fi: "fancy_index mcol ?idx' = Inr vals"
      and lv: "length vals = length (np_where ?sel')"
      and lc: "length col = length ?sel'"
      and c': "cols spots' k2 = Some (index_assign col (np_where ?sel') vals)"
      by auto
    have jw: "j' < length (np_where ?sel')" using w'' j' by simp
    from a acc have nonneg: "0 \<le> indices ! j" by simp
    have "index_assign col (np_where ?sel') vals ! (np_where ?sel' ! j') = vals ! j'"
      using jw lv lc rlen rj' 
      by (intro index_assign_nth_written) (simp_all add: distinct_np_where length_gate_selection)
    moreover have "vals ! j' = mcol ! nat (?idx' ! j')"
      using fi idx'' j' nonneg ij' by (intro fancy_index_nth) simp_all
    ultimately show ?thesis using c' rj' ij' by simp
  qed
  have rejected_case: "row_unchanged r spots spots'
      \<and> (\<exists>loc'. cols spots' ''LOCATION'' = Some loc' \<and> f_eq (loc' ! r) (Fin (- 1)))"
    if na: "\<not> accepted"
  proof -
    from na gate have "r \<notin> set (np_where ?sel')" by (simp add: set_np_where)
    with all rrows have kept: "row_kept r spots spots'"
      by (intro row_kept_copy_expected)
    then have un: "row_unchanged r spots spots'" by (simp add: row_kept_def)
    from kept loc obtain loc' where l': "cols spots' ''LOCATION'' = Some loc'"
      by (auto simp: row_kept_def)
    with un loc have "loc' ! r = loc ! r" by (simp add: row_unchanged_def)
    moreover from rsel sel rlen have "f_eq (loc ! r) (Fin (- 1))" by simp
    ultimately show ?thesis using un l' by simp
  qed
  have "(k1, k2) \<in> set ?ps"
    if "(k1, k2) \<in> set expected_columns \<or> k1 = k2 \<and> k1 \<in> set identity_columns"
      and "cols metro k1 = Some mcol" for k1 k2 mcol
    using that by auto
  with gate accepted_case rejected_case show ?thesis by blast
qed

theorem measure_spots_distance_gate_witness:
  "\<exists>spots'. match_unmatched_spots example_matcher example_metro example_spots = Inr spots'
     \<and> gate_selection [True, False, True] (is_matched [Fin (1 / 2), Fin 20] [0, 1]) ! 0
     \<and> (\<exists>col'. cols spots' ''X_FP_EXP'' = Some col' \<and> col' ! 0 = Fin 1)
     \<and> (\<exists>col'. cols spots' ''LOCATION'' = Some col' \<and> col' ! 0 = Fin 1001)
     \<and> \<not> gate_selection [True, False, True] (is_matched [Fin (1 / 2), Fin 20] [0, 1]) ! 2
     \<and> row_unchanged 2 example_spots spots'
     \<and> (\<exists>loc'. cols spots' ''LOCATION'' = Some loc' \<and> f_eq (loc' ! 2) (Fin (- 1)))"
proof -
  obtain spots' where
    res: "match_unmatched_spots example_matcher example_metro example_spots = Inr spots'"
    using example_matched by simp
  let ?loc = "[Fin (- 1), Fin 2003, Fin (- 1)]"
  let ?sel = "[True, False, True]"
  have sel: "?sel = map (\<lambda>v. f_eq v (Fin (- 1))) ?loc" by simp
  have w: "np_where ?sel = [0, 2]" by (simp add: np_where_def)
  have m: "example_matcher (bool_index [Fin (3 / 2), Fin 20, Fin 30] ?sel)
             (bool_index [Fin 0, Fin 0, Fin 0] ?sel) [Fin 1, Fin 50] [Fin 0, Fin 0]
           = ([0, 1], [Fin (1 / 2), Fin 20])"
    by (simp add: example_matcher_def)
  have c: "cols example_spots ''LOCATION'' = Some ?loc"
      "cols example_spots ''X_FP'' = Some [Fin (3 / 2), Fin 20, Fin 30]"
      "cols example_spots ''Y_FP'' = Some [Fin 0, Fin 0, Fin 0]"
      "cols example_metro ''X_FP'' = Some [Fin 1, Fin 50]"
      "cols example_metro ''Y_FP'' = Some [Fin 0, Fin 0]"
      "cols example_metro ''LOCATION'' = Some [Fin 1001, Fin 1002]"
    by (simp_all add: example_spots_def example_metro_def)
  have a0: "gate_selection ?sel (is_matched [Fin (1 / 2), Fin 20] [0, 1]) ! 0 = True
     \<and> (True \<longrightarrow>
          (\<forall>k1 k2 mcol.
              ((k1, k2) \<in> set expected_columns \<or> k1 = k2 \<and> k1 \<in> set identity_columns)
              \<and> cols example_metro k1 = Some mcol
              \<longrightarrow> (\<exists>col'. cols spots' k2 = Some col' \<and> col' ! 0 = mcol ! nat ([0, 1] ! 0))))
     \<and> (\<not> True \<longrightarrow>
          row_unchanged 0 example_spots spots'
          \<and> (\<exists>loc'. cols spots' ''LOCATION'' = Some loc' \<and> f_eq (loc' ! 0) (Fin (- 1))))"
    by (rule measure_spots_distance_gate [OF example_spots_wf c(1) c(2) c(3) c(4) c(5) sel m res,
          of 0]) (simp_all add: w)
  have a2: "gate_selection ?sel (is_matched [Fin (1 / 2), Fin 20] [0, 1]) ! 2 = False
     \<and> (False \<longrightarrow>
          (\<forall>k1 k2 mcol.
              ((k1, k2) \<in> set expected_columns \<or> k1 = k2 \<and> k1 \<in> set identity_columns)
              \<and> cols example_metro k1 = Some mcol
              \<longrightarrow> (\<exists>col'. cols spots' k2 = Some col' \<and> col' ! 2 = mcol ! nat ([0, 1] ! 1))))
     \<and> (\<not> False \<longrightarrow>
          row_unchanged 2 example_spots spots'
          \<and> (\<exists>loc'. cols spots' ''LOCATION'' = Some loc' \<and> f_eq (loc' ! 2) (Fin (- 1))))"
    by (rule measure_spots_distance_gate [OF example_spots_wf c(1) c(2) c(3) c(4) c(5) sel m res,
          of 1]) (simp_all add: w)
  have copied: "\<exists>col'. cols spots' k2 = Some col' \<and> col' ! 0 = mcol ! 0"
    if "(k1, k2) \<in> set expected_columns \<or> k1 = k2 \<and> k1 \<in> set identity_columns"
      and "cols example_metro k1 = Some mcol" for k1 k2 mcol
    using a0 that by simp
  have x: "\<exists>col'. cols spots' ''X_FP_EXP'' = Some col' \<and> col' ! 0 = Fin 1"
    using copied [of "''X_FP''" "''X_FP_EXP''", OF _ c(4)] by (simp add: expected_columns_def)
  have l: "\<exists>col'. cols spots' ''LOCATION'' = Some col' \<and> col' ! 0 = Fin 1001"
    using copied [of "''LOCATION''" "''LOCATION''", OF _ c(6)] by (simp add: identity_columns_def)
  from a0 a2 x l res show ?thesis by simp
qed

section \<open>measure_spots: metrology positions are preferred\<close>

text \<open>
  Claim C5.  Let \<open>matched\<close> be the table after the expected positions have been copied
  from the matched metrology rows.  In the table \<open>measure_spots\<close> returns, \<open>X_FP_EXP\<close> of
  every detection is its \<open>X_FP_METRO\<close> where that is nonzero and the value of \<open>matched\<close>
  otherwise; independently, the same holds for \<open>Y_FP_EXP\<close> and \<open>Y_FP_METRO\<close>.
\<close>

theorem measure_spots_prefers_metrology:
  assumes wf: "wf_table spots"
    and res: "measure_spots match_same_system metro spots = Inr spots'"
    and i: "i < nrows spots"
  shows "\<exists>matched xm ym xe ye xe' ye'.
      match_unmatched_spots match_same_system metro spots = Inr matched
      \<and> cols matched ''X_FP_METRO'' = Some xm \<and> cols matched ''Y_FP_METRO'' = Some ym
      \<and> cols matched ''X_FP_EXP'' = Some xe \<and> cols matched ''Y_FP_EXP'' = Some ye
      \<and> cols spots' ''X_FP_EXP'' = Some xe' \<and> cols spots' ''Y_FP_EXP'' = Some ye'
      \<and> xe' ! i = (if f_ne (xm ! i) (Fin 0) then xm ! i else xe ! i)
      \<and> ye' ! i = (if f_ne (ym ! i) (Fin 0) then ym ! i else ye ! i)"
proof -
  from res obtain matched where
    m: "match_unmatched_spots match_same_system metro spots = Inr matched"
    and p: "prefer_metrology matched = Inr spots'"
    by (auto simp: measure_spots_def split: sum.splits)
  from p obtain sx where
    px: "prefer_metro ''X_FP_METRO'' ''X_FP_EXP'' matched = Inr sx"
    and py: "prefer_metro ''Y_FP_METRO'' ''Y_FP_EXP'' sx = Inr spots'"
    by (auto simp: prefer_metrology_def split: sum.splits)
  from wf_table_match_unmatched_spots [OF m wf]
  have wfm: "wf_table matched" and nm: "nrows matched = nrows spots" by simp_all
  from px obtain xm xe where x: "cols matched ''X_FP_METRO'' = Some xm"
    "cols matched ''X_FP_EXP'' = Some xe"
    by (rule prefer_metro_Inr)
  from py obtain ym ye where y: "cols sx ''Y_FP_METRO'' = Some ym" "cols sx ''Y_FP_EXP'' = Some ye"
    by (rule prefer_metro_Inr)
  have ym: "cols matched ''Y_FP_METRO'' = Some ym" and ye: "cols matched ''Y_FP_EXP'' = Some ye"
    using y prefer_metro_other [OF px] by simp_all
  from wfm x ye i nm have li: "i < length xe" "i < length ye"
    by (auto simp: wf_table_def)
  from prefer_metro_cell [OF px x li(1)] obtain xe' where
    xe': "cols sx ''X_FP_EXP'' = Some xe'"
      "xe' ! i = (if f_ne (xm ! i) (Fin 0) then xm ! i else xe ! i)"
    by auto
  from prefer_metro_cell [OF py y li(2)] obtain ye' where
    ye': "cols spots' ''Y_FP_EXP'' = Some ye'"
      "ye' ! i = (if f_ne (ym ! i) (Fin 0) then ym ! i else ye ! i)"
    by auto
  have "cols spots' ''X_FP_EXP'' = Some xe'"
    using xe'(1) prefer_metro_other [OF py] by simp
  with m x ym ye xe' ye' show ?thesis by auto
qed

theorem measure_spots_prefers_metrology_witness:
  "\<exists>spots' matched xm ym xe ye xe' ye'.
      measure_spots example_matcher example_metro example_spots = Inr spots'
      \<and> match_unmatched_spots example_matcher example_metro example_spots = Inr matched
      \<and> cols matched ''X_FP_METRO'' = Some xm \<and> cols matched ''Y_FP_METRO'' = Some ym
      \<and> cols matched ''X_FP_EXP'' = Some xe \<and> cols matched ''Y_FP_EXP'' = Some ye
      \<and> cols spots' ''X_FP_EXP'' = Some xe' \<and> cols spots' ''Y_FP_EXP'' = Some ye'
      \<and> xe' ! 1 = (if f_ne (xm ! 1) (Fin 0) then xm ! 1 else xe ! 1)
      \<and> ye' ! 1 = (if f_ne (ym ! 1) (Fin 0) then ym ! 1 else ye ! 1)
      \<and> xe' ! 1 = Fin (199 / 10) \<and> ye' ! 1 = Fin 0"
proof -
  have i: "1 < nrows example_spots" by (simp add: example_spots_def)
  from measure_spots_prefers_metrology [OF example_spots_wf example_measured i]
  obtain matched xm ym xe ye xe' ye' where
    m: "match_unmatched_spots example_matcher example_metro example_spots = Inr matched"
    and c: "cols matched ''X_FP_METRO'' = Some xm" "cols matched ''Y_FP_METRO'' = Some ym"
      "cols matched ''X_FP_EXP'' = Some xe" "cols matched ''Y_FP_EXP'' = Some ye"
    and c': "cols \<lparr>nrows = 3, cols =
     [''LOCATION'' \<mapsto> [Fin 1001, Fin 2003, Fin (- 1)],
      ''X_FP'' \<mapsto> [Fin (3 / 2), Fin 20, Fin 30], ''Y_FP'' \<mapsto> [Fin 0, Fin 0, Fin 0],
      ''X_FP_METRO'' \<mapsto> [Fin 0, Fin (199 / 10), Fin 0],
      ''Y_FP_METRO'' \<mapsto> [Fin 0, Fin 0, Fin 0],
      ''X_FP_EXP'' \<mapsto> [Fin 1, Fin (199 / 10), Fin 0],
      ''Y_FP_EXP'' \<mapsto> [Fin 0, Fin 0, Fin 0]]\<rparr> ''X_FP_EXP'' = Some xe'"
      "cols \<lparr>nrows = 3, cols =
     [''LOCATION'' \<mapsto> [Fin 1001, Fin 2003, Fin (- 1)],
      ''X_FP'' \<mapsto> [Fin (3 / 2), Fin 20, Fin 30], ''Y_FP'' \<mapsto> [Fin 0, Fin 0, Fin 0],
      ''X_FP_METRO'' \<mapsto> [Fin 0, Fin (199 / 10), Fin 0],
      ''Y_FP_METRO'' \<mapsto> [Fin 0, Fin 0, Fin 0],
      ''X_FP_EXP'' \<mapsto> [Fin 1, Fin (199 / 10), Fin 0],
      ''Y_FP_EXP'' \<mapsto> [Fin 0, Fin 0, Fin 0]]\<rparr> ''Y_FP_EXP'' = Some ye'"
    and v: "xe' ! 1 = (if f_ne (xm ! 1) (Fin 0) then xm ! 1 else xe ! 1)"
      "ye' ! 1 = (if f_ne (ym ! 1) (Fin 0) then ym ! 1 else ye ! 1)"
    by blast
  from c' have "xe' ! 1 = Fin (199 / 10)" "ye' ! 1 = Fin 0" by auto
  with m c c' v example_measured show ?thesis by auto
qed

section \<open>measure_circles: detections that share a key\<close>

text \<open>
  Claim C10.  One pass of the loop over the exposures, started in a state in which the
  dictionaries \<open>x\<close> and \<open>y\<close> have the same keys (at the first exposure: the empty
  dictionaries), returns normally.  If more than one detection of the exposure has the key
  \<open>loc\<close>, the observations accumulated for \<open>loc\<close> are what they were; after the first
  exposure all four entries of the device are what they were (in the first exposure the
  device gets its entries, with empty lists of observations).  If exactly one detection has
  the key and its \<open>LOCATION\<close> is positive, its position is appended: the device gains one
  observation.
\<close>

theorem accumulate_exposure_observations:
  assumes inv: "acc_inv a" and first: "first \<longrightarrow> a = empty_acc"
  shows "\<exists>a'. accumulate_exposure first t a = Inr a' \<and> acc_inv a'
     \<and> (1 < length (detections_of t loc) \<longrightarrow>
           observations_x a' loc = observations_x a loc
           \<and> observations_y a' loc = observations_y a loc
           \<and> (\<not> first \<longrightarrow> device_state a' loc = device_state a loc))
     \<and> (\<forall>s. detections_of t loc = [s] \<and> 0 < LOCATION s \<longrightarrow>
           observations_x a' loc = observations_x a loc @ [X_FP s]
           \<and> observations_y a' loc = observations_y a loc @ [Y_FP s])"
proof -
  let ?sel = "bool_index (location_and_pinhole t) (selection_matched t)"
  have "\<exists>a0. (if first then for_each (init_device t) ?sel a else Inr a) = Inr a0 \<and> acc_inv a0"
    using for_each_init_total [OF selected_keys_subset inv] inv by simp
  then obtain a0 where a0: "(if first then for_each (init_device t) ?sel a else Inr a) = Inr a0"
    and inv0: "acc_inv a0" by blast
  from for_each_add_total [OF selected_keys_subset inv0] obtain a' where
    a': "for_each (add_observation t) ?sel a0 = Inr a'" and inv': "acc_inv a'" by blast
  from a0 a' have res: "accumulate_exposure first t a = Inr a'"
    by (simp add: accumulate_exposure_def Let_def)
  have obs0: "observations_x a0 loc = observations_x a loc \<and> observations_y a0 loc = observations_y a loc"
  proof (cases first)
    case True
    with first have e: "observations_x a loc = [] \<and> observations_y a loc = []"
      by (simp add: empty_acc_def observations_x_def observations_y_def dict_get_def)
    from True a0 have "for_each (init_device t) ?sel a = Inr a0" by simp
    from for_each_init_empty [OF this e] e show ?thesis by simp
  next
    case False
    with a0 show ?thesis by simp
  qed
  have several: "observations_x a' loc = observations_x a loc
           \<and> observations_y a' loc = observations_y a loc
           \<and> (\<not> first \<longrightarrow> device_state a' loc = device_state a loc)"
    if "1 < length (detections_of t loc)"
  proof -
    from for_each_add_several [OF a' that] have st: "device_state a' loc = device_state a0 loc" .
    from observations_device_state [OF st] obs0
    have "observations_x a' loc = observations_x a loc \<and> observations_y a' loc = observations_y a loc"
      by simp
    moreover have "device_state a' loc = device_state a loc" if "\<not> first"
    proof -
      from that a0 have "a0 = a" by simp
      with st show ?thesis by simp
    qed
    ultimately show ?thesis by simp
  qed
  have single: "observations_x a' loc = observations_x a loc @ [X_FP s]
           \<and> observations_y a' loc = observations_y a loc @ [Y_FP s]"
    if "detections_of t loc = [s]" "0 < LOCATION s" for s
  proof -
    from that have "count_list ?sel loc = 1" by (simp add: count_selected_key)
    with for_each_add_single [OF a' that(1) inv0] obs0 show ?thesis by simp
  qed
  from res inv' several single show ?thesis by blast
qed

theorem accumulate_exposure_observations_witness:
  "(\<exists>a'. accumulate_exposure True example_exposure empty_acc = Inr a'
       \<and> observations_x a' 10 = [] \<and> observations_y a' 10 = []
       \<and> observations_x a' 20 = [Fin 5] \<and> observations_y a' 20 = [Fin 6])
   \<and> (\<exists>a'. accumulate_exposure False example_exposure example_acc = Inr a'
       \<and> device_state a' 10 = device_state example_acc 10
       \<and> observations_x a' 10 = [Fin 1]
       \<and> observations_x a' 20 = [Fin 5] \<and> observations_y a' 20 = [Fin 6])"
proof -
  let ?s = "\<lparr>LOCATION = 2, PINHOLE_ID = 0, X_FP = Fin 5, Y_FP = Fin 6,
              X_FP_EXP = Fin 5, Y_FP_EXP = Fin 6\<rparr>"
  have d10: "1 < length (detections_of example_exposure 10)"
    by (simp add: detections_of_def example_exposure_def)
  have d20: "detections_of example_exposure 20 = [?s]" "0 < LOCATION ?s"
    by (simp_all add: detections_of_def example_exposure_def)
  have n20: "\<not> 1 < length (detections_of example_exposure 20)"
    by (simp add: d20)
  have i0: "acc_inv empty_acc" by (simp add: acc_inv_def empty_acc_def dict_keys_def)
  have i1: "acc_inv example_acc" by (simp add: acc_inv_def example_acc_def dict_keys_def)
  have o0: "observations_x empty_acc 10 = []" "observations_y empty_acc 10 = []"
    "observations_x empty_acc 20 = []" "observations_y empty_acc 20 = []"
    by (simp_all add: observations_x_def observations_y_def empty_acc_def dict_get_def)
  have o1: "observations_x example_acc 10 = [Fin 1]"
    "observations_x example_acc 20 = []" "observations_y example_acc 20 = []"
    by (simp_all add: observations_x_def observations_y_def example_acc_def dict_get_def)
  from accumulate_exposure_observations [OF i0, of True example_exposure 10] obtain a' where
    a': "accumulate_exposure True example_exposure empty_acc = Inr a'"
    and x10: "observations_x a' 10 = []" "observations_y a' 10 = []"
    using d10 o0 by auto
  from accumulate_exposure_observations [OF i0, of True example_exposure 20] a'
  have x20: "observations_x a' 20 = [Fin 5]" "observations_y a' 20 = [Fin 6]"
    using d20 o0 by auto
  from accumulate_exposure_observations [OF i1, of False example_exposure 10] obtain b' where
    b': "accumulate_exposure False example_exposure example_acc = Inr b'"
    and y10: "device_state b' 10 = device_state example_acc 10" "observations_x b' 10 = [Fin 1]"
    using d10 o1 by auto
  from accumulate_exposure_observations [OF i1, of False example_exposure 20] b'
  have y20: "observations_x b' 20 = [Fin 5]" "observations_y b' 20 = [Fin 6]"
    using d20 o1 by auto
  from a' x10 x20 b' y10 y20 show ?thesis by blast
qed

section \<open>measure_circles: which devices are passed over\<close>

text \<open>
  Claim C2.  Let \<open>xs\<close> and \<open>ys\<close> be the observations accumulated for the device with
  the key \<open>loc\<close> (\<open>LOCATION*10+PINHOLE_ID\<close>).  If there are fewer than 6, the returned
  table has no row for the device.  If the device is a positioner centre (\<open>loc mod 10 =
  0\<close>) and the standard deviation of its \<open>x\<close> observations, those equal to zero
  dropped, is below 1, the table has no row for it.  If the pinhole is 1 and there are at
  least 6 observations, the standard deviation plays no part: the device is in the table
  exactly if its expected \<open>x\<close> is not zero and the medians of its observations lie less
  than 3 mm from the expected position.
\<close>

theorem measure_circles_skip_policies:
  assumes acc: "accumulate True allspots empty_acc = Inr a"
    and res: "measure_circles xy2uv fit_circle uv2xy allspots do_plot nmaxplot = Inr (t2, med)"
    and xs: "dict_get (acc_x a) loc = Some xs" and ys: "dict_get (acc_y a) loc = Some ys"
  shows "(length xs < 6 \<longrightarrow> \<not> has_device t2 loc)
     \<and> (loc mod 10 = 0 \<and> f_lt (np_std (kept_x xs)) (Fin 1) \<longrightarrow> \<not> has_device t2 loc)
     \<and> (loc mod 10 = 1 \<and> 6 \<le> length xs \<longrightarrow>
          (\<exists>xe ye. dict_get (acc_xexp a) loc = Some xe \<and> dict_get (acc_yexp a) loc = Some ye
             \<and> (has_device t2 loc
                  \<longleftrightarrow> f_ne xe (Fin 0)
                      \<and> f_lt (offset_mm xe ye (np_median (kept_x xs)) (np_median (kept_y xs ys)))
                           (Fin 3))))"
proof -
  note o = device_outcome [OF acc res xs ys]
  have "\<exists>xe ye. dict_get (acc_xexp a) loc = Some xe \<and> dict_get (acc_yexp a) loc = Some ye
             \<and> (has_device t2 loc
                  \<longleftrightarrow> f_ne xe (Fin 0)
                      \<and> f_lt (offset_mm xe ye (np_median (kept_x xs)) (np_median (kept_y xs ys)))
                           (Fin 3))"
    if "loc mod 10 = 1" "6 \<le> length xs"
  proof -
    from that have "loc mod 10 \<noteq> 0 \<and> 6 \<le> length xs" by simp
    with o obtain xe ye where "dict_get (acc_xexp a) loc = Some xe"
      "dict_get (acc_yexp a) loc = Some ye"
      "has_device t2 loc
         \<longleftrightarrow> entry_accepted (xe, ye, np_median (kept_x xs), np_median (kept_y xs ys))"
      by blast
    then show ?thesis by (auto simp: entry_accepted_def)
  qed
  note third = this
  from o have o1: "length xs < 6 \<longrightarrow> \<not> has_device t2 loc" by (rule conjunct1)
  from o have o2: "loc mod 10 = 0 \<and> f_lt (np_std (kept_x xs)) (Fin 1) \<longrightarrow> \<not> has_device t2 loc"
    by (rule conjunct2 [THEN conjunct1])
  show ?thesis
  proof (intro conjI)
    show "length xs < 6 \<longrightarrow> \<not> has_device t2 loc" by (rule o1)
    show "loc mod 10 = 0 \<and> f_lt (np_std (kept_x xs)) (Fin 1) \<longrightarrow> \<not> has_device t2 loc"
      by (rule o2)
    show "loc mod 10 = 1 \<and> 6 \<le> length xs \<longrightarrow>
          (\<exists>xe ye. dict_get (acc_xexp a) loc = Some xe \<and> dict_get (acc_yexp a) loc = Some ye
             \<and> (has_device t2 loc
                  \<longleftrightarrow> f_ne xe (Fin 0)
                      \<and> f_lt (offset_mm xe ye (np_median (kept_x xs)) (np_median (kept_y xs ys)))
                           (Fin 3)))"
      using third by simp
  qed
qed

theorem measure_circles_skip_policies_witness:
  "measure_circles no_xy2uv no_fit_circle no_uv2xy example_allspots False 10
     = Inr (example_table_rows, Fin 5000)
   \<and> \<not> has_device example_table_rows 31
   \<and> f_lt (np_std (kept_x [Fin 10, Fin 10, Fin 10, Fin 10, Fin 10, Fin 10])) (Fin 1)
   \<and> \<not> has_device example_table_rows 20
   \<and> f_lt (np_std (kept_x [Fin 0, Fin 0, Fin 0, Fin 2, Fin 2, Fin 2])) (Fin 1)
   \<and> has_device example_table_rows 11"
proof -
  note t = measure_circles_skip_policies [OF example_accumulate example_measure_circles_rows]
  have s20: "f_lt (np_std (kept_x [Fin 10, Fin 10, Fin 10, Fin 10, Fin 10, Fin 10])) (Fin 1)"
    by (simp add: example_kept example_std)
  have s11: "f_lt (np_std (kept_x [Fin 0, Fin 0, Fin 0, Fin 2, Fin 2, Fin 2])) (Fin 1)"
    by (simp add: example_kept np_std_def finite_values_def)
  from t [OF example_lookups(5) example_lookups(6)]
  have "\<not> has_device example_table_rows 31" by simp
  moreover from t [OF example_lookups(3) example_lookups(4)] s20
  have "\<not> has_device example_table_rows 20" by simp
  moreover from t [OF example_lookups(1) example_lookups(2)]
  have "has_device example_table_rows 11"
    by (simp add: example_lookups example_kept example_medians offset_mm_def f_sq_def f_ne_def)
  ultimately show ?thesis using s20 s11 example_measure_circles_rows by simp
qed

section \<open>measure_circles: the position of a fiducial pinhole\<close>

text \<open>
  Claim C9, as amended.  For a device with a pinhole number of at least 1 and at least 6
  accumulated observations, whatever the warp and the circle fit would do: the table has a
  row for the device exactly if its expected \<open>x\<close> is not zero and the offset of the
  measured position is below 3 mm, and the measured position of that row is the
  coordinate-wise median of the observations whose \<open>x\<close> is not zero (an observation
  with \<open>x = 0\<close> is dropped first, with its \<open>y\<close>).
\<close>

theorem measure_circles_fiducial_position:
  assumes acc: "accumulate True allspots empty_acc = Inr a"
    and res: "measure_circles xy2uv fit_circle uv2xy allspots do_plot nmaxplot = Inr (t2, med)"
    and xs: "dict_get (acc_x a) loc = Some xs" and ys: "dict_get (acc_y a) loc = Some ys"
    and n: "6 \<le> length xs" and pinhole: "1 \<le> loc mod 10"
  shows "\<exists>xe ye. dict_get (acc_xexp a) loc = Some xe \<and> dict_get (acc_yexp a) loc = Some ye
     \<and> (has_device t2 loc
          \<longleftrightarrow> f_ne xe (Fin 0)
              \<and> f_lt (offset_mm xe ye (np_median (kept_x xs)) (np_median (kept_y xs ys))) (Fin 3))
     \<and> (\<forall>row \<in> set t2.
           out_LOCATION row = loc div 10 \<and> out_PINHOLE_ID row = loc mod 10 \<longrightarrow>
           out_X_FP row = np_median (kept_x xs) \<and> out_Y_FP row = np_median (kept_y xs ys)
           \<and> out_X_FP_METRO row = xe \<and> out_Y_FP_METRO row = ye)"
proof -
  from pinhole n have "loc mod 10 \<noteq> 0 \<and> 6 \<le> length xs" by simp
  with device_outcome [OF acc res xs ys] obtain xe ye where
    e: "dict_get (acc_xexp a) loc = Some xe" "dict_get (acc_yexp a) loc = Some ye"
    and h: "has_device t2 loc
         \<longleftrightarrow> entry_accepted (xe, ye, np_median (kept_x xs), np_median (kept_y xs ys))"
    and r: "\<forall>row \<in> set t2.
           out_LOCATION row = loc div 10 \<and> out_PINHOLE_ID row = loc mod 10 \<longrightarrow>
           row = entry_row loc (xe, ye, np_median (kept_x xs), np_median (kept_y xs ys))"
    by blast
  have "out_X_FP row = np_median (kept_x xs) \<and> out_Y_FP row = np_median (kept_y xs ys)
           \<and> out_X_FP_METRO row = xe \<and> out_Y_FP_METRO row = ye"
    if "row \<in> set t2" "out_LOCATION row = loc div 10" "out_PINHOLE_ID row = loc mod 10" for row
  proof -
    from r that have "row = entry_row loc (xe, ye, np_median (kept_x xs), np_median (kept_y xs ys))"
      by blast
    then show ?thesis by (simp add: entry_row_def)
  qed
  with e h show ?thesis by (auto simp: entry_accepted_def)
qed

theorem measure_circles_fiducial_position_witness:
  "measure_circles no_xy2uv no_fit_circle no_uv2xy example_allspots False 10
     = Inr (example_table_rows, Fin 5000)
   \<and> has_device example_table_rows 11
   \<and> list_all (\<lambda>row. out_X_FP row = Fin 2 \<and> out_Y_FP row = Fin 7
                  \<and> out_X_FP_METRO row = Fin 3 \<and> out_Y_FP_METRO row = Fin 7) example_table_rows"
proof -
  have n: "6 \<le> length [Fin 0, Fin 0, Fin 0, Fin 2, Fin 2, Fin (2::real)]" by simp
  have p: "1 \<le> (11::int) mod 10" by simp
  from measure_circles_fiducial_position [OF example_accumulate example_measure_circles_rows
      example_lookups(1) example_lookups(2) n p]
  have h: "has_device example_table_rows 11"
    and r: "\<forall>row \<in> set example_table_rows.
           out_LOCATION row = 11 div 10 \<and> out_PINHOLE_ID row = 11 mod 10 \<longrightarrow>
           out_X_FP row = Fin 2 \<and> out_Y_FP row = Fin 7
           \<and> out_X_FP_METRO row = Fin 3 \<and> out_Y_FP_METRO row = Fin 7"
    by (simp_all add: example_lookups example_kept example_medians offset_mm_def f_sq_def f_ne_def)
  from r have "list_all (\<lambda>row. out_X_FP row = Fin 2 \<and> out_Y_FP row = Fin 7
                  \<and> out_X_FP_METRO row = Fin 3 \<and> out_Y_FP_METRO row = Fin 7) example_table_rows"
    by (simp add: example_table_rows_def)
  with h example_measure_circles_rows show ?thesis by simp
qed

text \<open>
  The claim as stated, that the measured position is the median of all accumulated
  observations, fails for the pinhole with key 11 of the example: its accumulated
  observations have the medians 1 and 6, the table reports 2 and 7.
\<close>

theorem measure_circles_median_of_all_observations_counterexample:
  "accumulate True example_allspots empty_acc = Inr example_acc_all
   \<and> dict_get (acc_x example_acc_all) 11 = Some [Fin 0, Fin 0, Fin 0, Fin 2, Fin 2, Fin 2]
   \<and> dict_get (acc_y example_acc_all) 11 = Some [Fin 5, Fin 5, Fin 5, Fin 7, Fin 7, Fin 7]
   \<and> measure_circles no_xy2uv no_fit_circle no_uv2xy example_allspots False 10
       = Inr ([\<lparr>out_LOCATION = 1, out_PINHOLE_ID = 1, out_X_FP_METRO = Fin 3,
               out_Y_FP_METRO = Fin 7, out_X_FP = Fin 2, out_Y_FP = Fin 7\<rparr>], Fin 5000)
   \<and> np_median [Fin 0, Fin 0, Fin 0, Fin 2, Fin 2, Fin 2] = Fin 1
   \<and> np_median [Fin 5, Fin 5, Fin 5, Fin 7, Fin 7, Fin 7] = Fin 6"
  by (simp add: example_accumulate example_lookups example_measure_circles example_medians)

section \<open>measure_circles: the cut at 3 mm\<close>

text \<open>
  Claim C6.  Once the accumulation and the loop over the devices have returned,
  \<open>measure_circles\<close> returns a table and raises nothing.  In every row of the table the
  offset between the measured and the expected position is below 3 mm, and a device whose
  offset exceeds 3 mm has no row.
\<close>

theorem measure_circles_offset_cut:
  assumes acc: "accumulate True allspots empty_acc = Inr a"
    and fit: "fit_devices xy2uv fit_circle uv2xy do_plot nmaxplot a = Inr arr"
  shows "\<exists>t2 med. measure_circles xy2uv fit_circle uv2xy allspots do_plot nmaxplot = Inr (t2, med)
     \<and> (\<forall>row \<in> set t2.
           f_lt (offset_mm (out_X_FP_METRO row) (out_Y_FP_METRO row) (out_X_FP row) (out_Y_FP row))
             (Fin 3))
     \<and> (\<forall>i < length (dict_keys (acc_x a)).
           f_lt (Fin 3) (offset_mm (xfp_metro arr ! i) (yfp_metro arr ! i)
                           (xfp_meas arr ! i) (yfp_meas arr ! i))
           \<longrightarrow> \<not> has_device t2 (dict_keys (acc_x a) ! i))"
proof -
  let ?keys = "dict_keys (acc_x a)"
  let ?t2 = "circles_table a arr"
  have res: "measure_circles xy2uv fit_circle uv2xy allspots do_plot nmaxplot
      = Inr (?t2, median_offset_um (radial_offsets arr))"
    using acc fit by (simp add: measure_circles_def)
  have len: "arrays_length arr (length ?keys)" using fit by (rule fit_devices_length)
  have d: "distinct ?keys" using acc by (rule accumulate_distinct)
  have rows: "f_lt (offset_mm (out_X_FP_METRO row) (out_Y_FP_METRO row) (out_X_FP row) (out_Y_FP row))
             (Fin 3)" if "row \<in> set ?t2" for row
  proof -
    from that obtain i where "entry_accepted (device_entry arr i)"
      "row = entry_row (?keys ! i) (device_entry arr i)"
      by (auto simp: circles_table_eq [OF len])
    then show ?thesis
      by (simp add: entry_accepted_def entry_row_def device_entry_def)
  qed
  have cut: "\<not> has_device ?t2 (?keys ! i)"
    if i: "i < length ?keys"
      and far: "f_lt (Fin 3) (offset_mm (xfp_metro arr ! i) (yfp_metro arr ! i)
                           (xfp_meas arr ! i) (yfp_meas arr ! i))" for i
  proof -
    have "\<not> f_lt d (Fin 3)" if "f_lt (Fin 3) d" for d
      using that by (cases d) simp_all
    with far have "\<not> entry_accepted (device_entry arr i)"
      by (simp add: entry_accepted_def device_entry_def)
    then show ?thesis using has_device_iff [OF len d i] by simp
  qed
  from res rows cut show ?thesis by blast
qed

theorem measure_circles_offset_cut_witness:
  "measure_circles no_xy2uv no_fit_circle no_uv2xy example_allspots False 10
     = Inr (example_table_rows, Fin 5000)
   \<and> list_all (\<lambda>row. f_lt (offset_mm (out_X_FP_METRO row) (out_Y_FP_METRO row)
                              (out_X_FP row) (out_Y_FP row)) (Fin 3)) example_table_rows
   \<and> f_lt (Fin 3) (offset_mm (Fin 11) (Fin 0) (Fin 20) (Fin 0))
   \<and> \<not> has_device example_table_rows 41"
proof -
  from measure_circles_offset_cut [OF example_accumulate example_fit_devices]
  have rows: "\<forall>row \<in> set example_table_rows.
           f_lt (offset_mm (out_X_FP_METRO row) (out_Y_FP_METRO row) (out_X_FP row) (out_Y_FP row))
             (Fin 3)"
    and cut: "\<forall>i < length (dict_keys (acc_x example_acc_all)).
           f_lt (Fin 3) (offset_mm (xfp_metro example_arrays ! i) (yfp_metro example_arrays ! i)
                           (xfp_meas example_arrays ! i) (yfp_meas example_arrays ! i))
           \<longrightarrow> \<not> has_device example_table_rows (dict_keys (acc_x example_acc_all) ! i)"
    by (simp_all add: example_measure_circles_rows)
  have far: "f_lt (Fin 3) (offset_mm (Fin 11) (Fin 0) (Fin 20) (Fin 0))"
    by (simp add: offset_mm_def f_sq_def)
  have k: "(2::nat) < length (dict_keys (acc_x example_acc_all))"
    "dict_keys (acc_x example_acc_all) ! 2 = 41"
    "xfp_metro example_arrays ! 2 = Fin 11" "yfp_metro example_arrays ! 2 = Fin 0"
    "xfp_meas example_arrays ! 2 = Fin 20" "yfp_meas example_arrays ! 2 = Fin 0"
    by (simp_all add: example_acc_all_def dict_keys_def example_arrays_def)
  from cut k far have "\<not> has_device example_table_rows 41" by force
  moreover from rows have "list_all (\<lambda>row. f_lt (offset_mm (out_X_FP_METRO row) (out_Y_FP_METRO row)
                              (out_X_FP row) (out_Y_FP row)) (Fin 3)) example_table_rows"
    by (simp add: list_all_iff)
  ultimately show ?thesis using far example_measure_circles_rows by simp
qed

section \<open>measure_circles: the median offset that is printed\<close>

text \<open>
  Claim C7, as amended.  \<open>measure_circles\<close> reports one number: 1000 times the median of
  the radial offsets, in mm, of all devices of the dictionary whose offset is not zero.
  These are the devices the loop stored a position for, those the cut at 3 mm then removes
  from the table included.  The table is determined by the accumulated observations and
  the stored positions alone.
\<close>

theorem measure_circles_median_diagnostic:
  assumes res: "measure_circles xy2uv fit_circle uv2xy allspots do_plot nmaxplot = Inr (t2, med)"
  shows "\<exists>a arr. accumulate True allspots empty_acc = Inr a
     \<and> fit_devices xy2uv fit_circle uv2xy do_plot nmaxplot a = Inr arr
     \<and> med = f_mul (np_median (filter (\<lambda>d. f_ne d (Fin 0))
                 (map (\<lambda>i. offset_mm (xfp_metro arr ! i) (yfp_metro arr ! i)
                                (xfp_meas arr ! i) (yfp_meas arr ! i))
                    [0..<length (dict_keys (acc_x a))]))) (Fin 1000)
     \<and> t2 = circles_table a arr"
proof -
  from res obtain a where acc: "accumulate True allspots empty_acc = Inr a"
    by (auto simp: measure_circles_def split: sum.splits)
  from res acc obtain arr where fit: "fit_devices xy2uv fit_circle uv2xy do_plot nmaxplot a = Inr arr"
    and t2: "t2 = circles_table a arr" and med: "med = median_offset_um (radial_offsets arr)"
    by (rule measure_circles_Inr)
  have len: "arrays_length arr (length (dict_keys (acc_x a)))" using fit by (rule fit_devices_length)
  have "med = f_mul (np_median (filter (\<lambda>d. f_ne d (Fin 0))
                 (map (\<lambda>i. offset_mm (xfp_metro arr ! i) (yfp_metro arr ! i)
                                (xfp_meas arr ! i) (yfp_meas arr ! i))
                    [0..<length (dict_keys (acc_x a))]))) (Fin 1000)"
    unfolding med median_offset_um_def bool_index_map_filter radial_offsets_eq [OF len] ..
  with acc fit t2 show ?thesis by blast
qed

theorem measure_circles_median_diagnostic_witness:
  "measure_circles no_xy2uv no_fit_circle no_uv2xy example_allspots False 10
     = Inr (example_table_rows, Fin 5000)
   \<and> accumulate True example_allspots empty_acc = Inr example_acc_all
   \<and> fit_devices no_xy2uv no_fit_circle no_uv2xy False 10 example_acc_all = Inr example_arrays
   \<and> Fin 5000 = f_mul (np_median (filter (\<lambda>d. f_ne d (Fin 0))
                 (map (\<lambda>i. offset_mm (xfp_metro example_arrays ! i) (yfp_metro example_arrays ! i)
                                (xfp_meas example_arrays ! i) (yfp_meas example_arrays ! i))
                    [0..<length (dict_keys (acc_x example_acc_all))]))) (Fin 1000)
   \<and> example_table_rows = circles_table example_acc_all example_arrays"
  using measure_circles_median_diagnostic [OF example_measure_circles_rows]
  by (simp add: example_accumulate example_fit_devices example_measure_circles_rows)

text \<open>
  The claim as stated, that the median is taken over the devices that are not excluded,
  fails on the example: the table has one device, whose offset is 1 mm, and the number
  reported is 5000, the median of 1 mm and of the 9 mm of the device that the cut removes.
\<close>

theorem measure_circles_median_over_table_counterexample:
  "measure_circles no_xy2uv no_fit_circle no_uv2xy example_allspots False 10
     = Inr ([\<lparr>out_LOCATION = 1, out_PINHOLE_ID = 1, out_X_FP_METRO = Fin 3,
             out_Y_FP_METRO = Fin 7, out_X_FP = Fin 2, out_Y_FP = Fin 7\<rparr>], Fin 5000)
   \<and> median_offset_over_table_um
        [\<lparr>out_LOCATION = 1, out_PINHOLE_ID = 1, out_X_FP_METRO = Fin 3,
          out_Y_FP_METRO = Fin 7, out_X_FP = Fin 2, out_Y_FP = Fin 7\<rparr>] = Fin 1000"
proof -
  have "np_median [Fin 1] = Fin 1" by code_simp
  then show ?thesis
    by (simp add: example_measure_circles median_offset_over_table_um_def offset_mm_def f_sq_def)
qed

section \<open>fiberassign_radec2xy: a singular Jacobian\<close>

text \<open>
  Claim C8.  If the Jacobian built in a pass of the pointing loop of \<open>fiberassign_radec2xy\<close> is
  singular, \<open>np.linalg.inv\<close> raises \<open>LinAlgError\<close>; nothing in the function catches it, so the
  call ends with that error and returns no coordinates.  This holds for the Jacobian of the
  first pass, built at the tile centre, and for the Jacobian of the second pass, built at the
  pointing that the first pass returned.  Every error of the pointing loop is the result of
  the call, and the call ends with \<open>LinAlgError\<close> in these two cases only.
\<close>

theorem fiberassign_singular_jacobian:
  "(singular (jacobian opt t (lst_of t) (first_pointing t))
      \<longrightarrow> fiberassign_radec2xy opt ra dec t = Inl LinAlgError)
   \<and> (\<forall>tel1. pointing_step opt t (lst_of t) 0 (first_pointing t) = Inr tel1
              \<and> singular (jacobian opt t (lst_of t) tel1)
      \<longrightarrow> fiberassign_radec2xy opt ra dec t = Inl LinAlgError)
   \<and> (\<forall>e. tune_pointing opt t = Inl e \<longrightarrow> fiberassign_radec2xy opt ra dec t = Inl e)
   \<and> (fiberassign_radec2xy opt ra dec t = Inl LinAlgError
        \<longleftrightarrow> singular (jacobian opt t (lst_of t) (first_pointing t))
            \<or> (\<exists>tel1. pointing_step opt t (lst_of t) 0 (first_pointing t) = Inr tel1
                  \<and> singular (jacobian opt t (lst_of t) tel1)))"
proof -
  let ?F = "fiberassign_radec2xy opt ra dec t"
  let ?s0 = "pointing_step opt t (lst_of t) 0 (first_pointing t)"
  have first: "?F = Inl LinAlgError" if "singular (jacobian opt t (lst_of t) (first_pointing t))"
    using that
    by (simp add: fiberassign_radec2xy_def tune_pointing_unfold pointing_step_singular)
  have second: "?F = Inl LinAlgError"
    if "?s0 = Inr tel1" "singular (jacobian opt t (lst_of t) tel1)" for tel1
    using that
    by (simp add: fiberassign_radec2xy_def tune_pointing_unfold pointing_step_singular)
  have passed: "?F = Inl e" if "tune_pointing opt t = Inl e" for e
    using that by (simp add: fiberassign_radec2xy_def)
  have only: "singular (jacobian opt t (lst_of t) (first_pointing t))
            \<or> (\<exists>tel1. ?s0 = Inr tel1 \<and> singular (jacobian opt t (lst_of t) tel1))"
    if "?F = Inl LinAlgError"
  proof -
    from fiberassign_radec2xy_Inl [OF that]
    have tp: "tune_pointing opt t = Inl LinAlgError" by simp
    show ?thesis
    proof (cases ?s0)
      case (Inl e)
      then show ?thesis by (simp add: pointing_step_Inl)
    next
      case (Inr tel1)
      with tp have "pointing_step opt t (lst_of t) 1 tel1 = Inl LinAlgError"
        by (simp add: tune_pointing_unfold)
      then have "singular (jacobian opt t (lst_of t) tel1)"
        by (simp add: pointing_step_Inl)
      with Inr show ?thesis by simp
    qed
  qed
  from first second passed only show ?thesis by blast
qed

text \<open>
  The flat projection is singular in the first pass, the stalling projection in the second.
\<close>

theorem fiberassign_singular_jacobian_witness:
  "singular (jacobian example_flat_optics example_tile (lst_of example_tile)
       (first_pointing example_tile))
   \<and> fiberassign_radec2xy example_flat_optics [Fin 1] [Fin 2] example_tile = Inl LinAlgError
   \<and> pointing_step example_stalling_optics example_tile (lst_of example_tile) 0
       (first_pointing example_tile) = Inr (Fin 1, Fin 0)
   \<and> singular (jacobian example_stalling_optics example_tile (lst_of example_tile) (Fin 1, Fin 0))
   \<and> fiberassign_radec2xy example_stalling_optics [Fin 1] [Fin 2] example_tile = Inl LinAlgError"
proof -
  have s1: "singular (jacobian example_flat_optics example_tile (lst_of example_tile)
       (first_pointing example_tile))"
    by (simp add: example_flat_jacobian singular_def)
  have s2: "singular (jacobian example_stalling_optics example_tile (lst_of example_tile)
       (Fin 1, Fin 0))"
    by (simp add: example_stalling_jacobian singular_def)
  from fiberassign_singular_jacobian [of example_flat_optics example_tile "[Fin 1]" "[Fin 2]"] s1
  have "fiberassign_radec2xy example_flat_optics [Fin 1] [Fin 2] example_tile = Inl LinAlgError"
    by simp
  moreover
  from fiberassign_singular_jacobian [of example_stalling_optics example_tile "[Fin 1]" "[Fin 2]"]
    s2 example_stalling_first
  have "fiberassign_radec2xy example_stalling_optics [Fin 1] [Fin 2] example_tile
      = Inl LinAlgError"
    by simp
  ultimately show ?thesis using s1 s2 example_stalling_first by simp
qed

section \<open>fiberassign_radec2xy: the number of pointing corrections\<close>

text \<open>
  Claim C4, as amended.  The pointing loop of \<open>fiberassign_radec2xy\<close> runs over \<open>range(2)\<close>: it
  completes at most two passes on every input, the second pass follows the first whatever the
  residual offset is, and the loop always ends.  It completes exactly two passes if and only if
  the linear solve succeeds in both, which is the case whenever the function returns
  coordinates.  A completed pass adds to the pointing the product of the inverse Jacobian and
  the projection of the tile centre.
\<close>

theorem fiberassign_two_iterations:
  "passes_completed (pointing_step opt t (lst_of t)) [0..<2] (first_pointing t) \<le> 2
   \<and> tune_pointing opt t =
       (case pointing_step opt t (lst_of t) 0 (first_pointing t) of
          Inl e \<Rightarrow> Inl e
        | Inr tel1 \<Rightarrow> pointing_step opt t (lst_of t) 1 tel1)
   \<and> ((\<exists>tel. tune_pointing opt t = Inr tel)
        \<longleftrightarrow> passes_completed (pointing_step opt t (lst_of t)) [0..<2] (first_pointing t) = 2)
   \<and> (\<forall>r. fiberassign_radec2xy opt ra dec t = Inr r
        \<longrightarrow> passes_completed (pointing_step opt t (lst_of t)) [0..<2] (first_pointing t) = 2)
   \<and> (\<forall>k tel tel'. pointing_step opt t (lst_of t) k tel = Inr tel'
        \<longrightarrow> (\<exists>Jinv. linalg_inv (jacobian opt t (lst_of t) tel) = Inr Jinv
              \<and> tel' = (f_add (fst tel)
                          (fst (mat_dot Jinv (project opt t (lst_of t) tel (tile_ra t) (tile_dec t)))),
                        f_add (snd tel)
                          (snd (mat_dot Jinv (project opt t (lst_of t) tel (tile_ra t) (tile_dec t)))))))"
proof -
  let ?step = "pointing_step opt t (lst_of t)"
  let ?n = "passes_completed ?step [0..<2] (first_pointing t)"
  have le: "?n \<le> 2" using passes_completed_le [of ?step "[0..<2]" "first_pointing t"] by simp
  have all: "(\<exists>tel. tune_pointing opt t = Inr tel) \<longleftrightarrow> ?n = 2"
    using passes_completed_all [of ?step "[0..<2]" "first_pointing t"]
    by (simp add: tune_pointing_def)
  have ret: "?n = 2" if "fiberassign_radec2xy opt ra dec t = Inr r" for r
  proof -
    from that have "\<exists>tel. tune_pointing opt t = Inr tel"
      by (cases "tune_pointing opt t") (simp_all add: fiberassign_radec2xy_def)
    with all show ?thesis by simp
  qed
  have step: "\<exists>Jinv. linalg_inv (jacobian opt t (lst_of t) tel) = Inr Jinv
              \<and> tel' = (f_add (fst tel)
                          (fst (mat_dot Jinv (project opt t (lst_of t) tel (tile_ra t) (tile_dec t)))),
                        f_add (snd tel)
                          (snd (mat_dot Jinv (project opt t (lst_of t) tel (tile_ra t) (tile_dec t)))))"
    if "?step k tel = Inr tel'" for k tel tel'
    using that by (auto simp: pointing_step_def split: sum.splits prod.splits)
  from le all ret step tune_pointing_unfold [of opt t] show ?thesis by blast
qed

text \<open>With the linear projection both passes are completed and the function returns.\<close>

theorem fiberassign_two_iterations_witness:
  "tune_pointing example_linear_optics example_tile = Inr (Fin 0, Fin 0)
   \<and> fiberassign_radec2xy example_linear_optics [Fin 20] [Fin 0] example_tile
       = Inr ([Fin 20], [Fin 0])
   \<and> passes_completed (pointing_step example_linear_optics example_tile (lst_of example_tile))
       [0..<2] (first_pointing example_tile) = 2"
  using fiberassign_two_iterations [of example_linear_optics example_tile "[Fin 20]" "[Fin 0]"]
    example_linear_tune example_linear_fiberassign
  by simp

text \<open>
  With the flat projection the solve of the first pass raises: no pass is completed, so the
  function does not perform two corrections on this input.
\<close>

theorem fiberassign_two_iterations_counterexample:
  "passes_completed (pointing_step example_flat_optics example_tile (lst_of example_tile))
       [0..<2] (first_pointing example_tile) = 0
   \<and> fiberassign_radec2xy example_flat_optics [Fin 1] [Fin 2] example_tile = Inl LinAlgError"
proof -
  have "singular (jacobian example_flat_optics example_tile (lst_of example_tile)
       (first_pointing example_tile))"
    by (simp add: example_flat_jacobian singular_def)
  then have s: "pointing_step example_flat_optics example_tile (lst_of example_tile) 0
       (first_pointing example_tile) = Inl LinAlgError"
    by (rule pointing_step_singular)
  have "[0..<2] = [0, 1::nat]" by (simp add: upt_rec)
  with s show ?thesis
    by (simp add: fiberassign_radec2xy_def tune_pointing_unfold)
qed

section \<open>The measured field rotation\<close>

text \<open>
  Claim C3, as amended.  For arrays of one length, \<open>_measure_fieldrot_deg\<close> returns, in degrees,
  the unweighted arithmetic mean (\<open>np.mean\<close>, the sum divided by the count) of the rotation
  estimates of the targets that pass the mask of line 11.  A target passes the mask only if
  its squared focal-plane radius exceeds \<open>10\<^sup>2\<close> and none of its four coordinates is NaN.  The
  result depends on the inputs only through the targets that pass the mask, so the other
  targets do not influence it.  No flux enters the computation.
\<close>

theorem measure_fieldrot_unweighted_mean:
  assumes "length dec = length ha" "length xfp = length ha" "length yfp = length ha"
  shows "measure_fieldrot_deg h ha dec tel_ha tel_dec xfp yfp
      = Inr (rad2deg (np_mean (map (target_estimate h tel_ha tel_dec)
               (filter fieldrot_ok (zip ha (zip dec (zip xfp yfp)))))))
   \<and> (\<forall>ha' dec' xfp' yfp'.
         length dec' = length ha' \<and> length xfp' = length ha' \<and> length yfp' = length ha'
         \<and> filter fieldrot_ok (zip ha' (zip dec' (zip xfp' yfp')))
             = filter fieldrot_ok (zip ha (zip dec (zip xfp yfp)))
         \<longrightarrow> measure_fieldrot_deg h ha' dec' tel_ha tel_dec xfp' yfp'
             = measure_fieldrot_deg h ha dec tel_ha tel_dec xfp yfp)
   \<and> (\<forall>a d x y. fieldrot_ok (a, d, x, y) \<longrightarrow>
         f_lt (Fin 100) (f_add (f_sq x) (f_sq y))
         \<and> \<not> isnan a \<and> \<not> isnan d \<and> \<not> isnan x \<and> \<not> isnan y)
   \<and> (\<forall>es. np_mean (map Fin es)
         = (if es = [] then NaN else Fin (sum_list es / real (length es))))"
proof -
  have ok: "f_lt (Fin 100) (f_add (f_sq x) (f_sq y))
         \<and> \<not> isnan a \<and> \<not> isnan d \<and> \<not> isnan x \<and> \<not> isnan y"
    if "fieldrot_ok (a, d, x, y)" for a d x y
    using that by (cases a; cases d; cases x; cases y) (simp_all add: fieldrot_ok_def)
  have nn: "\<not> list_ex isnan (map Fin es)" for es
    by (induction es) simp_all
  have "map ((\<lambda>v. case v of Fin r \<Rightarrow> r | NaN \<Rightarrow> 0) \<circ> Fin) es = es" for es
    by (induction es) simp_all
  then have fv: "finite_values (map Fin es) = Some es" for es
    by (simp add: finite_values_def nn)
  have mean: "np_mean (map Fin es) = (if es = [] then NaN else Fin (sum_list es / real (length es)))"
    for es by (simp add: np_mean_def fv)
  have same: "measure_fieldrot_deg h ha' dec' tel_ha tel_dec xfp' yfp'
             = measure_fieldrot_deg h ha dec tel_ha tel_dec xfp yfp"
    if "length dec' = length ha'" "length xfp' = length ha'" "length yfp' = length ha'"
      "filter fieldrot_ok (zip ha' (zip dec' (zip xfp' yfp')))
             = filter fieldrot_ok (zip ha (zip dec (zip xfp yfp)))" for ha' dec' xfp' yfp'
    using that assms by (simp add: measure_fieldrot_rows)
  from measure_fieldrot_rows [OF assms, of h tel_ha tel_dec] same ok mean
  show ?thesis by blast
qed

text \<open>
  Two targets at 20 mm from the centre give the estimates \<open>-1\<close> and \<open>1\<close>, whose mean is \<open>0\<close>; a
  third target at 5 mm changes nothing.
\<close>

theorem measure_fieldrot_unweighted_mean_witness:
  "measure_fieldrot_deg example_hadec2xy [Fin 0, Fin 5, Fin 1] [Fin 1, Fin 5, Fin 0] (Fin 0) (Fin 0)
     [Fin 20, Fin 3, Fin 0] [Fin 0, Fin 4, Fin 20]
   = measure_fieldrot_deg example_hadec2xy [Fin 0, Fin 1] [Fin 1, Fin 0] (Fin 0) (Fin 0)
     [Fin 20, Fin 0] [Fin 0, Fin 20]
   \<and> measure_fieldrot_deg example_hadec2xy [Fin 0, Fin 1] [Fin 1, Fin 0] (Fin 0) (Fin 0)
     [Fin 20, Fin 0] [Fin 0, Fin 20] = Inr (Fin 0)
   \<and> \<not> fieldrot_ok (Fin 5, Fin 5, Fin 3, Fin 4)"
proof -
  have l: "length [Fin 1, Fin (0::real)] = length [Fin 0, Fin (1::real)]"
    "length [Fin 20, Fin (0::real)] = length [Fin 0, Fin (1::real)]"
    "length [Fin 0, Fin (20::real)] = length [Fin 0, Fin (1::real)]"
    by simp_all
  have near: "\<not> fieldrot_ok (Fin 5, Fin 5, Fin 3, Fin 4)"
    by (simp add: fieldrot_ok_def f_sq_def)
  have f: "filter fieldrot_ok (zip [Fin 0, Fin 5, Fin 1] (zip [Fin 1, Fin 5, Fin 0]
                (zip [Fin 20, Fin 3, Fin 0] [Fin 0, Fin 4, Fin 20])))
         = filter fieldrot_ok (zip [Fin 0, Fin 1] (zip [Fin 1, Fin 0]
                (zip [Fin 20, Fin 0] [Fin 0, Fin 20])))"
    by (simp add: near)
  from measure_fieldrot_unweighted_mean [OF l, of example_hadec2xy "Fin 0" "Fin 0"]
  have "\<forall>ha' dec' xfp' yfp'.
         length dec' = length ha' \<and> length xfp' = length ha' \<and> length yfp' = length ha'
         \<and> filter fieldrot_ok (zip ha' (zip dec' (zip xfp' yfp')))
             = filter fieldrot_ok (zip [Fin 0, Fin 1] (zip [Fin 1, Fin 0]
                (zip [Fin 20, Fin 0] [Fin 0, Fin 20])))
         \<longrightarrow> measure_fieldrot_deg example_hadec2xy ha' dec' (Fin 0) (Fin 0) xfp' yfp'
             = measure_fieldrot_deg example_hadec2xy [Fin 0, Fin 1] [Fin 1, Fin 0] (Fin 0) (Fin 0)
                 [Fin 20, Fin 0] [Fin 0, Fin 20]"
    by blast
  from this [rule_format, of "[Fin 1, Fin 5, Fin 0]" "[Fin 0, Fin 5, Fin 1]"
      "[Fin 20, Fin 3, Fin 0]" "[Fin 0, Fin 4, Fin 20]"] f
  have "measure_fieldrot_deg example_hadec2xy [Fin 0, Fin 5, Fin 1] [Fin 1, Fin 5, Fin 0]
          (Fin 0) (Fin 0) [Fin 20, Fin 3, Fin 0] [Fin 0, Fin 4, Fin 20]
      = measure_fieldrot_deg example_hadec2xy [Fin 0, Fin 1] [Fin 1, Fin 0] (Fin 0) (Fin 0)
          [Fin 20, Fin 0] [Fin 0, Fin 20]"
    by simp
  with example_fieldrot near show ?thesis by simp
qed

text \<open>
  With the fluxes 1 and 3 the flux-weighted mean of the same two estimates is one half of a
  radian; the function returns \<open>0\<close>.
\<close>

theorem measure_fieldrot_flux_weighted_counterexample:
  "measure_fieldrot_deg example_hadec2xy [Fin 0, Fin 1] [Fin 1, Fin 0] (Fin 0) (Fin 0)
     [Fin 20, Fin 0] [Fin 0, Fin 20] = Inr (Fin 0)
   \<and> flux_weighted_fieldrot_deg example_hadec2xy [Fin 1, Fin 3] [Fin 0, Fin 1] [Fin 1, Fin 0]
       (Fin 0) (Fin 0) [Fin 20, Fin 0] [Fin 0, Fin 20] = Inr (Fin (90 / pi))
   \<and> Fin 0 \<noteq> Fin (90 / pi)"
  by (simp add: example_fieldrot flux_weighted_fieldrot_deg_def fieldrot_ok_def bool_index_def
        example_hadec2xy_def rotation_estimate_def f_sq_def weighted_mean_def finite_values_def
        rad2deg_def Let_def)

end
